theory Spec2Isabelle
  imports Complex_Main "HOL-Library.Multiset"
begin

text \<open>
  A shallow embedding of the parts of the StudyMate backend that its specification makes
  claims about: the circuit breaker and the decision engine of the orchestrator, and the
  score parser, the aggregator and the \<open>/evaluate\<close> handler of the evaluator. The first
  half of the theory holds the definitions, section by section in the order of the source
  files; the second half holds the properties.
\<close>

section \<open>Circuit breaker (backend/orchestrator/circuit_breaker.py)\<close>

text \<open>
  The breaker is a mutable object; every method becomes a function from the object to
  the updated object. Each reading of \<open>time.monotonic()\<close> is an explicit argument
  \<open>now\<close> (one reading per method call). Counters are Python integers.
\<close>

datatype CBState = CLOSED | OPEN | HALF_OPEN

record CircuitBreakerStats =
  total_calls :: int
  total_successes :: int
  total_failures :: int
  total_rejections :: int
  consecutive_failures :: int
  consecutive_successes :: int
  last_failure_time :: "real option"
  last_success_time :: "real option"
  state_changes :: int
  last_state_change_time :: "real option"

record CircuitBreaker =
  cb_name :: string
  failure_threshold :: int
  recovery_timeout_s :: int
  half_open_max_calls :: int
  cb_state :: CBState
  cb_stats :: CircuitBreakerStats
  half_open_calls :: int

definition new_stats :: CircuitBreakerStats where
  "new_stats = \<lparr> total_calls = 0, total_successes = 0, total_failures = 0,
     total_rejections = 0, consecutive_failures = 0, consecutive_successes = 0,
     last_failure_time = None, last_success_time = None, state_changes = 0,
     last_state_change_time = None \<rparr>"

text \<open>\<open>CircuitBreaker.__init__\<close>.\<close>

definition new_breaker :: "string \<Rightarrow> int \<Rightarrow> int \<Rightarrow> int \<Rightarrow> CircuitBreaker" where
  "new_breaker n ft rt hm = \<lparr> cb_name = n, failure_threshold = ft, recovery_timeout_s = rt,
     half_open_max_calls = hm, cb_state = CLOSED, cb_stats = new_stats, half_open_calls = 0 \<rparr>"

text \<open>\<open>CircuitBreaker._transition\<close>.\<close>

definition transition :: "real \<Rightarrow> CBState \<Rightarrow> CircuitBreaker \<Rightarrow> CircuitBreaker" where
  "transition now new_state cb =
    (let cb1 = cb\<lparr> cb_state := new_state,
                      cb_stats := (cb_stats cb)\<lparr> state_changes := state_changes (cb_stats cb) + 1,
                                                 last_state_change_time := Some now \<rparr> \<rparr>;
         cb2 = (if new_state = HALF_OPEN then cb1\<lparr> half_open_calls := 0 \<rparr> else cb1)
     in if new_state = CLOSED
        then cb2\<lparr> cb_stats := (cb_stats cb2)\<lparr> consecutive_failures := 0 \<rparr> \<rparr>
        else cb2)"

text \<open>
  Python truthiness of \<open>self._stats.last_failure_time\<close>: \<open>None\<close> and \<open>0.0\<close> are false.
\<close>

definition truthy_time :: "real option \<Rightarrow> bool" where
  "truthy_time t = (case t of None \<Rightarrow> False | Some x \<Rightarrow> x \<noteq> 0)"

text \<open>The \<open>state\<close> property: the read may itself move \<open>OPEN\<close> to \<open>HALF_OPEN\<close>.\<close>

definition state_read :: "real \<Rightarrow> CircuitBreaker \<Rightarrow> CBState \<times> CircuitBreaker" where
  "state_read now cb =
    (let cb' = (if cb_state cb = OPEN \<and> truthy_time (last_failure_time (cb_stats cb))
                then (if now - the (last_failure_time (cb_stats cb)) \<ge> real_of_int (recovery_timeout_s cb)
                      then transition now HALF_OPEN cb else cb)
                else cb)
     in (cb_state cb', cb'))"

text \<open>The \<open>is_available\<close> property.\<close>

definition is_available :: "real \<Rightarrow> CircuitBreaker \<Rightarrow> bool \<times> CircuitBreaker" where
  "is_available now cb =
    (let (s, cb') = state_read now cb
     in if s = CLOSED then (True, cb')
        else if s = HALF_OPEN then (half_open_calls cb' < half_open_max_calls cb', cb')
        else (False, cb'))"

definition record_success :: "real \<Rightarrow> CircuitBreaker \<Rightarrow> CircuitBreaker" where
  "record_success now cb =
    (let st = cb_stats cb;
         cb1 = cb\<lparr> cb_stats := st\<lparr> total_calls := total_calls st + 1,
                                      total_successes := total_successes st + 1,
                                      consecutive_successes := consecutive_successes st + 1,
                                      consecutive_failures := 0,
                                      last_success_time := Some now \<rparr> \<rparr>
     in if cb_state cb1 = HALF_OPEN
        then (let cb2 = cb1\<lparr> half_open_calls := half_open_calls cb1 + 1 \<rparr>
              in if consecutive_successes (cb_stats cb2) \<ge> half_open_max_calls cb2
                 then transition now CLOSED cb2 else cb2)
        else cb1)"

definition record_failure :: "real \<Rightarrow> CircuitBreaker \<Rightarrow> CircuitBreaker" where
  "record_failure now cb =
    (let st = cb_stats cb;
         cb1 = cb\<lparr> cb_stats := st\<lparr> total_calls := total_calls st + 1,
                                      total_failures := total_failures st + 1,
                                      consecutive_failures := consecutive_failures st + 1,
                                      consecutive_successes := 0,
                                      last_failure_time := Some now \<rparr> \<rparr>
     in if cb_state cb1 = HALF_OPEN then transition now OPEN cb1
        else if consecutive_failures (cb_stats cb1) \<ge> failure_threshold cb1
        then transition now OPEN cb1
        else cb1)"

definition reset :: "real \<Rightarrow> CircuitBreaker \<Rightarrow> CircuitBreaker" where
  "reset now cb =
    (let cb1 = transition now CLOSED cb
     in cb1\<lparr> cb_stats := (cb_stats cb1)\<lparr> consecutive_failures := 0,
                                          consecutive_successes := 0 \<rparr> \<rparr>)"

text \<open>
  \<open>CircuitBreaker.call\<close>: the awaited function is represented by its outcome
  (\<open>True\<close>: it returned, \<open>False\<close>: it raised). The result is \<open>Inl ()\<close> for
  \<open>CircuitOpenError\<close>, otherwise the outcome of the function.
\<close>

definition call :: "real \<Rightarrow> real \<Rightarrow> bool \<Rightarrow> CircuitBreaker \<Rightarrow> (unit + bool) \<times> CircuitBreaker" where
  "call now1 now2 ok cb =
    (let (av, cb1) = is_available now1 cb
     in if \<not> av
        then (Inl (), cb1\<lparr> cb_stats := (cb_stats cb1)\<lparr> total_rejections := total_rejections (cb_stats cb1) + 1 \<rparr> \<rparr>)
        else if ok then (Inr True, record_success now2 cb1)
        else (Inr False, record_failure now2 cb1))"

text \<open>
  Histories of method calls on one breaker, each with the clock reading it makes. A
  \<open>call\<close> is \<open>is_available\<close> followed by \<open>record_success\<close> or \<open>record_failure\<close> (or
  by a rejection, which only counts \<open>total_rejections\<close>), so its effect on the state is
  that of a history of these methods.
\<close>

datatype cb_op =
    RecordSuccess real
  | RecordFailure real
  | ReadState real
  | IsAvailable real
  | Reset real

fun apply_cb_op :: "cb_op \<Rightarrow> CircuitBreaker \<Rightarrow> CircuitBreaker" where
  "apply_cb_op (RecordSuccess t) cb = record_success t cb"
| "apply_cb_op (RecordFailure t) cb = record_failure t cb"
| "apply_cb_op (ReadState t) cb = snd (state_read t cb)"
| "apply_cb_op (IsAvailable t) cb = snd (is_available t cb)"
| "apply_cb_op (Reset t) cb = reset t cb"

fun run_cb :: "cb_op list \<Rightarrow> CircuitBreaker \<Rightarrow> CircuitBreaker" where
  "run_cb [] cb = cb"
| "run_cb (x # xs) cb = run_cb xs (apply_cb_op x cb)"

fun is_reset :: "cb_op \<Rightarrow> bool" where
  "is_reset (Reset t) = True"
| "is_reset _ = False"

fun is_failure :: "cb_op \<Rightarrow> bool" where
  "is_failure (RecordFailure t) = True"
| "is_failure _ = False"

fun is_success :: "cb_op \<Rightarrow> bool" where
  "is_success (RecordSuccess t) = True"
| "is_success _ = False"

text \<open>The method calls that read the \<open>state\<close> property (and so may fire the lazy transition).\<close>

fun reads_state :: "cb_op \<Rightarrow> bool" where
  "reads_state (ReadState t) = True"
| "reads_state (IsAvailable t) = True"
| "reads_state _ = False"

fun op_clock :: "cb_op \<Rightarrow> real" where
  "op_clock (RecordSuccess t) = t"
| "op_clock (RecordFailure t) = t"
| "op_clock (ReadState t) = t"
| "op_clock (IsAvailable t) = t"
| "op_clock (Reset t) = t"

subsection \<open>The claims' words, read off a history\<close>

text \<open>
  The clock reading of the most recent \<open>record_failure\<close> of a history, the method calls
  made after it, and whether one of them is a read of \<open>state\<close> made at least
  \<open>recovery_timeout\<close> after that failure. The code tests the stored failure time for
  truthiness, so a failure recorded at clock reading 0.0 never times out.
\<close>

definition last_failure_clock :: "cb_op list \<Rightarrow> real option" where
  "last_failure_clock ops =
    (case dropWhile (\<lambda>x. \<not> is_failure x) (rev ops) of [] \<Rightarrow> None | x # xs \<Rightarrow> Some (op_clock x))"

definition since_last_failure :: "cb_op list \<Rightarrow> cb_op list" where
  "since_last_failure ops = rev (takeWhile (\<lambda>x. \<not> is_failure x) (rev ops))"

definition recovery_read :: "int \<Rightarrow> cb_op list \<Rightarrow> bool" where
  "recovery_read rt ops =
    (case last_failure_clock ops of
       None \<Rightarrow> False
     | Some tf \<Rightarrow>
         tf \<noteq> 0 \<and> list_ex (\<lambda>x. reads_state x \<and> op_clock x - tf \<ge> real_of_int rt)
                        (since_last_failure ops))"

text \<open>
  The state of a breaker "after the lazy open to half-open transition is applied" at
  clock reading \<open>now\<close>.
\<close>

definition lazy_state :: "real \<Rightarrow> CircuitBreaker \<Rightarrow> CBState" where
  "lazy_state now cb =
    (case last_failure_time (cb_stats cb) of
       None \<Rightarrow> cb_state cb
     | Some tf \<Rightarrow>
         if cb_state cb = OPEN \<and> tf \<noteq> 0 \<and> now - tf \<ge> real_of_int (recovery_timeout_s cb)
         then HALF_OPEN else cb_state cb)"

text \<open>
  The number of calls counted in the current half-open period, read off a history: the
  count restarts at 0 when the breaker enters \<open>HALF_OPEN\<close> and grows by one with every
  \<open>record_success\<close> made while it is \<open>HALF_OPEN\<close>.
\<close>

fun period_calls :: "cb_op list \<Rightarrow> CircuitBreaker \<Rightarrow> int \<Rightarrow> int" where
  "period_calls [] cb c = c"
| "period_calls (x # xs) cb c =
     period_calls xs (apply_cb_op x cb)
       (if cb_state cb \<noteq> HALF_OPEN \<and> cb_state (apply_cb_op x cb) = HALF_OPEN then 0
        else if cb_state cb = HALF_OPEN \<and> is_success x then c + 1
        else c)"

text \<open>The invariant: the stored failure time is that of the history, and a failure count
  at or above the threshold fixes the state.\<close>

definition threshold_inv :: "cb_op list \<Rightarrow> CircuitBreaker \<Rightarrow> bool" where
  "threshold_inv ops cb =
    (last_failure_time (cb_stats cb) = last_failure_clock ops
     \<and> (if consecutive_failures (cb_stats cb) \<ge> failure_threshold cb
         then cb_state cb = (if recovery_read (recovery_timeout_s cb) ops then HALF_OPEN else OPEN)
         else True))"

subsection \<open>Concrete histories used below\<close>

text \<open>Five failed calls, and then a read of \<open>state\<close> sixty seconds after the last failure.\<close>

definition five_failures :: "cb_op list" where
  "five_failures =
     [RecordFailure 1, RecordFailure 2, RecordFailure 3, RecordFailure 4, RecordFailure 5]"

definition five_failures_then_read :: "cb_op list" where
  "five_failures_then_read = five_failures @ [ReadState 65]"

text \<open>The same, with two successful probes after the read.\<close>

definition recovery_history :: "cb_op list" where
  "recovery_history = five_failures_then_read @ [RecordSuccess 66, RecordSuccess 67]"

section \<open>Configuration and module registry (backend/orchestrator/config.py)\<close>

text \<open>
  The floats of the orchestrator are modelled as real numbers: arithmetic is exact, and
  there is no rounding, overflow, infinity or NaN. Python integers are \<open>int\<close>. A \<open>dict\<close> whose
  iteration order matters is an association list in insertion order.
\<close>

datatype py_error =
  KeyError | IndexError | ValueError | JSONDecodeError | TypeError | OverflowError | DatabaseError

record ModuleDefinition =
  name :: string
  label :: string
  description :: string
  route :: string
  port :: "int option"
  base_url :: "string option"
  remediation_skills :: "string list"
  prerequisite_modules :: "string list"
  weight :: real
  cooldown_minutes :: int

definition MODULES :: "(string \<times> ModuleDefinition) list" where
  "MODULES =
    [(''onboarding'',
       \<lparr> name = ''onboarding'', label = ''Onboarding'',
         description = ''Set up your goals, preferences, and learning profile.'',
         route = ''/onboarding'', port = None, base_url = None,
         remediation_skills = [], prerequisite_modules = [],
         weight = 0.5, cooldown_minutes = 1440 \<rparr>),
     (''production_interview'',
       \<lparr> name = ''production_interview'', label = ''Mock Interview'',
         description = ''Practice production thinking, clarity, and adaptability in realistic mock interviews.'',
         route = ''/mock-interview'', port = Some 8002, base_url = Some ''http://127.0.0.1:8002'',
         remediation_skills = [''clarity_avg'', ''adaptability_avg''], prerequisite_modules = [],
         weight = 1.2, cooldown_minutes = 15 \<rparr>),
     (''interactive_course'',
       \<lparr> name = ''interactive_course'', label = ''Interactive Course'',
         description = ''Learn system design, tradeoffs, and failure analysis through AI-powered courses.'',
         route = ''/course-generator'', port = Some 8008, base_url = Some ''http://127.0.0.1:8008'',
         remediation_skills = [''tradeoff_avg'', ''failure_awareness_avg''], prerequisite_modules = [],
         weight = 1.0, cooldown_minutes = 20 \<rparr>),
     (''dsa_practice'',
       \<lparr> name = ''dsa_practice'', label = ''DSA Practice'',
         description = ''Strengthen algorithm fundamentals with AI-guided problem solving.'',
         route = ''/dsa-sheet'', port = Some 8004, base_url = Some ''http://127.0.0.1:8004'',
         remediation_skills = [''dsa_predict_skill''], prerequisite_modules = [],
         weight = 1.0, cooldown_minutes = 10 \<rparr>),
     (''resume_builder'',
       \<lparr> name = ''resume_builder'', label = ''Resume Builder'',
         description = ''Optimize your resume for target roles with AI analysis.'',
         route = ''/resume-analyzer'', port = Some 8003, base_url = Some ''http://127.0.0.1:8003'',
         remediation_skills = [], prerequisite_modules = [],
         weight = 0.7, cooldown_minutes = 60 \<rparr>),
     (''project_studio'',
       \<lparr> name = ''project_studio'', label = ''Project Studio'',
         description = ''Apply your skills to a real project with multi-agent AI collaboration.'',
         route = ''/project-studio'', port = Some 8012, base_url = Some ''http://127.0.0.1:8012'',
         remediation_skills = [],
         prerequisite_modules = [''production_interview'', ''interactive_course''],
         weight = 0.9, cooldown_minutes = 30 \<rparr>)]"

record EngineConfig =
  weakness_threshold :: real
  strength_threshold :: real
  critical_threshold :: real
  decay_alpha :: real
  score_window_days :: int
  weakness_severity_weight :: real
  rate_of_change_weight :: real
  recency_weight :: real
  goal_alignment_weight :: real
  pattern_weight :: real
  max_consecutive_same_module :: int
  min_modules_before_repeat :: int
  llm_timeout_seconds :: real
  llm_max_tokens :: int
  llm_temperature :: real
  cb_failure_threshold :: int
  cb_recovery_timeout_s :: int
  cb_half_open_max_calls :: int
  health_check_interval_s :: int
  health_check_timeout_s :: real
  metrics_buffer_size :: int
  metrics_flush_interval_s :: int

text \<open>\<open>EngineConfig()\<close>: every field at its default.\<close>

definition default_config :: EngineConfig where
  "default_config =
    \<lparr> weakness_threshold = 0.4, strength_threshold = 0.75, critical_threshold = 0.2,
      decay_alpha = 0.3, score_window_days = 30,
      weakness_severity_weight = 0.40, rate_of_change_weight = 0.15, recency_weight = 0.15,
      goal_alignment_weight = 0.15, pattern_weight = 0.15,
      max_consecutive_same_module = 3, min_modules_before_repeat = 1,
      llm_timeout_seconds = 10.0, llm_max_tokens = 200, llm_temperature = 0.3,
      cb_failure_threshold = 5, cb_recovery_timeout_s = 60, cb_half_open_max_calls = 2,
      health_check_interval_s = 30, health_check_timeout_s = 5.0,
      metrics_buffer_size = 1000, metrics_flush_interval_s = 60 \<rparr>"

text \<open>\<open>SKILL_DIMENSIONS\<close>: only the \<open>label\<close> entry is read by the engine.\<close>

definition SKILL_DIMENSIONS :: "(string \<times> string) list" where
  "SKILL_DIMENSIONS =
    [(''clarity_avg'', ''Clarity''),
     (''tradeoff_avg'', ''Tradeoff Analysis''),
     (''adaptability_avg'', ''Adaptability''),
     (''failure_awareness_avg'', ''Failure Awareness''),
     (''dsa_predict_skill'', ''DSA Skills'')]"

definition GOAL_SKILL_WEIGHTS :: "(string \<times> (string \<times> real) list) list" where
  "GOAL_SKILL_WEIGHTS =
    [(''backend_engineer'',
       [(''clarity_avg'', 1.0), (''tradeoff_avg'', 1.3), (''adaptability_avg'', 1.0),
        (''failure_awareness_avg'', 1.3), (''dsa_predict_skill'', 1.2)]),
     (''frontend_engineer'',
       [(''clarity_avg'', 1.2), (''tradeoff_avg'', 1.0), (''adaptability_avg'', 1.3),
        (''failure_awareness_avg'', 0.8), (''dsa_predict_skill'', 0.9)]),
     (''fullstack_engineer'',
       [(''clarity_avg'', 1.1), (''tradeoff_avg'', 1.2), (''adaptability_avg'', 1.1),
        (''failure_awareness_avg'', 1.1), (''dsa_predict_skill'', 1.1)]),
     (''ml_engineer'',
       [(''clarity_avg'', 1.0), (''tradeoff_avg'', 1.3), (''adaptability_avg'', 1.0),
        (''failure_awareness_avg'', 1.2), (''dsa_predict_skill'', 1.4)]),
     (''devops_engineer'',
       [(''clarity_avg'', 0.9), (''tradeoff_avg'', 1.2), (''adaptability_avg'', 1.1),
        (''failure_awareness_avg'', 1.5), (''dsa_predict_skill'', 0.7)]),
     (''default'',
       [(''clarity_avg'', 1.0), (''tradeoff_avg'', 1.0), (''adaptability_avg'', 1.0),
        (''failure_awareness_avg'', 1.0), (''dsa_predict_skill'', 1.0)])]"

section \<open>Models (backend/orchestrator/models.py)\<close>

datatype DecisionDepth = NORMAL | REMEDIATION | CRITICAL | ONBOARDING

record SkillScores =
  clarity_avg :: real
  tradeoff_avg :: real
  adaptability_avg :: real
  failure_awareness_avg :: real
  dsa_predict_skill :: real

text \<open>\<open>SkillScores()\<close>: every dimension defaults to 1.0.\<close>

definition default_scores :: SkillScores where
  "default_scores = \<lparr> clarity_avg = 1.0, tradeoff_avg = 1.0, adaptability_avg = 1.0,
     failure_awareness_avg = 1.0, dsa_predict_skill = 1.0 \<rparr>"

text \<open>\<open>SkillScores.to_dict\<close>: the fields in declaration order.\<close>

definition to_dict :: "SkillScores \<Rightarrow> (string \<times> real) list" where
  "to_dict s =
    [(''clarity_avg'', clarity_avg s),
     (''tradeoff_avg'', tradeoff_avg s),
     (''adaptability_avg'', adaptability_avg s),
     (''failure_awareness_avg'', failure_awareness_avg s),
     (''dsa_predict_skill'', dsa_predict_skill s)]"

text \<open>
  \<open>min(d, key=d.get)\<close> on a non-empty dict: the first key, in iteration order, whose
  value is minimal.
\<close>

fun min_by_value :: "string \<times> real \<Rightarrow> (string \<times> real) list \<Rightarrow> string \<times> real" where
  "min_by_value best [] = best"
| "min_by_value best (kv # kvs) =
     (if snd kv < snd best then min_by_value kv kvs else min_by_value best kvs)"

definition weakest_dimension :: "SkillScores \<Rightarrow> real \<Rightarrow> string option" where
  "weakest_dimension s threshold =
    (let below = filter (\<lambda>(k, v). v < threshold) (to_dict s)
     in case below of [] \<Rightarrow> None | kv # kvs \<Rightarrow> Some (fst (min_by_value kv kvs)))"

definition all_healthy :: "SkillScores \<Rightarrow> real \<Rightarrow> bool" where
  "all_healthy s threshold = list_all (\<lambda>(k, v). v \<ge> threshold) (to_dict s)"

record UserState =
  user_id :: string
  scores :: SkillScores
  state_next_module :: "string option"
  state_last_update :: "real option"
  target_role :: "string option"
  primary_focus :: "string option"
  recent_modules :: "string list"
  module_visit_counts :: "(string \<times> int) list"

record ModuleScore =
  module :: string
  total_score :: real
  weakness_severity_score :: real
  rate_of_change_score :: real
  recency_score :: real
  goal_alignment_score :: real
  pattern_score :: real
  cooldown_penalty :: real
  diversity_bonus :: real

text \<open>\<open>ModuleScore(module=mod_name)\<close>: every score defaults to 0.0.\<close>

definition new_module_score :: "string \<Rightarrow> ModuleScore" where
  "new_module_score m = \<lparr> module = m, total_score = 0, weakness_severity_score = 0,
     rate_of_change_score = 0, recency_score = 0, goal_alignment_score = 0,
     pattern_score = 0, cooldown_penalty = 0, diversity_bonus = 0 \<rparr>"

text \<open>
  \<open>Decision\<close>. The free-text fields (\<open>reason\<close>, \<open>rule_reason\<close>, \<open>description\<close>,
  \<open>memory_context\<close>) and \<open>decision_id\<close>, which the engine fills with formatted
  strings or leaves at their defaults, are left out of the record.
\<close>

record Decision =
  next_module :: string
  depth :: DecisionDepth
  weakness_trigger :: "string option"
  decision_scores :: "(string \<times> real) list option"
  confidence :: real
  candidate_scores :: "ModuleScore list"

section \<open>Decision engine (backend/orchestrator/engine.py)\<close>

subsection \<open>Python library operations used by the engine\<close>

text \<open>\<open>d.get(k, default)\<close> on an association list.\<close>

definition dict_get :: "('k \<times> 'v) list \<Rightarrow> 'k \<Rightarrow> 'v \<Rightarrow> 'v" where
  "dict_get d k dflt = (case map_of d k of None \<Rightarrow> dflt | Some v \<Rightarrow> v)"

text \<open>\<open>xs.index(x)\<close>: the first position of \<open>x\<close>; \<open>None\<close> stands for \<open>ValueError\<close>.\<close>

fun list_index :: "'a list \<Rightarrow> 'a \<Rightarrow> nat option" where
  "list_index [] x = None"
| "list_index (y # ys) x =
     (if y = x then Some 0 else (case list_index ys x of None \<Rightarrow> None | Some i \<Rightarrow> Some (Suc i)))"

text \<open>\<open>xs[:n]\<close> for an integer \<open>n\<close>; a negative \<open>n\<close> counts from the end.\<close>

definition py_slice_to :: "int \<Rightarrow> 'a list \<Rightarrow> 'a list" where
  "py_slice_to n xs = (if n \<ge> 0 then take (nat n) xs else take (length xs - nat (- n)) xs)"

text \<open>\<open>max(xs)\<close> on a non-empty list.\<close>

fun py_max :: "real list \<Rightarrow> real" where
  "py_max [] = 0"
| "py_max (x # xs) = fold max xs x"

text \<open>\<open>str.lower\<close> and \<open>str.replace\<close> of one character, on ASCII text.\<close>

definition lower_char :: "char \<Rightarrow> char" where
  "lower_char c =
    (if (of_char c :: nat) \<ge> 65 \<and> (of_char c :: nat) \<le> 90 then char_of (of_char c + 32 :: nat) else c)"

definition lower :: "string \<Rightarrow> string" where
  "lower s = map lower_char s"

definition replace_char :: "char \<Rightarrow> char \<Rightarrow> string \<Rightarrow> string" where
  "replace_char a b s = map (\<lambda>c. if c = a then b else c) s"

text \<open>\<open>sub in s\<close> on strings: \<open>sub\<close> occurs as a contiguous block of \<open>s\<close>.\<close>

fun starts_with :: "'a list \<Rightarrow> 'a list \<Rightarrow> bool" where
  "starts_with [] s = True"
| "starts_with (a # as) [] = False"
| "starts_with (a # as) (c # cs) = (a = c \<and> starts_with as cs)"

fun str_in :: "'a list \<Rightarrow> 'a list \<Rightarrow> bool" where
  "str_in sub [] = (sub = [])"
| "str_in sub (c # cs) = (starts_with sub (c # cs) \<or> str_in sub cs)"

subsection \<open>Memory context\<close>

text \<open>
  \<open>memory_context\<close> is a dictionary built by the memory layer. The engine reads three
  keys: \<open>stats\<close> (only its truthiness), \<open>recent_events\<close> and \<open>patterns\<close>. An entry of
  the two lists is a dictionary (a database row), or something that is not a dictionary
  and is skipped. A field of a row is absent, present with the value \<open>None\<close>, or present
  with a value of its column type.
\<close>

datatype 'a py_field = Missing | Null | Value 'a

datatype mem_event = Event (event_type: "string py_field") (event_module: "string py_field") | NonDictEvent

datatype mem_pattern =
    Pattern (pattern_description: "string py_field") (pattern_type: "string py_field")
            (pattern_confidence: "real py_field")
  | NonDictPattern

text \<open>\<open>row.get(key, default)\<close>: the default replaces an absent key only; \<open>None\<close> in the
  result is a key that is present with the value \<open>None\<close>.\<close>

definition field_get :: "'a py_field \<Rightarrow> 'a \<Rightarrow> 'a option" where
  "field_get f dflt = (case f of Missing \<Rightarrow> Some dflt | Null \<Rightarrow> None | Value v \<Rightarrow> Some v)"

record memory_context =
  stats_nonempty :: bool
  recent_events :: "mem_event list"
  patterns :: "mem_pattern list"

text \<open>\<open>memory_context or {}\<close> for an absent argument.\<close>

definition empty_memory :: memory_context where
  "empty_memory = \<lparr> stats_nonempty = False, recent_events = [], patterns = [] \<rparr>"

subsection \<open>Step 1: decision depth\<close>

definition determine_depth :: "EngineConfig \<Rightarrow> UserState \<Rightarrow> DecisionDepth" where
  "determine_depth cfg state =
    (let sc = to_dict (scores state)
     in if list_ex (\<lambda>(dim, val). val < critical_threshold cfg) sc then CRITICAL
        else if list_ex (\<lambda>(dim, val). val < weakness_threshold cfg) sc then REMEDIATION
        else if list_all (\<lambda>v. v \<ge> 0.99) (map snd sc) \<and> recent_modules state = [] then ONBOARDING
        else NORMAL)"

subsection \<open>Step 2: candidate selection\<close>

text \<open>Truthiness of an optional string: \<open>None\<close> and the empty string are false.\<close>

definition truthy_str :: "string option \<Rightarrow> bool" where
  "truthy_str s = (case s of None \<Rightarrow> False | Some x \<Rightarrow> x \<noteq> [])"

definition get_candidates :: "UserState \<Rightarrow> (string \<rightharpoonup> bool) \<Rightarrow> string list" where
  "get_candidates state service_health =
    map fst (filter (\<lambda>(mod_name, mod_def).
        \<not> (truthy_str (base_url mod_def) \<and> service_health mod_name = Some False)
        \<and> \<not> (mod_name = ''onboarding'' \<and> recent_modules state \<noteq> []))
      MODULES)"

subsection \<open>Step 3: the signals\<close>

text \<open>
  The severity of one skill value. The division by \<open>weakness_threshold\<close> is reached only
  with \<open>critical_threshold \<le> val < weakness_threshold\<close>; for the validated scores
  (\<open>val \<ge> 0\<close>) the divisor is then positive, so \<open>ZeroDivisionError\<close> cannot occur.
\<close>

definition severity_of :: "EngineConfig \<Rightarrow> real \<Rightarrow> real" where
  "severity_of cfg val =
    (if val < critical_threshold cfg then 1.0
     else if val < weakness_threshold cfg then max 0.4 (1.0 - (val / weakness_threshold cfg))
     else 0.0)"

definition calc_weakness_severity :: "EngineConfig \<Rightarrow> ModuleDefinition \<Rightarrow> UserState \<Rightarrow> real" where
  "calc_weakness_severity cfg mod_def state =
    (if remediation_skills mod_def = []
     then (if all_healthy (scores state) (weakness_threshold cfg) then 0.6 else 0.1)
     else (let sc = to_dict (scores state);
               severities = map (\<lambda>skill. severity_of cfg (dict_get sc skill 1.0))
                                (remediation_skills mod_def)
           in if severities \<noteq> [] then py_max severities else 0.0))"

text \<open>
  The loop of \<open>_calc_rate_of_change\<close>: counts of weakness and strength events. An
  \<open>event_type\<close> that is \<open>None\<close> makes \<open>"weakness" in evt_type\<close> raise \<open>TypeError\<close>.
\<close>

fun count_events :: "mem_event list \<Rightarrow> int \<times> int \<Rightarrow> py_error + int \<times> int" where
  "count_events [] acc = Inr acc"
| "count_events (NonDictEvent # es) acc = count_events es acc"
| "count_events (Event et em # es) (w, s) =
     (case field_get et [] of
        None \<Rightarrow> Inl TypeError
      | Some evt_type \<Rightarrow>
          if str_in ''weakness'' evt_type then count_events es (w + 1, s)
          else if str_in ''strength'' evt_type then count_events es (w, s + 1)
          else count_events es (w, s))"

definition calc_rate_of_change ::
  "ModuleDefinition \<Rightarrow> UserState \<Rightarrow> memory_context \<Rightarrow> py_error + real" where
  "calc_rate_of_change mod_def state mem =
    (if \<not> stats_nonempty mem then Inr 0.5
     else if recent_events mem = [] then Inr 0.5
     else (case count_events (recent_events mem) (0, 0) of
             Inl e \<Rightarrow> Inl e
           | Inr (weakness_count, strength_count) \<Rightarrow>
               (let total = weakness_count + strength_count
                in if total = 0 then Inr 0.5
                   else Inr (real_of_int weakness_count / real_of_int total))))"

definition calc_recency_score :: "string \<Rightarrow> UserState \<Rightarrow> real" where
  "calc_recency_score mod_name state =
    (if recent_modules state = [] then 0.5
     else (case list_index (recent_modules state) mod_name of
             Some idx \<Rightarrow> min 1.0 (real idx / real (max (length (recent_modules state)) 1))
           | None \<Rightarrow> 0.8))"

definition calc_goal_alignment :: "ModuleDefinition \<Rightarrow> UserState \<Rightarrow> real" where
  "calc_goal_alignment mod_def state =
    (if \<not> truthy_str (target_role state) \<or> remediation_skills mod_def = [] then 0.5
     else (let role_key = replace_char CHR ''-'' CHR ''_''
                            (replace_char CHR '' '' CHR ''_'' (lower (the (target_role state))));
               weights = dict_get GOAL_SKILL_WEIGHTS role_key
                           (dict_get GOAL_SKILL_WEIGHTS ''default'' []);
               alignment_values = map (\<lambda>skill. dict_get weights skill 1.0)
                                      (remediation_skills mod_def)
           in if alignment_values = [] then 0.5
              else (let avg = sum_list alignment_values / real (length alignment_values)
                    in min 1.0 (max 0.0 ((avg - 0.7) / 0.8)))))"

text \<open>
  The two nested loops of \<open>_calc_pattern_signal\<close>: for each pattern and each remediation
  skill whose label occurs in the lower-cased description, the pattern's confidence
  (0.5 when the key is absent) is added. The confidence is read only then; one that is
  \<open>None\<close> makes the addition raise \<open>TypeError\<close>. A description that is absent or
  \<open>None\<close> counts as the empty string.
\<close>

fun pattern_skill_hits :: "string \<Rightarrow> real option \<Rightarrow> string list \<Rightarrow> real \<Rightarrow> py_error + real" where
  "pattern_skill_hits desc conf [] acc = Inr acc"
| "pattern_skill_hits desc conf (skill # skills) acc =
     (let skill_label = lower (dict_get SKILL_DIMENSIONS skill [])
      in if skill_label \<noteq> [] \<and> str_in skill_label desc
         then (case conf of
                 None \<Rightarrow> Inl TypeError
               | Some c \<Rightarrow> pattern_skill_hits desc conf skills (acc + c))
         else pattern_skill_hits desc conf skills acc)"

fun relevant_patterns :: "string list \<Rightarrow> mem_pattern list \<Rightarrow> real \<Rightarrow> py_error + real" where
  "relevant_patterns skills [] acc = Inr acc"
| "relevant_patterns skills (NonDictPattern # ps) acc = relevant_patterns skills ps acc"
| "relevant_patterns skills (Pattern d pt c # ps) acc =
     (let desc = lower (case field_get d [] of None \<Rightarrow> [] | Some x \<Rightarrow> x);
          conf = field_get c 0.5
      in case pattern_skill_hits desc conf skills acc of
           Inl e \<Rightarrow> Inl e
         | Inr acc' \<Rightarrow> relevant_patterns skills ps acc')"

definition calc_pattern_signal :: "string \<Rightarrow> memory_context \<Rightarrow> py_error + real" where
  "calc_pattern_signal mod_name mem =
    (if patterns mem = [] then Inr 0.5
     else (case map_of MODULES mod_name of
             None \<Rightarrow> Inr 0.3
           | Some mod_def \<Rightarrow>
               if remediation_skills mod_def = [] then Inr 0.3
               else (case relevant_patterns (remediation_skills mod_def) (patterns mem) 0 of
                       Inl e \<Rightarrow> Inl e
                     | Inr hits \<Rightarrow> Inr (min 1.0 hits))))"

definition calc_cooldown_penalty :: "EngineConfig \<Rightarrow> string \<Rightarrow> UserState \<Rightarrow> ModuleDefinition \<Rightarrow> real" where
  "calc_cooldown_penalty cfg mod_name state mod_def =
    (case recent_modules state of
       [] \<Rightarrow> 0.0
     | m # ms \<Rightarrow>
         if m = mod_name then 0.3
         else if mod_name \<in> set (py_slice_to (min_modules_before_repeat cfg + 1) (recent_modules state))
         then 0.15
         else 0.0)"

definition calc_diversity_bonus :: "string \<Rightarrow> UserState \<Rightarrow> real" where
  "calc_diversity_bonus mod_name state =
    (let visit_count = dict_get (module_visit_counts state) mod_name 0;
         s = sum_list (map snd (module_visit_counts state));
         total_visits = (if s = 0 then 1 else s);
         visit_ratio = real_of_int visit_count / real_of_int total_visits
     in max 0.0 (1.0 - visit_ratio * 3))"

text \<open>
  \<open>_score_candidate\<close>; \<open>MODULES[mod_name]\<close> raises \<open>KeyError\<close> for an unknown name, and
  an exception of a signal leaves the function at that statement.
\<close>

definition score_candidate ::
  "EngineConfig \<Rightarrow> string \<Rightarrow> UserState \<Rightarrow> memory_context \<Rightarrow> (string \<rightharpoonup> bool)
     \<Rightarrow> py_error + ModuleScore" where
  "score_candidate cfg mod_name state mem service_health =
    (case map_of MODULES mod_name of
       None \<Rightarrow> Inl KeyError
     | Some mod_def \<Rightarrow>
        (let ms = new_module_score mod_name;
             ms = ms\<lparr> weakness_severity_score := calc_weakness_severity cfg mod_def state \<rparr>
         in case calc_rate_of_change mod_def state mem of
              Inl e \<Rightarrow> Inl e
            | Inr rate \<Rightarrow>
               (let ms = ms\<lparr> rate_of_change_score := rate \<rparr>;
                    ms = ms\<lparr> recency_score := calc_recency_score mod_name state \<rparr>;
                    ms = ms\<lparr> goal_alignment_score := calc_goal_alignment mod_def state \<rparr>
                in case calc_pattern_signal mod_name mem of
                     Inl e \<Rightarrow> Inl e
                   | Inr pat \<Rightarrow>
                      (let ms = ms\<lparr> pattern_score := pat \<rparr>;
                           ms = ms\<lparr> cooldown_penalty :=
                                  calc_cooldown_penalty cfg mod_name state mod_def \<rparr>;
                           ms = ms\<lparr> diversity_bonus := calc_diversity_bonus mod_name state \<rparr>;
                           ms = ms\<lparr> total_score :=
                                  (weakness_severity_score ms * weakness_severity_weight cfg
                                   + rate_of_change_score ms * rate_of_change_weight cfg
                                   + recency_score ms * recency_weight cfg
                                   + goal_alignment_score ms * goal_alignment_weight cfg
                                   + pattern_score ms * pattern_weight cfg
                                   + diversity_bonus ms * 0.05
                                   - cooldown_penalty ms) * weight mod_def \<rparr>
                       in Inr ms))))"

subsection \<open>Steps 4 to 6: ranking, diversity filter, result\<close>

text \<open>
  \<open>scored.sort(key=lambda s: s.total_score, reverse=True)\<close>: a stable sort, descending;
  entries with equal totals keep their order.
\<close>

definition sort_scored :: "ModuleScore list \<Rightarrow> ModuleScore list" where
  "sort_scored scored = sort_key (\<lambda>s. - total_score s) scored"

text \<open>The counting loop of \<open>_apply_diversity_filter\<close>, which stops at the first other module.\<close>

fun count_consecutive :: "string \<Rightarrow> string list \<Rightarrow> int \<Rightarrow> int" where
  "count_consecutive last_module [] consecutive = consecutive"
| "count_consecutive last_module (m # ms) consecutive =
     (if m = last_module then count_consecutive last_module ms (consecutive + 1)
      else consecutive)"

text \<open>\<open>scored[i]\<close> raises \<open>IndexError\<close> out of range.\<close>

definition list_get :: "'a list \<Rightarrow> nat \<Rightarrow> py_error + 'a" where
  "list_get xs i = (if i < length xs then Inr (xs ! i) else Inl IndexError)"

definition apply_diversity_filter ::
  "EngineConfig \<Rightarrow> ModuleScore list \<Rightarrow> UserState \<Rightarrow> py_error + ModuleScore" where
  "apply_diversity_filter cfg scored state =
    (case recent_modules state of
       [] \<Rightarrow> list_get scored 0
     | last_module # rest \<Rightarrow>
         (let consecutive = count_consecutive last_module (recent_modules state) 0
          in if consecutive < max_consecutive_same_module cfg then list_get scored 0
             else (case list_get scored 0 of
                     Inl e \<Rightarrow> Inl e
                   | Inr first \<Rightarrow>
                       if module first = last_module \<and> length scored > 1
                       then list_get scored 1
                       else list_get scored 0)))"

definition calculate_confidence :: "ModuleScore list \<Rightarrow> real" where
  "calculate_confidence scored =
    (if length scored < 2 then 1.0
     else (let top_score = total_score (scored ! 0);
               second = total_score (scored ! 1)
           in if top_score \<le> 0 then 0.5
              else (let gap_ratio = (top_score - second) / top_score
                    in min 1.0 (max 0.3 (0.5 + gap_ratio)))))"

text \<open>The scoring loop of \<open>decide\<close>; the first exception ends it.\<close>

fun score_all ::
  "EngineConfig \<Rightarrow> string list \<Rightarrow> UserState \<Rightarrow> memory_context \<Rightarrow> (string \<rightharpoonup> bool)
     \<Rightarrow> py_error + ModuleScore list" where
  "score_all cfg [] state mem service_health = Inr []"
| "score_all cfg (mod_name # rest) state mem service_health =
     (case score_candidate cfg mod_name state mem service_health of
        Inl e \<Rightarrow> Inl e
      | Inr sc \<Rightarrow>
          (case score_all cfg rest state mem service_health of
             Inl e \<Rightarrow> Inl e
           | Inr scs \<Rightarrow> Inr (sc # scs)))"

definition decide ::
  "EngineConfig \<Rightarrow> UserState \<Rightarrow> memory_context \<Rightarrow> (string \<rightharpoonup> bool) \<Rightarrow> py_error + Decision" where
  "decide cfg state mem service_health =
    (let depth = determine_depth cfg state;
         candidates = get_candidates state service_health
     in if candidates = []
        then (case map_of MODULES ''project_studio'' of
                None \<Rightarrow> Inl KeyError
              | Some mod_def \<Rightarrow>
                  Inr \<lparr> next_module = ''project_studio'', depth = depth,
                        weakness_trigger = None,
                        decision_scores = Some (to_dict (scores state)),
                        confidence = 0.5, candidate_scores = [] \<rparr>)
        else (case score_all cfg candidates state mem service_health of
                Inl e \<Rightarrow> Inl e
              | Inr unsorted \<Rightarrow>
                 (let scored = sort_scored unsorted
                  in case apply_diversity_filter cfg scored state of
                       Inl e \<Rightarrow> Inl e
                     | Inr winner \<Rightarrow>
                         Inr \<lparr> next_module = module winner, depth = depth,
                               weakness_trigger =
                                 weakest_dimension (scores state) (weakness_threshold cfg),
                               decision_scores = Some (to_dict (scores state)),
                               confidence = calculate_confidence scored,
                               candidate_scores = take 5 scored \<rparr>)))"

subsection \<open>Concrete inputs used below\<close>

text \<open>A new user: default scores, no history.\<close>

definition fresh_user :: UserState where
  "fresh_user = \<lparr> user_id = ''u1'', scores = default_scores, state_next_module = None,
     state_last_update = None, target_role = None, primary_focus = None,
     recent_modules = [], module_visit_counts = [] \<rparr>"

text \<open>A user whose clarity is 0.15 while every other dimension is 0.9.\<close>

definition weak_clarity_user :: UserState where
  "weak_clarity_user = fresh_user\<lparr> scores := default_scores\<lparr> clarity_avg := 0.15,
     tradeoff_avg := 0.9, adaptability_avg := 0.9, failure_awareness_avg := 0.9,
     dsa_predict_skill := 0.9 \<rparr> \<rparr>"

text \<open>A user who was sent to DSA practice three times in a row.\<close>

definition repeat_user :: UserState where
  "repeat_user = fresh_user\<lparr> recent_modules := [''dsa_practice'', ''dsa_practice'', ''dsa_practice''],
     module_visit_counts := [(''dsa_practice'', 3)] \<rparr>"

text \<open>A memory context in which no field that the engine reads is \<open>None\<close>.\<close>

definition memory_well_typed :: "memory_context \<Rightarrow> bool" where
  "memory_well_typed mem =
    (list_all (\<lambda>e. case e of Event et em \<Rightarrow> et \<noteq> Null | NonDictEvent \<Rightarrow> True) (recent_events mem)
     \<and> list_all (\<lambda>p. case p of Pattern d pt c \<Rightarrow> c \<noteq> Null | NonDictPattern \<Rightarrow> True) (patterns mem))"

text \<open>A user with a clarity of 0.15 and a history, and a health map in which every
  external service is unhealthy.\<close>

definition weak_clarity_returning_user :: UserState where
  "weak_clarity_returning_user = weak_clarity_user\<lparr> recent_modules := [''dsa_practice''] \<rparr>"

definition all_unhealthy :: "string \<rightharpoonup> bool" where
  "all_unhealthy = (\<lambda>name. Some False)"

text \<open>A health map in which only the DSA service is healthy.\<close>

definition only_dsa_healthy :: "string \<rightharpoonup> bool" where
  "only_dsa_healthy = (\<lambda>name. Some (name = ''dsa_practice''))"

definition scored_example :: "ModuleScore list" where
  "scored_example =
    [(new_module_score ''interactive_course'')\<lparr> total_score := 0.5 \<rparr>,
     (new_module_score ''dsa_practice'')\<lparr> total_score := 0.7 \<rparr>]"

section \<open>Evaluator: score parsing (backend/evaluator/scorer.py)\<close>

subsection \<open>Python values and library functions used by the parser\<close>

text \<open>
  Text is a list of bytes (UTF-8). A Python \<open>float\<close> is a real number, or one of the
  three special values that \<open>json.loads\<close> and \<open>float()\<close> can produce. Rounding to
  double precision is not modelled; overflow is: a number whose magnitude is at least
  \<open>2^1024 - 2^970\<close>, halfway between the largest double and \<open>2^1024\<close>, has no finite
  double. A decimal literal of that size is read as an infinity, and \<open>float()\<close> of an
  integer of that size raises \<open>OverflowError\<close>.
\<close>

datatype py_float = Finite real | PosInf | NegInf | NaN

definition overflows :: "real \<Rightarrow> bool" where
  "overflows x = (\<bar>x\<bar> \<ge> 2 ^ 1024 - 2 ^ 970)"

definition to_double :: "real \<Rightarrow> py_float" where
  "to_double x = (if overflows x then (if x < 0 then NegInf else PosInf) else Finite x)"

text \<open>The default limit of \<open>int()\<close> on the number of digits of a decimal literal.\<close>

definition int_max_str_digits :: nat where
  "int_max_str_digits = 4300"

datatype json =
    JNull
  | JBool bool
  | JInt int
  | JFloat py_float
  | JStr string
  | JArr "json list"
  | JObj "(string \<times> json) list"

definition is_digit :: "char \<Rightarrow> bool" where
  "is_digit c = ((of_char c :: nat) \<ge> 48 \<and> (of_char c :: nat) \<le> 57)"

definition digit_val :: "char \<Rightarrow> nat" where
  "digit_val c = of_char c - 48"

definition digits_val :: "string \<Rightarrow> nat" where
  "digits_val ds = fold (\<lambda>c n. 10 * n + digit_val c) ds 0"

text \<open>The whitespace of the JSON decoder: space, tab, line feed, carriage return.\<close>

definition is_json_ws :: "char \<Rightarrow> bool" where
  "is_json_ws c = (c = CHR '' '' \<or> c = CHR 0x09 \<or> c = CHR 0x0A \<or> c = CHR 0x0D)"

definition skip_ws :: "string \<Rightarrow> string" where
  "skip_ws s = dropWhile is_json_ws s"

text \<open>
  \<open>str.strip()\<close>: removes leading and trailing whitespace; on ASCII text that is space,
  \<open>\t \n \v \f \r\<close> and the separators \<open>0x1C\<close> to \<open>0x1F\<close>.
\<close>

definition is_py_space :: "char \<Rightarrow> bool" where
  "is_py_space c = (c = CHR '' '' \<or> ((of_char c :: nat) \<ge> 9 \<and> (of_char c :: nat) \<le> 13)
     \<or> ((of_char c :: nat) \<ge> 28 \<and> (of_char c :: nat) \<le> 31))"

definition strip :: "string \<Rightarrow> string" where
  "strip s = rev (dropWhile is_py_space (rev (dropWhile is_py_space s)))"

text \<open>
  A number of the form \<open>-?(0|[1-9]\d*)(\.\d+)?([eE][-+]?\d+)?\<close> at the start of the text:
  an \<open>int\<close> without fraction and exponent, a \<open>float\<close> otherwise.
\<close>

definition scan_int_part :: "string \<Rightarrow> (string \<times> string) option" where
  "scan_int_part s =
    (case s of
       [] \<Rightarrow> None
     | c # cs \<Rightarrow>
         if c = CHR ''0'' then Some ([c], cs)
         else if is_digit c then Some (takeWhile is_digit s, dropWhile is_digit s)
         else None)"

definition scan_frac_part :: "string \<Rightarrow> (string \<times> string) option" where
  "scan_frac_part s =
    (case s of
       c # d # cs \<Rightarrow>
         if c = CHR ''.'' \<and> is_digit d
         then Some (takeWhile is_digit (d # cs), dropWhile is_digit (d # cs))
         else None
     | _ \<Rightarrow> None)"

definition scan_exp_part :: "string \<Rightarrow> (int \<times> string) option" where
  "scan_exp_part s =
    (case s of
       [] \<Rightarrow> None
     | e # cs \<Rightarrow>
         if e = CHR ''e'' \<or> e = CHR ''E''
         then (let (neg, ds) = (case cs of
                                  [] \<Rightarrow> (False, cs)
                                | g # r \<Rightarrow> if g = CHR ''-'' then (True, r)
                                           else if g = CHR ''+'' then (False, r)
                                           else (False, cs))
               in if takeWhile is_digit ds = [] then None
                  else Some ((if neg then - int (digits_val (takeWhile is_digit ds))
                              else int (digits_val (takeWhile is_digit ds))),
                             dropWhile is_digit ds))
         else None)"

definition pow10 :: "int \<Rightarrow> real" where
  "pow10 e = (if e \<ge> 0 then 10 ^ nat e else 1 / 10 ^ nat (- e))"

definition scan_number :: "string \<Rightarrow> (json \<times> string) option" where
  "scan_number s =
    (let (neg, s1) = (case s of [] \<Rightarrow> (False, s)
                      | c # cs \<Rightarrow> if c = CHR ''-'' then (True, cs) else (False, s))
     in case scan_int_part s1 of
          None \<Rightarrow> None
        | Some (ip, s2) \<Rightarrow>
            (let frac = scan_frac_part s2;
                 s3 = (case frac of None \<Rightarrow> s2 | Some (fp, r) \<Rightarrow> r);
                 ex = scan_exp_part s3;
                 s4 = (case ex of None \<Rightarrow> s3 | Some (e, r) \<Rightarrow> r)
             in if frac = None \<and> ex = None
                then (if length ip > int_max_str_digits then None
                      else Some (JInt (if neg then - int (digits_val ip)
                                       else int (digits_val ip)), s4))
                else (let fp = (case frac of None \<Rightarrow> [] | Some (fp, r) \<Rightarrow> fp);
                          e = (case ex of None \<Rightarrow> 0 | Some (e, r) \<Rightarrow> e);
                          m = (real (digits_val ip) + real (digits_val fp) / 10 ^ length fp)
                                * pow10 e
                      in Some (JFloat (to_double (if neg then - m else m)), s4))))"

text \<open>
  A string body up to the closing quote (strict mode: no raw control characters). An
  escape \<open>\uXXXX\<close> yields the UTF-8 bytes of that code unit; surrogate pairs are not
  combined.
\<close>

definition hex_val :: "char \<Rightarrow> nat option" where
  "hex_val c =
    (let n = (of_char c :: nat)
     in if 48 \<le> n \<and> n \<le> 57 then Some (n - 48)
        else if 97 \<le> n \<and> n \<le> 102 then Some (n - 87)
        else if 65 \<le> n \<and> n \<le> 70 then Some (n - 55)
        else None)"

definition utf8_encode :: "nat \<Rightarrow> string" where
  "utf8_encode n =
    (if n < 128 then [char_of n]
     else if n < 2048 then [char_of (192 + n div 64), char_of (128 + n mod 64)]
     else [char_of (224 + n div 4096), char_of (128 + (n div 64) mod 64), char_of (128 + n mod 64)])"

definition simple_escape :: "char \<Rightarrow> char option" where
  "simple_escape c =
    (if c = CHR 0x22 then Some (CHR 0x22)
     else if c = CHR 0x5C then Some (CHR 0x5C)
     else if c = CHR ''/'' then Some (CHR ''/'')
     else if c = CHR ''b'' then Some (CHR 0x08)
     else if c = CHR ''f'' then Some (CHR 0x0C)
     else if c = CHR ''n'' then Some (CHR 0x0A)
     else if c = CHR ''r'' then Some (CHR 0x0D)
     else if c = CHR ''t'' then Some (CHR 0x09)
     else None)"

fun scan_string :: "string \<Rightarrow> string \<Rightarrow> (string \<times> string) option" where
  "scan_string [] acc = None"
| "scan_string (c # cs) acc =
     (if c = CHR 0x22 then Some (rev acc, cs)
      else if c = CHR 0x5C then
        (case cs of
           [] \<Rightarrow> None
         | e # r \<Rightarrow>
             if e = CHR ''u'' then
               (case r of
                  a # b # x # y # r' \<Rightarrow>
                    (case (hex_val a, hex_val b, hex_val x, hex_val y) of
                       (Some h1, Some h2, Some h3, Some h4) \<Rightarrow>
                         scan_string r' (rev (utf8_encode (((h1 * 16 + h2) * 16 + h3) * 16 + h4)) @ acc)
                     | _ \<Rightarrow> None)
                | _ \<Rightarrow> None)
             else (case simple_escape e of
                     None \<Rightarrow> None
                   | Some ch \<Rightarrow> scan_string r (ch # acc)))
      else if (of_char c :: nat) < 32 then None
      else scan_string cs (c # acc))"

text \<open>
  The recursive decoder. The first argument bounds the number of nested and successive
  calls; \<open>json_loads\<close> starts it above twice the length of the text, from where on the
  result no longer depends on it. \<open>None\<close> is \<open>JSONDecodeError\<close>, or the \<open>ValueError\<close> that
  \<open>int()\<close> raises on an integer literal of more than 4300 digits; the parser catches both
  by the same clause.
\<close>

fun parse_value :: "nat \<Rightarrow> string \<Rightarrow> (json \<times> string) option"
  and parse_elements :: "nat \<Rightarrow> string \<Rightarrow> json list \<Rightarrow> (json \<times> string) option"
  and parse_members :: "nat \<Rightarrow> string \<Rightarrow> (string \<times> json) list \<Rightarrow> (json \<times> string) option"
where
  "parse_value 0 s = None"
| "parse_value (Suc n) s =
     (case s of
        [] \<Rightarrow> None
      | c # cs \<Rightarrow>
          if c = CHR 0x22 then
            (case scan_string cs [] of None \<Rightarrow> None | Some (str, rest) \<Rightarrow> Some (JStr str, rest))
          else if c = CHR ''{'' then
            (case skip_ws cs of
               [] \<Rightarrow> None
             | d # r \<Rightarrow> if d = CHR ''}'' then Some (JObj [], r) else parse_members n (d # r) [])
          else if c = CHR ''['' then
            (case skip_ws cs of
               [] \<Rightarrow> None
             | d # r \<Rightarrow> if d = CHR '']'' then Some (JArr [], r) else parse_elements n (d # r) [])
          else if starts_with ''null'' s then Some (JNull, drop 4 s)
          else if starts_with ''true'' s then Some (JBool True, drop 4 s)
          else if starts_with ''false'' s then Some (JBool False, drop 5 s)
          else (case scan_number s of
                  Some r \<Rightarrow> Some r
                | None \<Rightarrow>
                    if starts_with ''NaN'' s then Some (JFloat NaN, drop 3 s)
                    else if starts_with ''Infinity'' s then Some (JFloat PosInf, drop 8 s)
                    else if starts_with ''-Infinity'' s then Some (JFloat NegInf, drop 9 s)
                    else None))"
| "parse_elements 0 s acc = None"
| "parse_elements (Suc n) s acc =
     (case parse_value n s of
        None \<Rightarrow> None
      | Some (v, rest) \<Rightarrow>
          (case skip_ws rest of
             [] \<Rightarrow> None
           | d # r \<Rightarrow>
               if d = CHR '']'' then Some (JArr (rev (v # acc)), r)
               else if d = CHR '','' then parse_elements n (skip_ws r) (v # acc)
               else None))"
| "parse_members 0 s acc = None"
| "parse_members (Suc n) s acc =
     (case s of
        [] \<Rightarrow> None
      | q # cs \<Rightarrow>
          if q \<noteq> CHR 0x22 then None
          else (case scan_string cs [] of
                  None \<Rightarrow> None
                | Some (key, rest) \<Rightarrow>
                    (case skip_ws rest of
                       [] \<Rightarrow> None
                     | colon # r \<Rightarrow>
                         if colon \<noteq> CHR '':'' then None
                         else (case parse_value n (skip_ws r) of
                                 None \<Rightarrow> None
                               | Some (v, rest') \<Rightarrow>
                                   (case skip_ws rest' of
                                      [] \<Rightarrow> None
                                    | d # r' \<Rightarrow>
                                        if d = CHR ''}'' then Some (JObj (rev ((key, v) # acc)), r')
                                        else if d = CHR '','' then
                                          parse_members n (skip_ws r') ((key, v) # acc)
                                        else None)))))"

text \<open>\<open>json.loads\<close>: one value, surrounded by whitespace only.\<close>

definition json_loads :: "string \<Rightarrow> json option" where
  "json_loads s =
    (case parse_value (Suc (2 * length s)) (skip_ws s) of
       None \<Rightarrow> None
     | Some (v, rest) \<Rightarrow> if skip_ws rest = [] then Some v else None)"

text \<open>
  \<open>float(s)\<close> on a string: optional sign, then \<open>inf\<close>, \<open>infinity\<close> or \<open>nan\<close> in any
  case, or a decimal number with optional fraction and exponent whose digit groups may be
  separated by single underscores; surrounding whitespace is ignored. \<open>None\<close> is
  \<open>ValueError\<close>.
\<close>

fun scan_digitpart_rest :: "string \<Rightarrow> string \<Rightarrow> string \<times> string" where
  "scan_digitpart_rest acc [] = (rev acc, [])"
| "scan_digitpart_rest acc [d] = (if is_digit d then (rev (d # acc), []) else (rev acc, [d]))"
| "scan_digitpart_rest acc (d # e # r) =
     (if is_digit d then scan_digitpart_rest (d # acc) (e # r)
      else if d = CHR ''_'' \<and> is_digit e then scan_digitpart_rest (e # acc) r
      else (rev acc, d # e # r))"

definition scan_digitpart :: "string \<Rightarrow> (string \<times> string) option" where
  "scan_digitpart s =
    (case s of [] \<Rightarrow> None
     | d # r \<Rightarrow> if is_digit d then Some (scan_digitpart_rest [d] r) else None)"

definition scan_py_exponent :: "string \<Rightarrow> int option" where
  "scan_py_exponent s =
    (case s of
       [] \<Rightarrow> Some 0
     | e # cs \<Rightarrow>
         if e = CHR ''e'' \<or> e = CHR ''E''
         then (let (neg, ds) = (case cs of
                                  [] \<Rightarrow> (False, cs)
                                | g # r \<Rightarrow> if g = CHR ''-'' then (True, r)
                                           else if g = CHR ''+'' then (False, r)
                                           else (False, cs))
               in case scan_digitpart ds of
                    Some (digits, []) \<Rightarrow>
                      Some (if neg then - int (digits_val digits) else int (digits_val digits))
                  | _ \<Rightarrow> None)
         else None)"

definition py_mantissa :: "string \<Rightarrow> string \<Rightarrow> string \<Rightarrow> real option" where
  "py_mantissa ip fp rest =
    (case scan_py_exponent rest of
       None \<Rightarrow> None
     | Some e \<Rightarrow> Some ((real (digits_val ip) + real (digits_val fp) / 10 ^ length fp) * pow10 e))"

definition float_of_string :: "string \<Rightarrow> py_float option" where
  "float_of_string s =
    (let t = strip s;
         (neg, t1) = (case t of [] \<Rightarrow> (False, t)
                      | c # cs \<Rightarrow> if c = CHR ''-'' then (True, cs)
                                 else if c = CHR ''+'' then (False, cs)
                                 else (False, t))
     in if lower t1 = ''inf'' \<or> lower t1 = ''infinity'' then Some (if neg then NegInf else PosInf)
        else if lower t1 = ''nan'' then Some NaN
        else (let m = (case scan_digitpart t1 of
                         Some (ip, r1) \<Rightarrow>
                           (case r1 of
                              [] \<Rightarrow> py_mantissa ip [] r1
                            | c # r2 \<Rightarrow>
                                if c = CHR ''.''
                                then (case scan_digitpart r2 of
                                        Some (fp, r3) \<Rightarrow> py_mantissa ip fp r3
                                      | None \<Rightarrow> py_mantissa ip [] r2)
                                else py_mantissa ip [] r1)
                       | None \<Rightarrow>
                           (case t1 of
                              [] \<Rightarrow> None
                            | c # r2 \<Rightarrow>
                                if c = CHR ''.''
                                then (case scan_digitpart r2 of
                                        Some (fp, r3) \<Rightarrow> py_mantissa [] fp r3
                                      | None \<Rightarrow> None)
                                else None))
              in case m of None \<Rightarrow> None
                 | Some x \<Rightarrow> Some (to_double (if neg then - x else x))))"

text \<open>\<open>float(val)\<close> on a decoded JSON value other than \<open>None\<close>.\<close>

definition py_float_of :: "json \<Rightarrow> py_error + py_float" where
  "py_float_of val =
    (case val of
       JBool b \<Rightarrow> Inr (Finite (if b then 1 else 0))
     | JInt i \<Rightarrow> if overflows (real_of_int i) then Inl OverflowError
                else Inr (Finite (real_of_int i))
     | JFloat x \<Rightarrow> Inr x
     | JStr s \<Rightarrow> (case float_of_string s of None \<Rightarrow> Inl ValueError | Some x \<Rightarrow> Inr x)
     | _ \<Rightarrow> Inl TypeError)"

text \<open>
  A decoded object keeps the last value of a repeated key. \<open>field in data\<close> is key
  membership on a dict, element membership on a list, substring search on a string, and a
  \<open>TypeError\<close> on every other value; \<open>data[field]\<close> with a string index is defined on a
  dict only.
\<close>

definition obj_get :: "(string \<times> json) list \<Rightarrow> string \<Rightarrow> json option" where
  "obj_get kvs k = map_of (rev kvs) k"

definition py_contains :: "json \<Rightarrow> string \<Rightarrow> py_error + bool" where
  "py_contains data field =
    (case data of
       JObj kvs \<Rightarrow> Inr (obj_get kvs field \<noteq> None)
     | JArr xs \<Rightarrow> Inr (JStr field \<in> set xs)
     | JStr s \<Rightarrow> Inr (str_in field s)
     | _ \<Rightarrow> Inl TypeError)"

definition py_getitem :: "json \<Rightarrow> string \<Rightarrow> py_error + json" where
  "py_getitem data field =
    (case data of
       JObj kvs \<Rightarrow> (case obj_get kvs field of None \<Rightarrow> Inl KeyError | Some v \<Rightarrow> Inr v)
     | _ \<Rightarrow> Inl TypeError)"

subsection \<open>The scorer\<close>

definition SCORE_FIELDS :: "string list" where
  "SCORE_FIELDS = [''clarity'', ''tradeoffs'', ''adaptability'', ''failure_awareness'', ''dsa_predict'']"

type_synonym score_dict = "(string \<times> py_float option) list"

text \<open>\<open>{field: None for field in SCORE_FIELDS}\<close> and \<open>scores[field] = v\<close> on an existing key.\<close>

definition null_scores :: score_dict where
  "null_scores = map (\<lambda>field. (field, None)) SCORE_FIELDS"

definition dict_set :: "score_dict \<Rightarrow> string \<Rightarrow> py_float option \<Rightarrow> score_dict" where
  "dict_set d k v = map (\<lambda>(k', v'). if k' = k then (k', v) else (k', v')) d"

text \<open>
  \<open>_extract_json_block\<close>. The first pattern, \<open>\{[^{}]*"clarity"[^{}]*\}\<close>, matches at an
  opening brace whose following brace-free text contains \<open>"clarity"\<close> and is closed by
  \<open>}\<close>; the second, \<open>\{[\s\S]*?\}\<close>, matches from an opening brace to the next closing
  brace. \<open>re.search\<close> returns the leftmost match.
\<close>

definition not_brace :: "char \<Rightarrow> bool" where
  "not_brace c = (c \<noteq> CHR ''{'' \<and> c \<noteq> CHR ''}'')"

definition quoted_clarity :: string where
  "quoted_clarity = CHR 0x22 # ''clarity'' @ [CHR 0x22]"

fun search_clarity_block :: "string \<Rightarrow> string option" where
  "search_clarity_block [] = None"
| "search_clarity_block (c # cs) =
     (if c = CHR ''{''
         \<and> (case dropWhile not_brace cs of [] \<Rightarrow> False | d # r \<Rightarrow> d = CHR ''}'')
         \<and> str_in quoted_clarity (takeWhile not_brace cs)
      then Some (c # takeWhile not_brace cs @ [CHR ''}''])
      else search_clarity_block cs)"

fun search_any_block :: "string \<Rightarrow> string option" where
  "search_any_block [] = None"
| "search_any_block (c # cs) =
     (if c = CHR ''{'' \<and> CHR ''}'' \<in> set cs
      then Some (c # takeWhile (\<lambda>d. d \<noteq> CHR ''}'') cs @ [CHR ''}''])
      else search_any_block cs)"

definition extract_json_block :: "string \<Rightarrow> string option" where
  "extract_json_block text =
    (case search_clarity_block text of
       Some block \<Rightarrow> Some block
     | None \<Rightarrow> search_any_block text)"

text \<open>
  The loop \<open>for field in SCORE_FIELDS\<close>, shared by both strategies. It updates the
  dictionary in place, so an exception leaves the entries written so far: the error case
  carries the dictionary as it is at the moment of the exception.
\<close>

fun fill_scores :: "json \<Rightarrow> string list \<Rightarrow> score_dict \<Rightarrow> (py_error \<times> score_dict) + score_dict" where
  "fill_scores data [] sc = Inr sc"
| "fill_scores data (field # rest) sc =
     (case py_contains data field of
        Inl e \<Rightarrow> Inl (e, sc)
      | Inr present \<Rightarrow>
          if \<not> present then fill_scores data rest sc
          else (case py_getitem data field of
                  Inl e \<Rightarrow> Inl (e, sc)
                | Inr val \<Rightarrow>
                    if val = JNull then fill_scores data rest sc
                    else (case py_float_of val of
                            Inl e \<Rightarrow> Inl (e, sc)
                          | Inr x \<Rightarrow> fill_scores data rest (dict_set sc field (Some x)))))"

text \<open>One \<open>try\<close> body: decode, then fill.\<close>

definition try_parse :: "string \<Rightarrow> score_dict \<Rightarrow> (py_error \<times> score_dict) + score_dict" where
  "try_parse text sc =
    (case json_loads text of
       None \<Rightarrow> Inl (JSONDecodeError, sc)
     | Some data \<Rightarrow> fill_scores data SCORE_FIELDS sc)"

text \<open>\<open>except (json.JSONDecodeError, ValueError)\<close>.\<close>

definition caught :: "py_error \<Rightarrow> bool" where
  "caught e = (e = JSONDecodeError \<or> e = ValueError)"

text \<open>\<open>_parse_scores\<close>: \<open>Inl\<close> is an exception that leaves the function.\<close>

definition parse_scores :: "string \<Rightarrow> py_error + score_dict" where
  "parse_scores content =
    (case try_parse (strip content) null_scores of
       Inr sc \<Rightarrow> Inr sc
     | Inl (e, sc1) \<Rightarrow>
         if \<not> caught e then Inl e
         else (case extract_json_block content of
                 None \<Rightarrow> Inr sc1
               | Some json_block \<Rightarrow>
                   (case try_parse json_block sc1 of
                      Inr sc \<Rightarrow> Inr sc
                    | Inl (e2, sc2) \<Rightarrow> if \<not> caught e2 then Inl e2 else Inr sc2)))"

section \<open>Evaluator: persistence, aggregation and the endpoint\<close>

subsection \<open>Database\<close>

text \<open>
  The three tables the evaluator touches. \<open>FLOAT\<close> columns hold a \<open>py_float\<close> or
  \<open>NULL\<close>; a timestamp is a number; the generated \<open>id\<close> and \<open>created_at\<close> columns are
  not read by any statement and are left out. \<open>user_state\<close> has \<open>user_id\<close> as its
  primary key, so it is a map from user ids to rows.
\<close>

type_synonym timestamp = int

record interaction_row =
  ir_user_id :: string
  ir_module :: string
  ir_step_type :: string
  ir_question :: string
  ir_user_answer :: string

record score_row =
  sr_user_id :: string
  sr_module :: string
  sr_clarity :: "py_float option"
  sr_tradeoffs :: "py_float option"
  sr_adaptability :: "py_float option"
  sr_failure_awareness :: "py_float option"
  sr_dsa_predict :: "py_float option"

record user_state_row =
  us_clarity_avg :: "py_float option"
  us_tradeoff_avg :: "py_float option"
  us_adaptability_avg :: "py_float option"
  us_failure_awareness_avg :: "py_float option"
  us_dsa_predict_skill :: "py_float option"
  us_next_module :: "string option"
  us_last_update :: "timestamp option"

record database =
  interactions :: "interaction_row list"
  scores_table :: "score_row list"
  user_state :: "string \<rightharpoonup> user_state_row"

definition empty_database :: database where
  "empty_database = \<lparr> interactions = [], scores_table = [], user_state = Map.empty \<rparr>"

text \<open>
  Modelled from the spec: the table definitions are not among the sources. The spec gives
  1.0 as the default of every skill column of \<open>user_state\<close> and no default for
  \<open>next_module\<close> and \<open>last_update\<close>. The functions below take the default row as a
  parameter; this is the row the spec describes.
\<close>

definition spec_default_row :: user_state_row where
  "spec_default_row = \<lparr> us_clarity_avg = Some (Finite 1), us_tradeoff_avg = Some (Finite 1),
     us_adaptability_avg = Some (Finite 1), us_failure_awareness_avg = Some (Finite 1),
     us_dsa_predict_skill = Some (Finite 1), us_next_module = None, us_last_update = None \<rparr>"

text \<open>
  Every database call may raise (pool exhausted, connection lost, statement rejected).
  The outcome of each call is an input of the model.
\<close>

datatype outcome = Succeeds | Raises

subsection \<open>SQL of the aggregator (backend/evaluator/aggregator.py)\<close>

text \<open>Addition and division of \<open>FLOAT\<close> values, with the special values of IEEE arithmetic.\<close>

fun pf_add :: "py_float \<Rightarrow> py_float \<Rightarrow> py_float" where
  "pf_add (Finite a) (Finite b) = Finite (a + b)"
| "pf_add NaN y = NaN"
| "pf_add x NaN = NaN"
| "pf_add PosInf NegInf = NaN"
| "pf_add NegInf PosInf = NaN"
| "pf_add PosInf y = PosInf"
| "pf_add x PosInf = PosInf"
| "pf_add NegInf y = NegInf"
| "pf_add x NegInf = NegInf"

fun pf_div_count :: "py_float \<Rightarrow> nat \<Rightarrow> py_float" where
  "pf_div_count (Finite a) n = Finite (a / real n)"
| "pf_div_count x n = x"

text \<open>\<open>AVG(col)\<close> over the rows of a group: \<open>NULL\<close> entries are skipped, and the result is
  \<open>NULL\<close> when nothing is left.\<close>

definition non_null :: "'a option list \<Rightarrow> 'a list" where
  "non_null xs = map the (filter (\<lambda>x. x \<noteq> None) xs)"

definition sql_avg :: "py_float option list \<Rightarrow> py_float option" where
  "sql_avg col =
    (let vals = non_null col
     in if vals = [] then None
        else Some (pf_div_count (foldl pf_add (Finite 0) vals) (length vals)))"

definition coalesce :: "'a option \<Rightarrow> 'a option \<Rightarrow> 'a option" where
  "coalesce a b = (case a of Some x \<Rightarrow> Some x | None \<Rightarrow> b)"

text \<open>\<open>INSERT INTO user_state (user_id) VALUES ($1) ON CONFLICT (user_id) DO NOTHING\<close>.\<close>

definition sql_ensure_user_state :: "user_state_row \<Rightarrow> string \<Rightarrow> database \<Rightarrow> database" where
  "sql_ensure_user_state dflt uid db =
    (case user_state db uid of
       Some row \<Rightarrow> db
     | None \<Rightarrow> db\<lparr> user_state := (user_state db)(uid \<mapsto> dflt) \<rparr>)"

text \<open>
  The \<open>UPDATE ... FROM (SELECT ... GROUP BY user_id) sub WHERE us.user_id = sub.user_id\<close>:
  the subquery has one row when the user has score rows and none otherwise, and in the
  latter case no row of \<open>user_state\<close> is updated.
\<close>

definition sql_update_aggregates :: "timestamp \<Rightarrow> string \<Rightarrow> database \<Rightarrow> database" where
  "sql_update_aggregates now uid db =
    (let rows = filter (\<lambda>r. sr_user_id r = uid) (scores_table db)
     in if rows = [] then db
        else (case user_state db uid of
                None \<Rightarrow> db
              | Some us \<Rightarrow>
                  db\<lparr> user_state := (user_state db)(uid \<mapsto>
                    us\<lparr> us_clarity_avg := coalesce (sql_avg (map sr_clarity rows)) (us_clarity_avg us),
                        us_tradeoff_avg := coalesce (sql_avg (map sr_tradeoffs rows)) (us_tradeoff_avg us),
                        us_adaptability_avg :=
                          coalesce (sql_avg (map sr_adaptability rows)) (us_adaptability_avg us),
                        us_failure_awareness_avg :=
                          coalesce (sql_avg (map sr_failure_awareness rows)) (us_failure_awareness_avg us),
                        us_dsa_predict_skill :=
                          coalesce (sql_avg (map sr_dsa_predict rows)) (us_dsa_predict_skill us),
                        us_last_update := Some now \<rparr>) \<rparr>))"

text \<open>
  \<open>update_user_state\<close>. The outcomes of \<open>pool.acquire()\<close> and of the two statements are
  inputs. The statements run outside a transaction, so a failure of the second keeps the
  effect of the first. The \<open>try\<close> body yields the database at the moment of an exception
  or at normal completion; \<open>except Exception\<close> turns every exception into \<open>False\<close>.
\<close>

record aggregator_outcomes =
  agg_acquire :: outcome
  agg_insert :: outcome
  agg_update :: outcome

definition no_faults :: aggregator_outcomes where
  "no_faults = \<lparr> agg_acquire = Succeeds, agg_insert = Succeeds, agg_update = Succeeds \<rparr>"

definition update_user_state_body ::
  "user_state_row \<Rightarrow> aggregator_outcomes \<Rightarrow> timestamp \<Rightarrow> string \<Rightarrow> database
     \<Rightarrow> (py_error \<times> database) + database" where
  "update_user_state_body dflt oc now uid db =
    (if agg_acquire oc = Raises then Inl (DatabaseError, db)
     else if agg_insert oc = Raises then Inl (DatabaseError, db)
     else (let db1 = sql_ensure_user_state dflt uid db
           in if agg_update oc = Raises then Inl (DatabaseError, db1)
              else Inr (sql_update_aggregates now uid db1)))"

definition update_user_state ::
  "user_state_row \<Rightarrow> aggregator_outcomes \<Rightarrow> timestamp \<Rightarrow> string \<Rightarrow> database
     \<Rightarrow> (py_error + bool) \<times> database" where
  "update_user_state dflt oc now uid db =
    (case update_user_state_body dflt oc now uid db of
       Inr db' \<Rightarrow> (Inr True, db')
     | Inl (e, db') \<Rightarrow> (Inr False, db'))"

text \<open>A run of the aggregator in which no database call fails.\<close>

definition aggregate :: "user_state_row \<Rightarrow> timestamp \<Rightarrow> string \<Rightarrow> database \<Rightarrow> database" where
  "aggregate dflt now uid db = snd (update_user_state dflt no_faults now uid db)"

text \<open>The five skill columns of a row of \<open>user_state\<close>.\<close>

definition skill_columns :: "user_state_row \<Rightarrow> py_float option list" where
  "skill_columns us = [us_clarity_avg us, us_tradeoff_avg us, us_adaptability_avg us,
     us_failure_awareness_avg us, us_dsa_predict_skill us]"

definition in_unit_interval :: "py_float option \<Rightarrow> bool" where
  "in_unit_interval v = (case v of Some (Finite x) \<Rightarrow> 0 \<le> x \<and> x \<le> 1 | _ \<Rightarrow> False)"

subsection \<open>The scorer's LLM calls\<close>

text \<open>
  What a provider call can end in: no API key configured, a status other than 200, an
  exception (timeout, malformed body), a \<open>null\<close> content, or a content string.
  \<open>_call_groq\<close> and \<open>_call_openrouter\<close> return \<open>None\<close> in the first four cases.
\<close>

datatype llm_outcome = NoApiKey | StatusNot200 | CallRaises | NullContent | Content string

definition call_llm :: "llm_outcome \<Rightarrow> string option" where
  "call_llm oc = (case oc of Content c \<Rightarrow> Some c | _ \<Rightarrow> None)"

text \<open>\<open>score\<close>: Groq first, OpenRouter as fallback, then \<open>_parse_scores\<close>.\<close>

definition score :: "llm_outcome \<Rightarrow> llm_outcome \<Rightarrow> py_error + score_dict" where
  "score groq openrouter =
    (let content = call_llm groq;
         content = (if content = None then call_llm openrouter else content)
     in case content of
          None \<Rightarrow> Inr null_scores
        | Some c \<Rightarrow> parse_scores c)"

subsection \<open>The endpoint (backend/evaluator/main.py)\<close>

record EvaluationRequest =
  req_user_id :: string
  req_module :: string
  req_question :: string
  req_answer :: string

record EvaluationResponse =
  status :: string

record evaluate_env =
  pool_available :: bool
  interaction_acquire :: outcome
  interaction_insert :: outcome
  groq_outcome :: llm_outcome
  openrouter_outcome :: llm_outcome
  scores_acquire :: outcome
  scores_insert :: outcome
  aggregator :: aggregator_outcomes
  clock :: timestamp
  default_row :: user_state_row

definition save_interaction ::
  "outcome \<Rightarrow> outcome \<Rightarrow> string \<Rightarrow> string \<Rightarrow> string \<Rightarrow> string \<Rightarrow> database
     \<Rightarrow> (py_error + bool) \<times> database" where
  "save_interaction acq ins uid modl question answer db =
    (let body = (if acq = Raises then Inl (DatabaseError, db)
                 else if ins = Raises then Inl (DatabaseError, db)
                 else Inr (db\<lparr> interactions := interactions db @
                      [\<lparr> ir_user_id = uid, ir_module = modl, ir_step_type = ''core'',
                         ir_question = question, ir_user_answer = answer \<rparr>] \<rparr>))
     in case body of
          Inr db' \<Rightarrow> (Inr True, db')
        | Inl (e, db') \<Rightarrow> (Inr False, db'))"

definition save_scores ::
  "outcome \<Rightarrow> outcome \<Rightarrow> string \<Rightarrow> string \<Rightarrow> score_dict \<Rightarrow> database
     \<Rightarrow> (py_error + bool) \<times> database" where
  "save_scores acq ins uid modl sc db =
    (let body = (if acq = Raises then Inl (DatabaseError, db)
                 else if ins = Raises then Inl (DatabaseError, db)
                 else Inr (db\<lparr> scores_table := scores_table db @
                      [\<lparr> sr_user_id = uid, sr_module = modl,
                         sr_clarity = dict_get sc ''clarity'' None,
                         sr_tradeoffs = dict_get sc ''tradeoffs'' None,
                         sr_adaptability = dict_get sc ''adaptability'' None,
                         sr_failure_awareness = dict_get sc ''failure_awareness'' None,
                         sr_dsa_predict = dict_get sc ''dsa_predict'' None \<rparr>] \<rparr>))
     in case body of
          Inr db' \<Rightarrow> (Inr True, db')
        | Inl (e, db') \<Rightarrow> (Inr False, db'))"

text \<open>
  \<open>evaluate\<close>. \<open>Inl\<close> in the first component is an exception that leaves the handler
  (which the framework answers with status 500); \<open>Inr\<close> is the returned body, sent with
  status 200. The calls of the three helpers are not inside a \<open>try\<close>, so an exception of
  theirs would leave the handler; the call of \<open>score\<close> is.
\<close>

definition evaluate ::
  "evaluate_env \<Rightarrow> EvaluationRequest \<Rightarrow> database \<Rightarrow> (py_error + EvaluationResponse) \<times> database" where
  "evaluate env req db =
    (if \<not> pool_available env then (Inr \<lparr> status = ''ok'' \<rparr>, db)
     else
      (case save_interaction (interaction_acquire env) (interaction_insert env)
              (req_user_id req) (req_module req) (req_question req) (req_answer req) db of
         (Inl e, db1) \<Rightarrow> (Inl e, db1)
       | (Inr saved, db1) \<Rightarrow>
          (let sc = (case score (groq_outcome env) (openrouter_outcome env) of
                       Inr s \<Rightarrow> s
                     | Inl e \<Rightarrow> [(''clarity'', None), (''tradeoffs'', None), (''adaptability'', None),
                                 (''failure_awareness'', None), (''dsa_predict'', None)])
           in case save_scores (scores_acquire env) (scores_insert env)
                     (req_user_id req) (req_module req) sc db1 of
                (Inl e, db2) \<Rightarrow> (Inl e, db2)
              | (Inr stored, db2) \<Rightarrow>
                 (case update_user_state (default_row env) (aggregator env) (clock env)
                         (req_user_id req) db2 of
                    (Inl e, db3) \<Rightarrow> (Inl e, db3)
                  | (Inr updated, db3) \<Rightarrow> (Inr \<lparr> status = ''ok'' \<rparr>, db3)))))"

subsection \<open>Concrete inputs used below\<close>

text \<open>One stored evaluation of user \<open>u1\<close> whose clarity score is 1.5.\<close>

definition out_of_range_scores :: database where
  "out_of_range_scores = empty_database\<lparr> scores_table :=
     [\<lparr> sr_user_id = ''u1'', sr_module = ''dsa_practice'', sr_clarity = Some (Finite 1.5),
        sr_tradeoffs = None, sr_adaptability = None, sr_failure_awareness = None,
        sr_dsa_predict = None \<rparr>] \<rparr>"

text \<open>One stored evaluation of user \<open>u1\<close> with clarity 0.5.\<close>

definition one_evaluation :: database where
  "one_evaluation = empty_database\<lparr> scores_table :=
     [\<lparr> sr_user_id = ''u1'', sr_module = ''dsa_practice'', sr_clarity = Some (Finite 0.5),
        sr_tradeoffs = None, sr_adaptability = None, sr_failure_awareness = None,
        sr_dsa_predict = None \<rparr>] \<rparr>"

text \<open>
  For stating what the parser returns on a well-formed reply: an entry of the decoded
  object that is absent, \<open>null\<close> or a JSON number that \<open>float()\<close> accepts, and the float
  it stands for.
\<close>

definition absent_null_or_number :: "json option \<Rightarrow> bool" where
  "absent_null_or_number e =
    (case e of None \<Rightarrow> True | Some JNull \<Rightarrow> True
     | Some (JInt i) \<Rightarrow> \<not> overflows (real_of_int i)
     | Some (JFloat x) \<Rightarrow> True | _ \<Rightarrow> False)"

definition number_value :: "json option \<Rightarrow> py_float option" where
  "number_value e =
    (case e of Some (JInt i) \<Rightarrow> Some (Finite (real_of_int i)) | Some (JFloat x) \<Rightarrow> Some x
     | _ \<Rightarrow> None)"

text \<open>Two replies of the model: a bare number, and an object with scores outside \<open>[0,1]\<close>.\<close>

definition scalar_reply :: string where
  "scalar_reply = ''5''"

definition out_of_range_reply :: string where
  \<open>out_of_range_reply = ''{"clarity": 1.5, "tradeoffs": -2}''\<close>

text \<open>A request of user \<open>u1\<close>, and an environment in which every call succeeds and the
  first provider answers with the out-of-range reply.\<close>

definition request_u1 :: EvaluationRequest where
  "request_u1 = \<lparr> req_user_id = ''u1'', req_module = ''dsa_practice'',
     req_question = ''Why a heap?'', req_answer = ''Because.'' \<rparr>"

definition healthy_env :: evaluate_env where
  "healthy_env = \<lparr> pool_available = True, interaction_acquire = Succeeds,
     interaction_insert = Succeeds, groq_outcome = Content out_of_range_reply,
     openrouter_outcome = NoApiKey, scores_acquire = Succeeds, scores_insert = Succeeds,
     aggregator = no_faults, clock = 10, default_row = spec_default_row \<rparr>"

section \<open>Properties of the circuit breaker\<close>

lemma run_cb_append: "run_cb (xs @ ys) cb = run_cb ys (run_cb xs cb)"
  by (induction xs arbitrary: cb) simp_all

lemma is_available_snd: "snd (is_available t cb) = snd (state_read t cb)"
  by (simp add: is_available_def Let_def split: prod.splits)

lemma apply_cb_op_config:
  "failure_threshold (apply_cb_op x cb) = failure_threshold cb"
  "recovery_timeout_s (apply_cb_op x cb) = recovery_timeout_s cb"
  "half_open_max_calls (apply_cb_op x cb) = half_open_max_calls cb"
  by (cases x; simp add: record_success_def record_failure_def state_read_def
      is_available_snd reset_def transition_def Let_def)+

lemma run_cb_config:
  "failure_threshold (run_cb xs cb) = failure_threshold cb"
  "recovery_timeout_s (run_cb xs cb) = recovery_timeout_s cb"
  "half_open_max_calls (run_cb xs cb) = half_open_max_calls cb"
  by (induction xs arbitrary: cb; simp add: apply_cb_op_config)+

text \<open>A \<open>call\<close> acts on the breaker as a history of the other methods does.\<close>

lemma call_as_history:
  "snd (call t1 t2 ok cb) =
    (if fst (is_available t1 cb)
     then run_cb [IsAvailable t1, if ok then RecordSuccess t2 else RecordFailure t2] cb
     else (run_cb [IsAvailable t1] cb)\<lparr> cb_stats := (cb_stats (run_cb [IsAvailable t1] cb))
            \<lparr> total_rejections := total_rejections (cb_stats (run_cb [IsAvailable t1] cb)) + 1 \<rparr> \<rparr>)"
  by (cases "is_available t1 cb") (simp add: call_def)

subsection \<open>State and failure count\<close>

lemma last_failure_clock_snoc:
  "last_failure_clock (xs @ [x]) = (if is_failure x then Some (op_clock x) else last_failure_clock xs)"
  by (simp add: last_failure_clock_def)

lemma since_last_failure_snoc:
  "since_last_failure (xs @ [x]) = (if is_failure x then [] else since_last_failure xs @ [x])"
  by (simp add: since_last_failure_def)

lemma recovery_read_snoc:
  "recovery_read rt (xs @ [x]) =
    (if is_failure x then False
     else recovery_read rt xs \<or>
          (case last_failure_clock xs of
             None \<Rightarrow> False
           | Some tf \<Rightarrow> tf \<noteq> 0 \<and> reads_state x \<and> op_clock x - tf \<ge> real_of_int rt))"
  by (auto simp: recovery_read_def last_failure_clock_snoc since_last_failure_snoc
      split: option.splits)

lemma threshold_inv_step:
  assumes thr: "0 < failure_threshold cb" and inv: "threshold_inv ops cb"
  shows "threshold_inv (ops @ [x]) (apply_cb_op x cb)"
proof (cases x)
  case (RecordSuccess t)
  with thr inv show ?thesis
    by (auto simp: threshold_inv_def record_success_def transition_def Let_def
        last_failure_clock_snoc)
next
  case (RecordFailure t)
  with thr inv show ?thesis
    by (auto simp: threshold_inv_def record_failure_def transition_def Let_def
        last_failure_clock_snoc recovery_read_snoc)
next
  case (ReadState t)
  with thr inv show ?thesis
    by (auto simp: threshold_inv_def state_read_def transition_def truthy_time_def Let_def
        last_failure_clock_snoc recovery_read_snoc split: option.splits if_splits)
next
  case (IsAvailable t)
  with thr inv show ?thesis
    by (auto simp: threshold_inv_def is_available_snd state_read_def transition_def
        truthy_time_def Let_def last_failure_clock_snoc recovery_read_snoc
        split: option.splits if_splits)
next
  case (Reset t)
  with thr inv show ?thesis
    by (auto simp: threshold_inv_def reset_def transition_def Let_def last_failure_clock_snoc)
qed

lemma threshold_inv_run:
  assumes "0 < failure_threshold cb0" and "threshold_inv [] cb0"
  shows "threshold_inv ops (run_cb ops cb0)"
proof (induction ops rule: rev_induct)
  case Nil
  with assms show ?case by simp
next
  case (snoc x xs)
  have "0 < failure_threshold (run_cb xs cb0)" using assms(1) by (simp add: run_cb_config)
  from threshold_inv_step [OF this snoc.IH, of x] show ?case by (simp add: run_cb_append)
qed

text \<open>
  Claim C3, as it is written, fails in two ways. With the default tunables (5, 60, 2),
  five recorded failures open the breaker and a read of \<open>state\<close> sixty seconds later
  moves it to \<open>HALF_OPEN\<close> while \<open>consecutive_failures\<close> is still 5; no \<open>reset()\<close> occurs
  in the history. And a breaker created with \<open>failure_threshold = 0\<close> is \<open>CLOSED\<close> with
  \<open>consecutive_failures = 0\<close>, which is not below its threshold.
\<close>

theorem breaker_threshold_state_counterexample:
  "list_all (\<lambda>x. \<not> is_reset x) five_failures_then_read
   \<and> consecutive_failures (cb_stats (run_cb five_failures_then_read (new_breaker ''course'' 5 60 2)))
       \<ge> failure_threshold (run_cb five_failures_then_read (new_breaker ''course'' 5 60 2))
   \<and> cb_state (run_cb five_failures_then_read (new_breaker ''course'' 5 60 2)) = HALF_OPEN
   \<and> consecutive_failures (cb_stats (new_breaker ''course'' 0 60 2))
       \<ge> failure_threshold (new_breaker ''course'' 0 60 2)
   \<and> cb_state (new_breaker ''course'' 0 60 2) = CLOSED"
  by (simp add: five_failures_then_read_def five_failures_def new_breaker_def new_stats_def
      record_failure_def state_read_def transition_def truthy_time_def Let_def)

text \<open>
  Claim C3, amended: for a breaker created with \<open>failure_threshold \<ge> 1\<close> and every history
  of \<open>record_success\<close>, \<open>record_failure\<close>, \<open>state\<close> and \<open>is_available\<close> reads and
  \<open>reset\<close>, whenever \<open>consecutive_failures \<ge> failure_threshold\<close> the state is
  \<open>HALF_OPEN\<close> if, since the most recent \<open>record_failure\<close>, \<open>state\<close> has been read at
  least \<open>recovery_timeout\<close> after that failure (whose clock reading was not 0.0), and
  \<open>OPEN\<close> otherwise; it is never \<open>CLOSED\<close>.
\<close>

theorem breaker_threshold_state:
  assumes "0 < ft"
  shows "consecutive_failures (cb_stats (run_cb ops (new_breaker n ft rt hm)))
           \<ge> failure_threshold (run_cb ops (new_breaker n ft rt hm))
         \<longrightarrow> cb_state (run_cb ops (new_breaker n ft rt hm))
               = (if recovery_read rt ops then HALF_OPEN else OPEN)"
proof -
  let ?cb0 = "new_breaker n ft rt hm"
  have thr: "0 < failure_threshold ?cb0" using assms by (simp add: new_breaker_def)
  have "threshold_inv [] ?cb0"
    using assms by (simp add: threshold_inv_def new_breaker_def new_stats_def last_failure_clock_def)
  with thr have "threshold_inv ops (run_cb ops ?cb0)" by (rule threshold_inv_run)
  moreover have "recovery_timeout_s (run_cb ops ?cb0) = rt"
    by (simp add: run_cb_config new_breaker_def)
  ultimately show ?thesis by (simp add: threshold_inv_def split: if_splits)
qed

theorem breaker_threshold_state_witness:
  "(0::int) < 5
   \<and> consecutive_failures (cb_stats (run_cb five_failures (new_breaker ''course'' 5 60 2)))
       \<ge> failure_threshold (run_cb five_failures (new_breaker ''course'' 5 60 2))
   \<and> cb_state (run_cb five_failures (new_breaker ''course'' 5 60 2)) = OPEN
   \<and> consecutive_failures (cb_stats (run_cb five_failures_then_read (new_breaker ''course'' 5 60 2)))
       \<ge> failure_threshold (run_cb five_failures_then_read (new_breaker ''course'' 5 60 2))
   \<and> cb_state (run_cb five_failures_then_read (new_breaker ''course'' 5 60 2)) = HALF_OPEN"
proof -
  have h: "(0::int) < 5" by simp
  have a: "consecutive_failures (cb_stats (run_cb five_failures (new_breaker ''course'' 5 60 2)))
       \<ge> failure_threshold (run_cb five_failures (new_breaker ''course'' 5 60 2))"
    by (simp add: five_failures_def new_breaker_def new_stats_def record_failure_def
        transition_def Let_def)
  have b: "consecutive_failures (cb_stats (run_cb five_failures_then_read (new_breaker ''course'' 5 60 2)))
       \<ge> failure_threshold (run_cb five_failures_then_read (new_breaker ''course'' 5 60 2))"
    by (simp add: five_failures_then_read_def five_failures_def new_breaker_def new_stats_def
        record_failure_def state_read_def transition_def truthy_time_def Let_def)
  have r1: "\<not> recovery_read 60 five_failures"
    by (simp add: recovery_read_def last_failure_clock_def since_last_failure_def five_failures_def)
  have r2: "recovery_read 60 five_failures_then_read"
    by (simp add: recovery_read_def last_failure_clock_def since_last_failure_def
        five_failures_then_read_def five_failures_def)
  from breaker_threshold_state [OF h, of five_failures "''course''" 60 2] a r1
  have c: "cb_state (run_cb five_failures (new_breaker ''course'' 5 60 2)) = OPEN" by simp
  from breaker_threshold_state [OF h, of five_failures_then_read "''course''" 60 2] b r2
  have d: "cb_state (run_cb five_failures_then_read (new_breaker ''course'' 5 60 2)) = HALF_OPEN"
    by simp
  from h a b c d show ?thesis by blast
qed

subsection \<open>Availability\<close>

lemma state_read_lazy: "cb_state (snd (state_read now cb)) = lazy_state now cb"
  by (auto simp: state_read_def lazy_state_def transition_def truthy_time_def Let_def
      split: option.splits)

lemma state_read_fst: "fst (state_read now cb) = cb_state (snd (state_read now cb))"
  by (simp add: state_read_def Let_def)

text \<open>The counter field is the count of the current half-open period.\<close>

lemma half_open_calls_step:
  "half_open_calls (apply_cb_op x cb) =
     (if cb_state cb \<noteq> HALF_OPEN \<and> cb_state (apply_cb_op x cb) = HALF_OPEN then 0
      else if cb_state cb = HALF_OPEN \<and> is_success x then half_open_calls cb + 1
      else half_open_calls cb)"
  by (cases x)
     (auto simp: record_success_def record_failure_def state_read_def is_available_snd
        reset_def transition_def Let_def)

lemma half_open_calls_run:
  "half_open_calls (run_cb ops cb) = period_calls ops cb (half_open_calls cb)"
proof (induction ops arbitrary: cb)
  case Nil
  then show ?case by simp
next
  case (Cons x xs)
  show ?case
    using Cons.IH [of "apply_cb_op x cb"] half_open_calls_step [of x cb] by simp
qed

text \<open>
  Claim C9: after every history of a breaker, \<open>is_available\<close> at clock reading \<open>now\<close> is
  true exactly when the state with the lazy transition applied is \<open>CLOSED\<close>, or it is
  \<open>HALF_OPEN\<close> and the number of calls counted in the current half-open period (a period
  that the read itself may just have opened) is below \<open>half_open_max_calls\<close>; and the read
  leaves the breaker in that state.
\<close>

theorem is_available_spec:
  "fst (is_available now (run_cb ops (new_breaker n ft rt hm)))
     = (lazy_state now (run_cb ops (new_breaker n ft rt hm)) = CLOSED
        \<or> (lazy_state now (run_cb ops (new_breaker n ft rt hm)) = HALF_OPEN
           \<and> period_calls (ops @ [IsAvailable now]) (new_breaker n ft rt hm) 0 < hm))
   \<and> cb_state (snd (is_available now (run_cb ops (new_breaker n ft rt hm))))
       = lazy_state now (run_cb ops (new_breaker n ft rt hm))"
proof -
  let ?init = "new_breaker n ft rt hm"
  let ?reached = "run_cb ops ?init"
  let ?after = "snd (state_read now ?reached)"
  have run: "run_cb (ops @ [IsAvailable now]) ?init = ?after"
    by (simp add: run_cb_append is_available_snd)
  have "half_open_calls (run_cb (ops @ [IsAvailable now]) ?init)
      = period_calls (ops @ [IsAvailable now]) ?init (half_open_calls ?init)"
    by (rule half_open_calls_run)
  then have count: "half_open_calls ?after = period_calls (ops @ [IsAvailable now]) ?init 0"
    unfolding run by (simp add: new_breaker_def)
  have "half_open_max_calls ?after = half_open_max_calls ?init"
    using run_cb_config(3) [of "ops @ [IsAvailable now]" ?init] unfolding run .
  then have limit: "half_open_max_calls ?after = hm" by (simp add: new_breaker_def)
  have st: "fst (state_read now ?reached) = lazy_state now ?reached"
    by (simp add: state_read_fst state_read_lazy)
  have av: "is_available now ?reached =
      (if fst (state_read now ?reached) = CLOSED then (True, ?after)
       else if fst (state_read now ?reached) = HALF_OPEN
       then (half_open_calls ?after < half_open_max_calls ?after, ?after)
       else (False, ?after))"
    by (simp add: is_available_def Let_def split: prod.splits)
  show ?thesis
    unfolding av st count limit using state_read_lazy [of now ?reached] by auto
qed

text \<open>
  Instances with the default tunables: unavailable while \<open>OPEN\<close>; available once the
  recovery timeout has passed, the read opening a half-open period with no call counted;
  available again after two successful probes have closed the breaker. With
  \<open>half_open_max_calls = 0\<close> the half-open breaker is not available.
\<close>

lemma is_available_examples:
  "\<not> fst (is_available 10 (run_cb five_failures (new_breaker ''course'' 5 60 2)))
   \<and> lazy_state 10 (run_cb five_failures (new_breaker ''course'' 5 60 2)) = OPEN
   \<and> fst (is_available 65 (run_cb five_failures (new_breaker ''course'' 5 60 2)))
   \<and> lazy_state 65 (run_cb five_failures (new_breaker ''course'' 5 60 2)) = HALF_OPEN
   \<and> period_calls (five_failures @ [IsAvailable 65]) (new_breaker ''course'' 5 60 2) 0 = 0
   \<and> fst (is_available 68 (run_cb recovery_history (new_breaker ''course'' 5 60 2)))
   \<and> lazy_state 68 (run_cb recovery_history (new_breaker ''course'' 5 60 2)) = CLOSED
   \<and> \<not> fst (is_available 66 (run_cb five_failures_then_read (new_breaker ''course'' 5 60 0)))
   \<and> lazy_state 66 (run_cb five_failures_then_read (new_breaker ''course'' 5 60 0)) = HALF_OPEN"
  by (simp add: recovery_history_def five_failures_then_read_def five_failures_def
      new_breaker_def new_stats_def is_available_def lazy_state_def record_failure_def
      record_success_def state_read_def transition_def truthy_time_def Let_def)

section \<open>Properties of the decision engine\<close>

subsection \<open>Recency signal\<close>

lemma list_index_takeWhile:
  "list_index xs x = (if x \<in> set xs then Some (length (takeWhile (\<lambda>y. y \<noteq> x) xs)) else None)"
  by (induction xs) auto

text \<open>
  Claim C4, as it is written, fails: for a user with an empty \<open>recent_modules\<close> the
  module does not occur in the list, yet the signal is 0.5 (the "no history" guard),
  not 0.8.
\<close>

theorem recency_score_counterexample:
  "''dsa_practice'' \<notin> set (recent_modules fresh_user) \<and>
   calc_recency_score ''dsa_practice'' fresh_user \<noteq> 0.8"
  by (simp add: calc_recency_score_def fresh_user_def)

text \<open>
  Claim C4, amended: the recency signal is 0.5 when \<open>recent_modules\<close> is empty, 0.8 when
  it is non-empty and the module does not occur in it, and otherwise
  \<open>min(1, index / length)\<close>, where the index is the position of the first (most recent)
  occurrence, counted from 0.
\<close>

theorem recency_score_cases:
  "calc_recency_score mod_name state =
    (if recent_modules state = [] then 0.5
     else if mod_name \<notin> set (recent_modules state) then 0.8
     else min 1 (real (length (takeWhile (\<lambda>m. m \<noteq> mod_name) (recent_modules state)))
                 / real (length (recent_modules state))))"
proof -
  have "max (length (recent_modules state)) 1 = length (recent_modules state)"
    if "recent_modules state \<noteq> []"
    using that by (cases "recent_modules state") simp_all
  then show ?thesis
    by (simp add: calc_recency_score_def list_index_takeWhile)
qed

subsection \<open>Total score\<close>

text \<open>The two signals that read the memory context return a value unless they meet a
  field that is \<open>None\<close>.\<close>

lemma count_events_returns:
  "list_all (\<lambda>e. case e of Event et em \<Rightarrow> et \<noteq> Null | NonDictEvent \<Rightarrow> True) es
     \<Longrightarrow> \<exists>r. count_events es acc = Inr r"
proof (induction es acc rule: count_events.induct)
  case (1 acc)
  then show ?case by simp
next
  case (2 es acc)
  then show ?case by simp
next
  case (3 et em es w s)
  from 3(4) obtain evt_type where g: "field_get et [] = Some evt_type"
    by (cases et) (simp_all add: field_get_def)
  from 3(4) have rest: "list_all (\<lambda>e. case e of Event et em \<Rightarrow> et \<noteq> Null | NonDictEvent \<Rightarrow> True) es"
    by simp
  show ?case
    using g 3(1) [OF g _ rest] 3(2) [OF g _ _ rest] 3(3) [OF g _ _ rest]
    by (cases "str_in ''weakness'' evt_type"; cases "str_in ''strength'' evt_type") simp_all
qed

lemma calc_rate_of_change_returns:
  assumes "memory_well_typed mem"
  shows "\<exists>r. calc_rate_of_change mod_def state mem = Inr r"
proof -
  from assms obtain w s where c: "count_events (recent_events mem) (0, 0) = Inr (w, s)"
    using count_events_returns [of "recent_events mem" "(0, 0)"]
    by (auto simp: memory_well_typed_def)
  have "calc_rate_of_change mod_def state mem =
      Inr (if \<not> stats_nonempty mem \<or> recent_events mem = [] \<or> w + s = 0 then 0.5
           else real_of_int w / real_of_int (w + s))"
    by (simp add: calc_rate_of_change_def c Let_def)
  then show ?thesis by (rule exI)
qed

lemma pattern_skill_hits_returns:
  "conf \<noteq> None \<Longrightarrow> \<exists>r. pattern_skill_hits desc conf skills acc = Inr r"
  by (induction skills arbitrary: acc) (auto simp: Let_def)

lemma relevant_patterns_returns:
  "list_all (\<lambda>p. case p of Pattern d pt c \<Rightarrow> c \<noteq> Null | NonDictPattern \<Rightarrow> True) ps
     \<Longrightarrow> \<exists>r. relevant_patterns skills ps acc = Inr r"
proof (induction skills ps acc rule: relevant_patterns.induct)
  case (1 skills acc)
  then show ?case by simp
next
  case (2 skills ps acc)
  then show ?case by simp
next
  case (3 skills d pt c ps acc)
  from 3(2) have c: "field_get c 0.5 \<noteq> None" by (cases c) (simp_all add: field_get_def)
  from pattern_skill_hits_returns [OF c] obtain acc' where
    h: "pattern_skill_hits (lower (case field_get d [] of None \<Rightarrow> [] | Some x \<Rightarrow> x))
          (field_get c 0.5) skills acc = Inr acc'"
    by blast
  from 3(2) have rest: "list_all (\<lambda>p. case p of Pattern d pt c \<Rightarrow> c \<noteq> Null | NonDictPattern \<Rightarrow> True) ps"
    by simp
  from 3(1) [OF refl refl h rest] h show ?case by (simp add: Let_def)
qed

lemma calc_pattern_signal_returns:
  assumes "memory_well_typed mem"
  shows "\<exists>r. calc_pattern_signal mod_name mem = Inr r"
proof (cases "patterns mem = []")
  case True
  then have "calc_pattern_signal mod_name mem = Inr 0.5" by (simp add: calc_pattern_signal_def)
  then show ?thesis by (rule exI)
next
  case ne: False
  show ?thesis
  proof (cases "map_of MODULES mod_name")
    case None
    with ne have "calc_pattern_signal mod_name mem = Inr 0.3"
      by (simp add: calc_pattern_signal_def)
    then show ?thesis by (rule exI)
  next
    case (Some mod_def)
    show ?thesis
    proof (cases "remediation_skills mod_def = []")
      case True
      with ne Some have "calc_pattern_signal mod_name mem = Inr 0.3"
        by (simp add: calc_pattern_signal_def)
      then show ?thesis by (rule exI)
    next
      case False
      obtain r where "relevant_patterns (remediation_skills mod_def) (patterns mem) 0 = Inr r"
        using assms relevant_patterns_returns [of "patterns mem" "remediation_skills mod_def" 0]
        by (auto simp: memory_well_typed_def)
      with ne Some False have "calc_pattern_signal mod_name mem = Inr (min 1.0 r)"
        by (simp add: calc_pattern_signal_def)
      then show ?thesis by (rule exI)
    qed
  qed
qed

lemma score_candidate_returns_iff:
  assumes "map_of MODULES mod_name = Some mod_def"
  shows "(\<exists>ms. score_candidate cfg mod_name state mem service_health = Inr ms)
     = (\<exists>s2 s5. calc_rate_of_change mod_def state mem = Inr s2
                \<and> calc_pattern_signal mod_name mem = Inr s5)"
  using assms
  by (cases "calc_rate_of_change mod_def state mem"; cases "calc_pattern_signal mod_name mem")
     (simp_all add: score_candidate_def Let_def)

text \<open>
  Claim C6: under the default configuration, for a module of the registry, every score
  that \<open>_score_candidate\<close> returns has in each signal field the value of its signal
  function, and as total the module's base weight times
  \<open>0.40 s1 + 0.15 s2 + 0.15 s3 + 0.15 s4 + 0.15 s5 + 0.05 diversity - cooldown\<close>. It
  returns a score exactly when the two signals that read the memory context return a
  value, which they do on every memory context without a \<open>None\<close> field.
\<close>

theorem total_score_formula:
  assumes "map_of MODULES mod_name = Some mod_def"
  shows "(\<forall>ms. score_candidate default_config mod_name state mem service_health = Inr ms \<longrightarrow>
       module ms = mod_name
     \<and> weakness_severity_score ms = calc_weakness_severity default_config mod_def state
     \<and> calc_rate_of_change mod_def state mem = Inr (rate_of_change_score ms)
     \<and> recency_score ms = calc_recency_score mod_name state
     \<and> goal_alignment_score ms = calc_goal_alignment mod_def state
     \<and> calc_pattern_signal mod_name mem = Inr (pattern_score ms)
     \<and> cooldown_penalty ms = calc_cooldown_penalty default_config mod_name state mod_def
     \<and> diversity_bonus ms = calc_diversity_bonus mod_name state
     \<and> total_score ms = weight mod_def *
          (0.40 * weakness_severity_score ms + 0.15 * rate_of_change_score ms
           + 0.15 * recency_score ms + 0.15 * goal_alignment_score ms
           + 0.15 * pattern_score ms + 0.05 * diversity_bonus ms - cooldown_penalty ms))
   \<and> ((\<exists>ms. score_candidate default_config mod_name state mem service_health = Inr ms)
        = (\<exists>s2 s5. calc_rate_of_change mod_def state mem = Inr s2
                   \<and> calc_pattern_signal mod_name mem = Inr s5))
   \<and> (memory_well_typed mem \<longrightarrow>
        (\<exists>ms. score_candidate default_config mod_name state mem service_health = Inr ms))"
proof (intro conjI allI impI)
  fix ms
  assume r: "score_candidate default_config mod_name state mem service_health = Inr ms"
  then obtain s2 s5 where s: "calc_rate_of_change mod_def state mem = Inr s2"
      "calc_pattern_signal mod_name mem = Inr s5"
    using score_candidate_returns_iff [OF assms, of default_config state mem service_health]
    by blast
  from r assms s have ms: "ms = (new_module_score mod_name)
      \<lparr> weakness_severity_score := calc_weakness_severity default_config mod_def state,
        rate_of_change_score := s2,
        recency_score := calc_recency_score mod_name state,
        goal_alignment_score := calc_goal_alignment mod_def state,
        pattern_score := s5,
        cooldown_penalty := calc_cooldown_penalty default_config mod_name state mod_def,
        diversity_bonus := calc_diversity_bonus mod_name state,
        total_score :=
          (calc_weakness_severity default_config mod_def state * 0.40
           + s2 * 0.15 + calc_recency_score mod_name state * 0.15
           + calc_goal_alignment mod_def state * 0.15 + s5 * 0.15
           + calc_diversity_bonus mod_name state * 0.05
           - calc_cooldown_penalty default_config mod_name state mod_def) * weight mod_def \<rparr>"
    by (simp add: score_candidate_def new_module_score_def default_config_def Let_def)
  show "module ms = mod_name" by (simp add: ms new_module_score_def)
  show "weakness_severity_score ms = calc_weakness_severity default_config mod_def state"
    by (simp add: ms)
  show "calc_rate_of_change mod_def state mem = Inr (rate_of_change_score ms)"
    by (simp add: ms s)
  show "recency_score ms = calc_recency_score mod_name state" by (simp add: ms)
  show "goal_alignment_score ms = calc_goal_alignment mod_def state" by (simp add: ms)
  show "calc_pattern_signal mod_name mem = Inr (pattern_score ms)" by (simp add: ms s)
  show "cooldown_penalty ms = calc_cooldown_penalty default_config mod_name state mod_def"
    by (simp add: ms)
  show "diversity_bonus ms = calc_diversity_bonus mod_name state" by (simp add: ms)
  show "total_score ms = weight mod_def *
          (0.40 * weakness_severity_score ms + 0.15 * rate_of_change_score ms
           + 0.15 * recency_score ms + 0.15 * goal_alignment_score ms
           + 0.15 * pattern_score ms + 0.05 * diversity_bonus ms - cooldown_penalty ms)"
    by (simp add: ms algebra_simps)
next
  show "(\<exists>ms. score_candidate default_config mod_name state mem service_health = Inr ms)
        = (\<exists>s2 s5. calc_rate_of_change mod_def state mem = Inr s2
                   \<and> calc_pattern_signal mod_name mem = Inr s5)"
    by (rule score_candidate_returns_iff [OF assms])
next
  assume "memory_well_typed mem"
  then show "\<exists>ms. score_candidate default_config mod_name state mem service_health = Inr ms"
    using score_candidate_returns_iff [OF assms, of default_config state mem service_health]
      calc_rate_of_change_returns [of mem mod_def state] calc_pattern_signal_returns [of mem mod_name]
    by blast
qed

theorem total_score_formula_witness:
  "memory_well_typed empty_memory
   \<and> (\<exists>mod_def ms. map_of MODULES ''dsa_practice'' = Some mod_def
     \<and> score_candidate default_config ''dsa_practice'' repeat_user empty_memory Map.empty = Inr ms
     \<and> total_score ms = weight mod_def *
          (0.40 * weakness_severity_score ms + 0.15 * rate_of_change_score ms
           + 0.15 * recency_score ms + 0.15 * goal_alignment_score ms
           + 0.15 * pattern_score ms + 0.05 * diversity_bonus ms - cooldown_penalty ms))"
proof -
  have wt: "memory_well_typed empty_memory"
    by (simp add: memory_well_typed_def empty_memory_def)
  obtain mod_def where h: "map_of MODULES ''dsa_practice'' = Some mod_def"
    by (simp add: MODULES_def)
  from total_score_formula [OF h, of repeat_user empty_memory Map.empty] wt
  show ?thesis using h by blast
qed

subsection \<open>Ranking, diversity filter and the returned decision\<close>

lemma count_consecutive_takeWhile:
  "count_consecutive l xs c = c + int (length (takeWhile (\<lambda>m. m = l) xs))"
  by (induction xs arbitrary: c) simp_all

lemma takeWhile_ge_iff:
  "n \<le> length (takeWhile (\<lambda>m. m = l) xs) \<longleftrightarrow> take n xs = replicate n l"
proof (induction xs arbitrary: n)
  case Nil
  then show ?case by (cases n) simp_all
next
  case (Cons x xs)
  then show ?case by (cases n) auto
qed

lemma consecutive_three:
  "3 \<le> count_consecutive l xs 0 \<longleftrightarrow> take 3 xs = [l, l, l]"
proof -
  have "3 \<le> count_consecutive l xs 0 \<longleftrightarrow> 3 \<le> length (takeWhile (\<lambda>m. m = l) xs)"
    by (simp add: count_consecutive_takeWhile)
  also have "\<dots> \<longleftrightarrow> take 3 xs = replicate 3 l" by (rule takeWhile_ge_iff)
  also have "replicate 3 l = [l, l, l]" by (simp add: numeral_3_eq_3)
  finally show ?thesis .
qed

lemma sort_scored_sorted:
  "sorted_wrt (\<lambda>a b. total_score a \<ge> total_score b) (sort_scored scored)"
proof -
  have "sorted (map (\<lambda>s. - total_score s) (sort_scored scored))"
    unfolding sort_scored_def by (rule sorted_sort_key)
  then show ?thesis
    by (simp add: sorted_wrt_map)
qed

lemma sort_scored_mset: "mset (sort_scored scored) = mset scored"
  by (simp add: sort_scored_def)

lemma sort_scored_length: "length (sort_scored scored) = length scored"
  by (simp add: sort_scored_def)

lemma sort_scored_set: "set (sort_scored scored) = set scored"
  by (simp add: sort_scored_def)

lemma diversity_filter_pick:
  assumes "ranked \<noteq> []"
  shows "apply_diversity_filter default_config ranked state =
     Inr (if take 3 (recent_modules state)
               = [module (ranked ! 0), module (ranked ! 0), module (ranked ! 0)]
             \<and> length ranked > 1
          then ranked ! 1 else ranked ! 0)"
proof (cases "recent_modules state")
  case Nil
  with assms show ?thesis by (simp add: apply_diversity_filter_def list_get_def)
next
  case (Cons l rest)
  have c3: "count_consecutive l (l # rest) 0 < 3 \<longleftrightarrow> take 3 (l # rest) \<noteq> [l, l, l]"
    using consecutive_three [of l "l # rest"] by linarith
  have neq: "l \<noteq> m \<Longrightarrow> take 3 (l # rest) \<noteq> [m, m, m]" for m by auto
  show ?thesis
    using assms Cons c3 neq [of "module (ranked ! 0)"]
    by (auto simp: apply_diversity_filter_def list_get_def default_config_def Let_def numeral_3_eq_3
        simp del: take_Suc_Cons)
qed

lemma list_get_member: "i < length xs \<Longrightarrow> \<exists>w. list_get xs i = Inr w \<and> w \<in> set xs"
  by (simp add: list_get_def)

lemma diversity_filter_member:
  assumes "xs \<noteq> []"
  shows "\<exists>w. apply_diversity_filter cfg xs state = Inr w \<and> w \<in> set xs"
proof -
  have 0: "\<exists>w. list_get xs 0 = Inr w \<and> w \<in> set xs"
    using assms by (intro list_get_member) simp
  have 1: "length xs > 1 \<Longrightarrow> \<exists>w. list_get xs 1 = Inr w \<and> w \<in> set xs"
    by (rule list_get_member)
  show ?thesis
  proof (cases "recent_modules state")
    case Nil
    with 0 show ?thesis by (simp add: apply_diversity_filter_def)
  next
    case (Cons l rest)
    from 0 obtain f where f: "list_get xs 0 = Inr f" by blast
    show ?thesis
    proof (cases "count_consecutive l (recent_modules state) 0 \<ge> max_consecutive_same_module cfg
                   \<and> module f = l \<and> length xs > 1")
      case True
      then have "apply_diversity_filter cfg xs state = list_get xs 1"
        using Cons f by (simp add: apply_diversity_filter_def Let_def)
      with True 1 show ?thesis by simp
    next
      case False
      then have "apply_diversity_filter cfg xs state = list_get xs 0"
        using Cons f by (auto simp: apply_diversity_filter_def Let_def)
      with 0 show ?thesis by simp
    qed
  qed
qed

lemma score_candidate_module:
  "score_candidate cfg m state mem h = Inr ms \<Longrightarrow> module ms = m"
  by (auto simp: score_candidate_def new_module_score_def Let_def split: option.splits sum.splits)

lemma score_all_Inr:
  "score_all cfg cs state mem h = Inr scs
     \<Longrightarrow> list_all2 (\<lambda>c ms. score_candidate cfg c state mem h = Inr ms) cs scs"
  by (induction cs arbitrary: scs) (auto split: sum.splits)

lemma score_all_modules:
  assumes "score_all cfg cs state mem h = Inr scs"
  shows "map module scs = cs"
proof -
  have "list_all2 (\<lambda>c ms. module ms = c) cs scs"
    using score_all_Inr [OF assms] score_candidate_module
    by (rule list_all2_mono)
  then show ?thesis
    by (induction cs scs rule: list_all2_induct) simp_all
qed

lemma score_all_returns:
  assumes "memory_well_typed mem"
  shows "set cs \<subseteq> fst ` set MODULES \<Longrightarrow> \<exists>scs. score_all cfg cs state mem h = Inr scs"
proof (induction cs)
  case Nil
  then show ?case by simp
next
  case (Cons c cs)
  then obtain scs where scs: "score_all cfg cs state mem h = Inr scs" by auto
  from Cons.prems obtain md where md: "map_of MODULES c = Some md"
    by (metis list.set_intros(1) map_of_eq_None_iff not_Some_eq subsetD)
  obtain ms where "score_candidate cfg c state mem h = Inr ms"
    using score_candidate_returns_iff [OF md, of cfg state mem h]
      calc_rate_of_change_returns [OF assms, of md state] calc_pattern_signal_returns [OF assms, of c]
    by blast
  with scs show ?case by simp
qed

lemma get_candidates_subset: "set (get_candidates state h) \<subseteq> fst ` set MODULES"
  by (auto simp: get_candidates_def)

lemma sorted_wrt_take: "sorted_wrt P xs \<Longrightarrow> sorted_wrt P (take n xs)"
  by (metis append_take_drop_id sorted_wrt_append)

lemma project_studio_registered: "map_of MODULES ''project_studio'' \<noteq> None"
  by (simp add: MODULES_def)

text \<open>What \<open>decide\<close> returns when no candidate is left: the hard-coded fallback.\<close>

lemma decide_fallback:
  assumes "get_candidates state h = []"
  shows "decide cfg state mem h =
     Inr \<lparr> next_module = ''project_studio'', depth = determine_depth cfg state,
           weakness_trigger = None, decision_scores = Some (to_dict (scores state)),
           confidence = 0.5, candidate_scores = [] \<rparr>"
proof -
  obtain md where "map_of MODULES ''project_studio'' = Some md"
    using project_studio_registered by auto
  with assms show ?thesis by (simp add: decide_def Let_def)
qed

text \<open>What \<open>decide\<close> returns otherwise: the decision is built from the ranked scores of
  the candidates and the pick of the diversity filter.\<close>

lemma decide_scored:
  assumes ne: "get_candidates state h \<noteq> []"
    and dec: "decide cfg state mem h = Inr d"
  shows "\<exists>unsorted winner.
     score_all cfg (get_candidates state h) state mem h = Inr unsorted
     \<and> apply_diversity_filter cfg (sort_scored unsorted) state = Inr winner
     \<and> d = \<lparr> next_module = module winner, depth = determine_depth cfg state,
               weakness_trigger = weakest_dimension (scores state) (weakness_threshold cfg),
               decision_scores = Some (to_dict (scores state)),
               confidence = calculate_confidence (sort_scored unsorted),
               candidate_scores = take 5 (sort_scored unsorted) \<rparr>"
proof (cases "score_all cfg (get_candidates state h) state mem h")
  case (Inl e)
  with ne dec show ?thesis by (simp add: decide_def Let_def)
next
  case (Inr unsorted)
  show ?thesis
  proof (cases "apply_diversity_filter cfg (sort_scored unsorted) state")
    case (Inl e)
    with ne dec Inr show ?thesis by (simp add: decide_def Let_def)
  next
    case w: (Inr winner)
    with ne dec Inr have "d = \<lparr> next_module = module winner, depth = determine_depth cfg state,
               weakness_trigger = weakest_dimension (scores state) (weakness_threshold cfg),
               decision_scores = Some (to_dict (scores state)),
               confidence = calculate_confidence (sort_scored unsorted),
               candidate_scores = take 5 (sort_scored unsorted) \<rparr>"
      by (simp add: decide_def Let_def)
    with Inr w show ?thesis by blast
  qed
qed

text \<open>\<open>decide\<close> returns a decision on every memory context without a \<open>None\<close> field.\<close>

lemma decide_returns:
  assumes "memory_well_typed mem"
  shows "\<exists>d. decide cfg state mem h = Inr d"
proof (cases "get_candidates state h = []")
  case True
  then show ?thesis by (simp add: decide_fallback)
next
  case False
  obtain scs where scs: "score_all cfg (get_candidates state h) state mem h = Inr scs"
    using score_all_returns [OF assms get_candidates_subset] by blast
  have "sort_scored scs \<noteq> []"
    using False score_all_modules [OF scs] sort_scored_length [of scs] by auto
  then obtain w where "apply_diversity_filter cfg (sort_scored scs) state = Inr w"
    using diversity_filter_member by blast
  with False scs show ?thesis by (simp add: decide_def Let_def)
qed

lemma decide_depth:
  assumes "decide cfg state mem h = Inr d"
  shows "depth d = determine_depth cfg state"
proof (cases "get_candidates state h = []")
  case True
  with assms show ?thesis by (auto simp: decide_fallback)
next
  case False
  from decide_scored [OF False assms] show ?thesis by auto
qed

lemma decide_trigger:
  assumes "decide cfg state mem h = Inr d"
  shows "weakness_trigger d =
     (if get_candidates state h = [] then None
      else weakest_dimension (scores state) (weakness_threshold cfg))"
proof (cases "get_candidates state h = []")
  case True
  with assms show ?thesis by (auto simp: decide_fallback)
next
  case False
  from decide_scored [OF False assms] False show ?thesis by auto
qed

lemma decide_registry_sorted:
  assumes "decide cfg state mem h = Inr d"
  shows "next_module d \<in> fst ` set MODULES
       \<and> sorted_wrt (\<lambda>a b. total_score a \<ge> total_score b) (candidate_scores d)"
proof (cases "get_candidates state h = []")
  case True
  have reg: "''project_studio'' \<in> fst ` set MODULES"
    using project_studio_registered by (metis map_of_eq_None_iff)
  from assms True have "next_module d = ''project_studio''" "candidate_scores d = []"
    by (auto simp: decide_fallback)
  with reg show ?thesis by simp
next
  case False
  from decide_scored [OF False assms] obtain unsorted winner where
    u: "score_all cfg (get_candidates state h) state mem h = Inr unsorted"
    and w: "apply_diversity_filter cfg (sort_scored unsorted) state = Inr winner"
    and d: "d = \<lparr> next_module = module winner, depth = determine_depth cfg state,
               weakness_trigger = weakest_dimension (scores state) (weakness_threshold cfg),
               decision_scores = Some (to_dict (scores state)),
               confidence = calculate_confidence (sort_scored unsorted),
               candidate_scores = take 5 (sort_scored unsorted) \<rparr>"
    by blast
  have ne: "sort_scored unsorted \<noteq> []"
    using False score_all_modules [OF u] sort_scored_length [of unsorted] by auto
  from diversity_filter_member [OF ne, of cfg state] w have "winner \<in> set (sort_scored unsorted)"
    by auto
  then have "module winner \<in> set (map module unsorted)"
    using sort_scored_set [of unsorted] by simp
  then have "module winner \<in> fst ` set MODULES"
    using score_all_modules [OF u] get_candidates_subset [of state h] by auto
  moreover have "sorted_wrt (\<lambda>a b. total_score a \<ge> total_score b) (take 5 (sort_scored unsorted))"
    by (rule sorted_wrt_take [OF sort_scored_sorted])
  ultimately show ?thesis by (simp add: d)
qed

text \<open>The choice of \<open>decide\<close> under the default configuration, in the words of the claim.\<close>

lemma decide_choice:
  assumes "decide default_config state mem h = Inr d"
  shows "if get_candidates state h = []
     then next_module d = ''project_studio'' \<and> candidate_scores d = []
     else (\<exists>unsorted.
        score_all default_config (get_candidates state h) state mem h = Inr unsorted
        \<and> list_all2 (\<lambda>c ms. score_candidate default_config c state mem h = Inr ms)
              (get_candidates state h) unsorted
        \<and> candidate_scores d = take 5 (sort_scored unsorted)
        \<and> next_module d = module
             (if take 3 (recent_modules state)
                   = [module (sort_scored unsorted ! 0), module (sort_scored unsorted ! 0),
                      module (sort_scored unsorted ! 0)]
                 \<and> length (sort_scored unsorted) > 1
              then sort_scored unsorted ! 1 else sort_scored unsorted ! 0))"
proof (cases "get_candidates state h = []")
  case True
  with assms show ?thesis by (auto simp: decide_fallback)
next
  case False
  from decide_scored [OF False assms] obtain unsorted winner where
    u: "score_all default_config (get_candidates state h) state mem h = Inr unsorted"
    and w: "apply_diversity_filter default_config (sort_scored unsorted) state = Inr winner"
    and d: "d = \<lparr> next_module = module winner, depth = determine_depth default_config state,
               weakness_trigger = weakest_dimension (scores state) (weakness_threshold default_config),
               decision_scores = Some (to_dict (scores state)),
               confidence = calculate_confidence (sort_scored unsorted),
               candidate_scores = take 5 (sort_scored unsorted) \<rparr>"
    by blast
  have ne: "sort_scored unsorted \<noteq> []"
    using False score_all_modules [OF u] sort_scored_length [of unsorted] by auto
  from diversity_filter_pick [OF ne, of state] w
  have win: "winner = (if take 3 (recent_modules state)
                   = [module (sort_scored unsorted ! 0), module (sort_scored unsorted ! 0),
                      module (sort_scored unsorted ! 0)]
                 \<and> length (sort_scored unsorted) > 1
              then sort_scored unsorted ! 1 else sort_scored unsorted ! 0)"
    by simp
  have "next_module d = module winner" "candidate_scores d = take 5 (sort_scored unsorted)"
    by (simp_all add: d)
  with False u score_all_Inr [OF u] win show ?thesis by auto
qed

subsection \<open>Decision depth and weakness trigger\<close>

lemma to_dict_mem:
  "(d, x) \<in> set (to_dict s) \<longleftrightarrow>
     (d = ''clarity_avg'' \<and> clarity_avg s = x) \<or> (d = ''tradeoff_avg'' \<and> tradeoff_avg s = x)
   \<or> (d = ''adaptability_avg'' \<and> adaptability_avg s = x)
   \<or> (d = ''failure_awareness_avg'' \<and> failure_awareness_avg s = x)
   \<or> (d = ''dsa_predict_skill'' \<and> dsa_predict_skill s = x)"
  unfolding to_dict_def
  by (simp only: list.set insert_iff empty_iff prod.inject simp_thms eq_commute [of x])

lemma determine_depth_cases:
  "determine_depth default_config state =
    (let s = scores state in
     if clarity_avg s < 0.2 \<or> tradeoff_avg s < 0.2 \<or> adaptability_avg s < 0.2
        \<or> failure_awareness_avg s < 0.2 \<or> dsa_predict_skill s < 0.2 then CRITICAL
     else if clarity_avg s < 0.4 \<or> tradeoff_avg s < 0.4 \<or> adaptability_avg s < 0.4
        \<or> failure_awareness_avg s < 0.4 \<or> dsa_predict_skill s < 0.4 then REMEDIATION
     else if clarity_avg s \<ge> 0.99 \<and> tradeoff_avg s \<ge> 0.99 \<and> adaptability_avg s \<ge> 0.99
        \<and> failure_awareness_avg s \<ge> 0.99 \<and> dsa_predict_skill s \<ge> 0.99
        \<and> recent_modules state = [] then ONBOARDING
     else NORMAL)"
  by (simp add: determine_depth_def default_config_def to_dict_def Let_def)

lemma single_weak_dimension:
  assumes d: "(d, 0.15) \<in> set (to_dict s)"
    and others: "\<forall>(d', v) \<in> set (to_dict s). d' \<noteq> d \<longrightarrow> v \<ge> 0.4"
  shows "weakest_dimension s 0.4 = Some d"
proof -
  from d have
    "(d = ''clarity_avg'' \<and> clarity_avg s = 0.15) \<or> (d = ''tradeoff_avg'' \<and> tradeoff_avg s = 0.15)
   \<or> (d = ''adaptability_avg'' \<and> adaptability_avg s = 0.15)
   \<or> (d = ''failure_awareness_avg'' \<and> failure_awareness_avg s = 0.15)
   \<or> (d = ''dsa_predict_skill'' \<and> dsa_predict_skill s = 0.15)"
    by (simp only: to_dict_mem)
  then consider
      (1) "d = ''clarity_avg''" "clarity_avg s = 0.15"
    | (2) "d = ''tradeoff_avg''" "tradeoff_avg s = 0.15"
    | (3) "d = ''adaptability_avg''" "adaptability_avg s = 0.15"
    | (4) "d = ''failure_awareness_avg''" "failure_awareness_avg s = 0.15"
    | (5) "d = ''dsa_predict_skill''" "dsa_predict_skill s = 0.15"
    by (elim disjE conjE; blast)
  then show ?thesis
  proof cases
    case 1
    from others have "tradeoff_avg s \<ge> 0.4 \<and> adaptability_avg s \<ge> 0.4
        \<and> failure_awareness_avg s \<ge> 0.4 \<and> dsa_predict_skill s \<ge> 0.4"
      unfolding 1(1) by (simp add: to_dict_def)
    with 1 show ?thesis by (simp add: weakest_dimension_def to_dict_def)
  next
    case 2
    from others have "clarity_avg s \<ge> 0.4 \<and> adaptability_avg s \<ge> 0.4
        \<and> failure_awareness_avg s \<ge> 0.4 \<and> dsa_predict_skill s \<ge> 0.4"
      unfolding 2(1) by (simp add: to_dict_def)
    with 2 show ?thesis by (simp add: weakest_dimension_def to_dict_def)
  next
    case 3
    from others have "clarity_avg s \<ge> 0.4 \<and> tradeoff_avg s \<ge> 0.4
        \<and> failure_awareness_avg s \<ge> 0.4 \<and> dsa_predict_skill s \<ge> 0.4"
      unfolding 3(1) by (simp add: to_dict_def)
    with 3 show ?thesis by (simp add: weakest_dimension_def to_dict_def)
  next
    case 4
    from others have "clarity_avg s \<ge> 0.4 \<and> tradeoff_avg s \<ge> 0.4
        \<and> adaptability_avg s \<ge> 0.4 \<and> dsa_predict_skill s \<ge> 0.4"
      unfolding 4(1) by (simp add: to_dict_def)
    with 4 show ?thesis by (simp add: weakest_dimension_def to_dict_def)
  next
    case 5
    from others have "clarity_avg s \<ge> 0.4 \<and> tradeoff_avg s \<ge> 0.4
        \<and> adaptability_avg s \<ge> 0.4 \<and> failure_awareness_avg s \<ge> 0.4"
      unfolding 5(1) by (simp add: to_dict_def)
    with 5 show ?thesis by (simp add: weakest_dimension_def to_dict_def)
  qed
qed

lemma single_weak_critical:
  assumes d: "(d, 0.15) \<in> set (to_dict (scores state))"
  shows "determine_depth default_config state = CRITICAL"
proof -
  have "list_ex (\<lambda>(dim, val). val < 0.2) (to_dict (scores state))"
    unfolding list_ex_iff using d by force
  then show ?thesis by (simp add: determine_depth_def default_config_def Let_def)
qed

lemma no_candidates_example:
  "get_candidates weak_clarity_returning_user all_unhealthy = []"
  by (simp add: get_candidates_def MODULES_def truthy_str_def all_unhealthy_def
      weak_clarity_returning_user_def weak_clarity_user_def fresh_user_def)

text \<open>
  Claim C7, as it is written, fails: for a user with clarity 0.15, every other dimension
  0.9 and a non-empty history, when every external service is unhealthy no candidate is
  left and \<open>decide\<close> returns its hard-coded fallback, whose depth is \<open>CRITICAL\<close> but
  whose \<open>weakness_trigger\<close> is \<open>None\<close>.
\<close>

theorem weakness_trigger_counterexample:
  "(''clarity_avg'', 0.15) \<in> set (to_dict (scores weak_clarity_returning_user))
   \<and> list_all (\<lambda>(d', v). d' = ''clarity_avg'' \<or> v \<ge> 0.4)
        (to_dict (scores weak_clarity_returning_user))
   \<and> decide default_config weak_clarity_returning_user empty_memory all_unhealthy =
       Inr \<lparr> next_module = ''project_studio'', depth = CRITICAL, weakness_trigger = None,
             decision_scores = Some (to_dict (scores weak_clarity_returning_user)),
             confidence = 0.5, candidate_scores = [] \<rparr>"
proof -
  have a: "(''clarity_avg'', 0.15) \<in> set (to_dict (scores weak_clarity_returning_user))"
    by (simp add: to_dict_def weak_clarity_returning_user_def weak_clarity_user_def
        fresh_user_def default_scores_def)
  have b: "list_all (\<lambda>(d', v). d' = ''clarity_avg'' \<or> v \<ge> 0.4)
        (to_dict (scores weak_clarity_returning_user))"
    by (simp add: to_dict_def weak_clarity_returning_user_def weak_clarity_user_def
        fresh_user_def default_scores_def)
  have c: "determine_depth default_config weak_clarity_returning_user = CRITICAL"
    using a by (rule single_weak_critical)
  from a b c decide_fallback [OF no_candidates_example, of default_config empty_memory]
  show ?thesis by simp
qed

text \<open>
  Claim C7, amended: under the default thresholds the depth is \<open>CRITICAL\<close> if a dimension
  is below 0.2, else \<open>REMEDIATION\<close> if a dimension is below 0.4, else \<open>ONBOARDING\<close> if
  every dimension is at least 0.99 and \<open>recent_modules\<close> is empty, else \<open>NORMAL\<close>, and
  it is the depth of every Decision that \<open>decide\<close> returns. When one dimension is 0.15
  and every other dimension is at least the weakness threshold 0.4, the depth is
  \<open>CRITICAL\<close>, and that dimension is the \<open>weakness_trigger\<close> of the returned Decision
  whenever at least one candidate module is left; the fallback Decision for an empty
  candidate list has \<open>weakness_trigger = None\<close>. A Decision is returned for every memory
  context without a \<open>None\<close> field.
\<close>

theorem depth_and_weakness_trigger:
  "determine_depth default_config state =
    (let s = scores state in
     if clarity_avg s < 0.2 \<or> tradeoff_avg s < 0.2 \<or> adaptability_avg s < 0.2
        \<or> failure_awareness_avg s < 0.2 \<or> dsa_predict_skill s < 0.2 then CRITICAL
     else if clarity_avg s < 0.4 \<or> tradeoff_avg s < 0.4 \<or> adaptability_avg s < 0.4
        \<or> failure_awareness_avg s < 0.4 \<or> dsa_predict_skill s < 0.4 then REMEDIATION
     else if clarity_avg s \<ge> 0.99 \<and> tradeoff_avg s \<ge> 0.99 \<and> adaptability_avg s \<ge> 0.99
        \<and> failure_awareness_avg s \<ge> 0.99 \<and> dsa_predict_skill s \<ge> 0.99
        \<and> recent_modules state = [] then ONBOARDING
     else NORMAL)
   \<and> (\<forall>dec. decide default_config state mem h = Inr dec
          \<longrightarrow> depth dec = determine_depth default_config state)
   \<and> ((d, 0.15) \<in> set (to_dict (scores state))
        \<and> (\<forall>(d', v) \<in> set (to_dict (scores state)). d' \<noteq> d \<longrightarrow> v \<ge> 0.4)
      \<longrightarrow> determine_depth default_config state = CRITICAL
          \<and> weakest_dimension (scores state) (weakness_threshold default_config) = Some d
          \<and> (\<forall>dec. decide default_config state mem h = Inr dec
                \<longrightarrow> depth dec = CRITICAL
                    \<and> weakness_trigger dec = (if get_candidates state h = [] then None else Some d)))
   \<and> (memory_well_typed mem \<longrightarrow> (\<exists>dec. decide default_config state mem h = Inr dec))"
proof -
  have wt: "weakness_threshold default_config = 0.4" by (simp add: default_config_def)
  have dep: "\<forall>dec. decide default_config state mem h = Inr dec
          \<longrightarrow> depth dec = determine_depth default_config state"
    using decide_depth by blast
  have trig: "\<forall>dec. decide default_config state mem h = Inr dec
          \<longrightarrow> weakness_trigger dec = (if get_candidates state h = [] then None
               else weakest_dimension (scores state) (weakness_threshold default_config))"
    using decide_trigger by blast
  have ret: "memory_well_typed mem \<longrightarrow> (\<exists>dec. decide default_config state mem h = Inr dec)"
    using decide_returns by blast
  have weak: "(d, 0.15) \<in> set (to_dict (scores state))
        \<and> (\<forall>(d', v) \<in> set (to_dict (scores state)). d' \<noteq> d \<longrightarrow> v \<ge> 0.4)
      \<longrightarrow> determine_depth default_config state = CRITICAL
          \<and> weakest_dimension (scores state) (weakness_threshold default_config) = Some d"
    using single_weak_dimension [of d "scores state"] single_weak_critical [of d state] wt
    by presburger
  from weak dep trig have both: "(d, 0.15) \<in> set (to_dict (scores state))
        \<and> (\<forall>(d', v) \<in> set (to_dict (scores state)). d' \<noteq> d \<longrightarrow> v \<ge> 0.4)
      \<longrightarrow> determine_depth default_config state = CRITICAL
          \<and> weakest_dimension (scores state) (weakness_threshold default_config) = Some d
          \<and> (\<forall>dec. decide default_config state mem h = Inr dec
                \<longrightarrow> depth dec = CRITICAL
                    \<and> weakness_trigger dec = (if get_candidates state h = [] then None else Some d))"
    by (metis (no_types, lifting))
  from determine_depth_cases [of state] dep both ret show ?thesis by blast
qed

theorem depth_and_weakness_trigger_witness:
  "(''clarity_avg'', 0.15) \<in> set (to_dict (scores weak_clarity_user))
   \<and> list_all (\<lambda>(d', v). d' = ''clarity_avg'' \<or> v \<ge> 0.4) (to_dict (scores weak_clarity_user))
   \<and> memory_well_typed empty_memory
   \<and> get_candidates weak_clarity_user Map.empty \<noteq> []
   \<and> determine_depth default_config weak_clarity_user = CRITICAL
   \<and> weakest_dimension (scores weak_clarity_user) (weakness_threshold default_config)
       = Some ''clarity_avg''
   \<and> (\<exists>dec. decide default_config weak_clarity_user empty_memory Map.empty = Inr dec
         \<and> depth dec = CRITICAL \<and> weakness_trigger dec = Some ''clarity_avg'')"
proof -
  have a: "(''clarity_avg'', 0.15) \<in> set (to_dict (scores weak_clarity_user))"
    by (simp add: to_dict_def weak_clarity_user_def fresh_user_def default_scores_def)
  have b: "list_all (\<lambda>(d', v). d' = ''clarity_avg'' \<or> v \<ge> 0.4) (to_dict (scores weak_clarity_user))"
    by (simp add: to_dict_def weak_clarity_user_def fresh_user_def default_scores_def)
  then have c: "\<forall>(d', v) \<in> set (to_dict (scores weak_clarity_user)). d' \<noteq> ''clarity_avg'' \<longrightarrow> v \<ge> 0.4"
    unfolding list_all_iff by blast
  have wt: "memory_well_typed empty_memory"
    by (simp add: memory_well_typed_def empty_memory_def)
  have cand: "get_candidates weak_clarity_user Map.empty \<noteq> []"
    by (simp add: get_candidates_def MODULES_def weak_clarity_user_def fresh_user_def)
  note t = depth_and_weakness_trigger [of weak_clarity_user empty_memory Map.empty "''clarity_avg''"]
  note t3 = t [THEN conjunct2, THEN conjunct2, THEN conjunct1]
  note t4 = t [THEN conjunct2, THEN conjunct2, THEN conjunct2]
  from t4 wt obtain dec where dec: "decide default_config weak_clarity_user empty_memory Map.empty = Inr dec"
    by (elim impE exE)
  from a c have ac: "(''clarity_avg'', 0.15) \<in> set (to_dict (scores weak_clarity_user))
        \<and> (\<forall>(d', v) \<in> set (to_dict (scores weak_clarity_user)). d' \<noteq> ''clarity_avg'' \<longrightarrow> v \<ge> 0.4)"
    by (rule conjI)
  note r = t3 [rule_format, OF ac]
  from r dec cand have "depth dec = CRITICAL \<and> weakness_trigger dec = Some ''clarity_avg''"
    by simp
  moreover from r have "determine_depth default_config weak_clarity_user = CRITICAL
     \<and> weakest_dimension (scores weak_clarity_user) (weakness_threshold default_config)
       = Some ''clarity_avg''"
    by simp
  ultimately show ?thesis using a b wt cand dec by blast
qed

subsection \<open>Ranking and choice\<close>

text \<open>
  Claim C8: the ranking is a descending rearrangement of the scored candidates, and on a
  non-empty ranking the diversity filter (default configuration) returns the second entry
  exactly when the first three entries of \<open>recent_modules\<close> all equal the top candidate's
  module and a second candidate exists, and the first entry otherwise. Every Decision that
  \<open>decide\<close> returns is made this way: its candidates are scored one by one, its
  \<open>candidate_scores\<close> are the first five of their ranking, and its \<open>next_module\<close> is the
  module of the filter's pick (the fallback \<open>project_studio\<close> with no scores when there is
  no candidate); so \<open>next_module\<close> is a key of the registry and \<open>candidate_scores\<close> is
  sorted by total score, descending. A Decision is returned for every memory context
  without a \<open>None\<close> field.
\<close>

theorem diversity_filter_and_decision:
  "(scored \<noteq> [] \<longrightarrow>
      (let ranked = sort_scored scored; m = module (ranked ! 0)
       in mset ranked = mset scored
          \<and> sorted_wrt (\<lambda>a b. total_score a \<ge> total_score b) ranked
          \<and> apply_diversity_filter default_config ranked state =
              Inr (if take 3 (recent_modules state) = [m, m, m] \<and> length ranked > 1
                   then ranked ! 1 else ranked ! 0)))
   \<and> (\<forall>d. decide default_config state mem service_health = Inr d \<longrightarrow>
          next_module d \<in> fst ` set MODULES
        \<and> sorted_wrt (\<lambda>a b. total_score a \<ge> total_score b) (candidate_scores d)
        \<and> (if get_candidates state service_health = []
            then next_module d = ''project_studio'' \<and> candidate_scores d = []
            else (\<exists>unsorted.
               score_all default_config (get_candidates state service_health) state mem service_health
                 = Inr unsorted
               \<and> list_all2 (\<lambda>c ms. score_candidate default_config c state mem service_health = Inr ms)
                     (get_candidates state service_health) unsorted
               \<and> candidate_scores d = take 5 (sort_scored unsorted)
               \<and> next_module d = module
                    (if take 3 (recent_modules state)
                          = [module (sort_scored unsorted ! 0), module (sort_scored unsorted ! 0),
                             module (sort_scored unsorted ! 0)]
                        \<and> length (sort_scored unsorted) > 1
                     then sort_scored unsorted ! 1 else sort_scored unsorted ! 0))))
   \<and> (memory_well_typed mem \<longrightarrow> (\<exists>d. decide default_config state mem service_health = Inr d))"
proof -
  have "sort_scored scored \<noteq> []" if "scored \<noteq> []"
    using that sort_scored_length [of scored] by auto
  then have first: "scored \<noteq> [] \<longrightarrow>
      (let ranked = sort_scored scored; m = module (ranked ! 0)
       in mset ranked = mset scored
          \<and> sorted_wrt (\<lambda>a b. total_score a \<ge> total_score b) ranked
          \<and> apply_diversity_filter default_config ranked state =
              Inr (if take 3 (recent_modules state) = [m, m, m] \<and> length ranked > 1
                   then ranked ! 1 else ranked ! 0))"
    using diversity_filter_pick [of "sort_scored scored" state]
      sort_scored_mset [of scored] sort_scored_sorted [of scored]
    by (simp add: Let_def)
  show ?thesis
    using first decide_registry_sorted [of default_config state mem service_health]
      decide_choice [of state mem service_health]
      decide_returns [of mem default_config state service_health]
    by blast
qed

theorem diversity_filter_and_decision_witness:
  "scored_example \<noteq> []
   \<and> sort_scored scored_example =
       [(new_module_score ''dsa_practice'')\<lparr> total_score := 0.7 \<rparr>,
        (new_module_score ''interactive_course'')\<lparr> total_score := 0.5 \<rparr>]
   \<and> apply_diversity_filter default_config (sort_scored scored_example) repeat_user
       = Inr ((new_module_score ''interactive_course'')\<lparr> total_score := 0.5 \<rparr>)
   \<and> apply_diversity_filter default_config (sort_scored scored_example) fresh_user
       = Inr ((new_module_score ''dsa_practice'')\<lparr> total_score := 0.7 \<rparr>)
   \<and> memory_well_typed empty_memory
   \<and> (\<exists>d. decide default_config repeat_user empty_memory only_dsa_healthy = Inr d
         \<and> next_module d = ''dsa_practice'' \<and> length (candidate_scores d) = 1)"
proof -
  have ne: "scored_example \<noteq> []" by (simp add: scored_example_def)
  have s: "sort_scored scored_example =
       [(new_module_score ''dsa_practice'')\<lparr> total_score := 0.7 \<rparr>,
        (new_module_score ''interactive_course'')\<lparr> total_score := 0.5 \<rparr>]"
    by (simp add: sort_scored_def scored_example_def new_module_score_def)
  from diversity_filter_and_decision [of scored_example repeat_user] ne
  have a: "apply_diversity_filter default_config (sort_scored scored_example) repeat_user
       = Inr ((new_module_score ''interactive_course'')\<lparr> total_score := 0.5 \<rparr>)"
    unfolding s by (simp add: Let_def repeat_user_def fresh_user_def new_module_score_def)
  from diversity_filter_and_decision [of scored_example fresh_user] ne
  have b: "apply_diversity_filter default_config (sort_scored scored_example) fresh_user
       = Inr ((new_module_score ''dsa_practice'')\<lparr> total_score := 0.7 \<rparr>)"
    unfolding s by (simp add: Let_def fresh_user_def new_module_score_def)
  have wt: "memory_well_typed empty_memory"
    by (simp add: memory_well_typed_def empty_memory_def)
  have cand: "get_candidates repeat_user only_dsa_healthy = [''dsa_practice'']"
    by (simp add: get_candidates_def MODULES_def truthy_str_def only_dsa_healthy_def
        repeat_user_def fresh_user_def)
  note t = diversity_filter_and_decision [of scored_example repeat_user empty_memory only_dsa_healthy]
  note t2 = t [THEN conjunct2, THEN conjunct1]
  note t3 = t [THEN conjunct2, THEN conjunct2]
  from t3 wt obtain d where d: "decide default_config repeat_user empty_memory only_dsa_healthy = Inr d"
    by (elim impE exE)
  from t2 [rule_format, OF d] cand obtain unsorted where
    u: "list_all2 (\<lambda>c ms. score_candidate default_config c repeat_user empty_memory only_dsa_healthy
            = Inr ms) [''dsa_practice''] unsorted"
    and cs: "candidate_scores d = take 5 (sort_scored unsorted)"
    and nm: "next_module d = module
                    (if take 3 (recent_modules repeat_user)
                          = [module (sort_scored unsorted ! 0), module (sort_scored unsorted ! 0),
                             module (sort_scored unsorted ! 0)]
                        \<and> length (sort_scored unsorted) > 1
                     then sort_scored unsorted ! 1 else sort_scored unsorted ! 0)"
    by auto
  from u obtain ms where ms: "unsorted = [ms]"
      "score_candidate default_config ''dsa_practice'' repeat_user empty_memory only_dsa_healthy = Inr ms"
    by (auto simp: list_all2_Cons1)
  have srt: "sort_scored unsorted = [ms]" by (simp add: ms(1) sort_scored_def)
  have "module ms = ''dsa_practice''" using ms(2) by (rule score_candidate_module)
  with nm cs srt have "next_module d = ''dsa_practice'' \<and> length (candidate_scores d) = 1"
    by simp
  with ne s a b wt d show ?thesis by blast
qed

section \<open>Properties of the evaluator\<close>

subsection \<open>The endpoint never fails visibly\<close>

lemma save_interaction_no_raise:
  "\<exists>b db'. save_interaction acq ins uid modl q a db = (Inr b, db')"
  by (auto simp: save_interaction_def Let_def)

lemma save_scores_no_raise:
  "\<exists>b db'. save_scores acq ins uid modl sc db = (Inr b, db')"
  by (auto simp: save_scores_def Let_def)

lemma update_user_state_no_raise:
  "\<exists>b db'. update_user_state dflt oc now uid db = (Inr b, db')"
  by (cases "update_user_state_body dflt oc now uid db")
     (auto simp: update_user_state_def)

text \<open>
  Claim C2: whatever the request and whatever the outcome of each internal step (no pool,
  a failing acquire or insert for the interaction or the scores, each provider missing its
  key, answering with an error, raising or returning text on which the parser raises, a
  failing aggregation), the handler returns the body \<open>{status: "ok"}\<close>, which the
  framework sends with status 200.
\<close>

theorem evaluate_always_ok:
  "fst (evaluate env req db) = Inr \<lparr> status = ''ok'' \<rparr>"
proof (cases "pool_available env")
  case False
  then show ?thesis by (simp add: evaluate_def)
next
  case True
  obtain b1 db1 where s1: "save_interaction (interaction_acquire env) (interaction_insert env)
      (req_user_id req) (req_module req) (req_question req) (req_answer req) db = (Inr b1, db1)"
    using save_interaction_no_raise by blast
  define sc where "sc = (case score (groq_outcome env) (openrouter_outcome env) of
                       Inr s \<Rightarrow> s
                     | Inl e \<Rightarrow> [(''clarity'', None), (''tradeoffs'', None), (''adaptability'', None),
                                 (''failure_awareness'', None), (''dsa_predict'', None)])"
  obtain b2 db2 where s2: "save_scores (scores_acquire env) (scores_insert env)
      (req_user_id req) (req_module req) sc db1 = (Inr b2, db2)"
    using save_scores_no_raise by blast
  obtain b3 db3 where s3: "update_user_state (default_row env) (aggregator env) (clock env)
      (req_user_id req) db2 = (Inr b3, db3)"
    using update_user_state_no_raise by blast
  show ?thesis
    using True s1 s2 s3 unfolding evaluate_def sc_def [symmetric]
    by (simp add: Let_def sc_def [symmetric])
qed

subsection \<open>Aggregation\<close>

lemma aggregate_eq:
  "aggregate dflt now uid db = sql_update_aggregates now uid (sql_ensure_user_state dflt uid db)"
  by (simp add: aggregate_def update_user_state_def update_user_state_body_def no_faults_def Let_def)

lemma ensure_scores [simp]:
  "scores_table (sql_ensure_user_state dflt uid db) = scores_table db"
  by (simp add: sql_ensure_user_state_def split: option.splits)

lemma update_scores [simp]:
  "scores_table (sql_update_aggregates now uid db) = scores_table db"
  by (simp add: sql_update_aggregates_def Let_def split: option.splits)

lemma ensure_interactions [simp]:
  "interactions (sql_ensure_user_state dflt uid db) = interactions db"
  by (simp add: sql_ensure_user_state_def split: option.splits)

lemma update_interactions [simp]:
  "interactions (sql_update_aggregates now uid db) = interactions db"
  by (simp add: sql_update_aggregates_def Let_def split: option.splits)

lemma ensure_present:
  "user_state db uid = Some row \<Longrightarrow> sql_ensure_user_state dflt uid db = db"
  by (simp add: sql_ensure_user_state_def)

lemma ensure_has_row: "\<exists>row. user_state (sql_ensure_user_state dflt uid db) uid = Some row"
  by (simp add: sql_ensure_user_state_def split: option.splits)

lemma update_has_row:
  "user_state db uid = Some row \<Longrightarrow> \<exists>row'. user_state (sql_update_aggregates now uid db) uid = Some row'"
  by (simp add: sql_update_aggregates_def Let_def)

lemma coalesce_idem [simp]: "coalesce a (coalesce a b) = coalesce a b"
  by (simp add: coalesce_def split: option.splits)

lemma update_twice:
  "sql_update_aggregates t2 uid (sql_update_aggregates t1 uid db) = sql_update_aggregates t2 uid db"
proof (cases "filter (\<lambda>r. sr_user_id r = uid) (scores_table db) = []")
  case True
  then show ?thesis by (simp add: sql_update_aggregates_def)
next
  case False
  show ?thesis
  proof (cases "user_state db uid")
    case None
    then show ?thesis by (simp add: sql_update_aggregates_def Let_def)
  next
    case (Some us)
    with False show ?thesis
      by (simp add: sql_update_aggregates_def Let_def)
  qed
qed

lemma update_other_columns:
  "map_option (\<lambda>r. (skill_columns r, us_next_module r))
       (user_state (sql_update_aggregates t2 uid (sql_update_aggregates t1 uid db)) u)
   = map_option (\<lambda>r. (skill_columns r, us_next_module r))
       (user_state (sql_update_aggregates t1 uid db) u)"
proof (cases "filter (\<lambda>r. sr_user_id r = uid) (scores_table db) = []")
  case True
  then show ?thesis by (simp add: sql_update_aggregates_def)
next
  case False
  show ?thesis
  proof (cases "user_state db uid")
    case None
    then show ?thesis by (simp add: sql_update_aggregates_def Let_def)
  next
    case (Some us)
    with False show ?thesis
      by (simp add: sql_update_aggregates_def Let_def skill_columns_def)
  qed
qed

lemma aggregate_twice: "aggregate dflt t2 uid (aggregate dflt t1 uid db) = aggregate dflt t2 uid db"
proof -
  let ?db1 = "sql_ensure_user_state dflt uid db"
  obtain row where "user_state ?db1 uid = Some row" using ensure_has_row by blast
  then obtain row' where "user_state (sql_update_aggregates t1 uid ?db1) uid = Some row'"
    using update_has_row by blast
  then have "sql_ensure_user_state dflt uid (sql_update_aggregates t1 uid ?db1)
      = sql_update_aggregates t1 uid ?db1"
    by (rule ensure_present)
  then show ?thesis by (simp add: aggregate_eq update_twice)
qed

text \<open>
  Claim C5, as it is written, fails: the \<open>UPDATE\<close> sets \<open>last_update = NOW()\<close>, so a
  second run at a later time changes the row of a user who has score rows.
\<close>

theorem aggregate_idempotent_counterexample:
  "scores_table (aggregate spec_default_row 1 ''u1'' one_evaluation) = scores_table one_evaluation
   \<and> map_option us_last_update
        (user_state (aggregate spec_default_row 1 ''u1'' one_evaluation) ''u1'') = Some (Some 1)
   \<and> map_option us_last_update
        (user_state (aggregate spec_default_row 2 ''u1''
            (aggregate spec_default_row 1 ''u1'' one_evaluation)) ''u1'') = Some (Some 2)
   \<and> aggregate spec_default_row 2 ''u1'' (aggregate spec_default_row 1 ''u1'' one_evaluation)
       \<noteq> aggregate spec_default_row 1 ''u1'' one_evaluation"
proof -
  have a: "map_option us_last_update
        (user_state (aggregate spec_default_row 1 ''u1'' one_evaluation) ''u1'') = Some (Some 1)"
    by (simp add: aggregate_eq sql_ensure_user_state_def sql_update_aggregates_def
        one_evaluation_def empty_database_def Let_def)
  have b: "map_option us_last_update
        (user_state (aggregate spec_default_row 2 ''u1'' one_evaluation) ''u1'') = Some (Some 2)"
    by (simp add: aggregate_eq sql_ensure_user_state_def sql_update_aggregates_def
        one_evaluation_def empty_database_def Let_def)
  have c: "aggregate spec_default_row 2 ''u1'' (aggregate spec_default_row 1 ''u1'' one_evaluation)
      = aggregate spec_default_row 2 ''u1'' one_evaluation"
    by (rule aggregate_twice)
  have d: "scores_table (aggregate spec_default_row 1 ''u1'' one_evaluation) = scores_table one_evaluation"
    by (simp add: aggregate_eq)
  from a b c d show ?thesis by auto
qed

lemma aggregate_row:
  "aggregate dflt t uid db =
     db\<lparr> user_state := (user_state db)(uid \<mapsto>
       (let rows = filter (\<lambda>r. sr_user_id r = uid) (scores_table db);
            old = (case user_state db uid of None \<Rightarrow> dflt | Some r \<Rightarrow> r)
        in if rows = [] then old
           else old\<lparr> us_clarity_avg := coalesce (sql_avg (map sr_clarity rows)) (us_clarity_avg old),
                     us_tradeoff_avg := coalesce (sql_avg (map sr_tradeoffs rows)) (us_tradeoff_avg old),
                     us_adaptability_avg :=
                       coalesce (sql_avg (map sr_adaptability rows)) (us_adaptability_avg old),
                     us_failure_awareness_avg :=
                       coalesce (sql_avg (map sr_failure_awareness rows)) (us_failure_awareness_avg old),
                     us_dsa_predict_skill :=
                       coalesce (sql_avg (map sr_dsa_predict rows)) (us_dsa_predict_skill old),
                     us_last_update := Some t \<rparr>)) \<rparr>"
proof (cases "user_state db uid")
  case None
  then show ?thesis
    by (simp add: aggregate_eq sql_ensure_user_state_def sql_update_aggregates_def Let_def)
next
  case (Some row)
  then have "(user_state db)(uid \<mapsto> row) = user_state db" by (rule map_upd_triv)
  with Some show ?thesis
    by (simp add: aggregate_eq sql_ensure_user_state_def sql_update_aggregates_def Let_def)
qed

lemma aggregate_same_iff:
  "(aggregate dflt t2 uid db = aggregate dflt t1 uid db)
     = (filter (\<lambda>r. sr_user_id r = uid) (scores_table db) = [] \<or> t1 = t2)"
proof (cases "filter (\<lambda>r. sr_user_id r = uid) (scores_table db) = []")
  case True
  then show ?thesis by (simp add: aggregate_row [of dflt t1] aggregate_row [of dflt t2])
next
  case False
  have l: "map_option us_last_update (user_state (aggregate dflt t uid db) uid) = Some (Some t)" for t
    using False by (simp add: aggregate_row [of dflt t] Let_def)
  show ?thesis
  proof
    assume "aggregate dflt t2 uid db = aggregate dflt t1 uid db"
    with l [of t1] l [of t2] have "Some (Some t1) = Some (Some t2)" by metis
    then have "t1 = t2" by simp
    then show "filter (\<lambda>r. sr_user_id r = uid) (scores_table db) = [] \<or> t1 = t2" by simp
  next
    assume "filter (\<lambda>r. sr_user_id r = uid) (scores_table db) = [] \<or> t1 = t2"
    with False show "aggregate dflt t2 uid db = aggregate dflt t1 uid db" by simp
  qed
qed

text \<open>
  Claim C5, amended: a run of the aggregator in which no database call fails leaves
  \<open>scores\<close> and \<open>interactions\<close> untouched and writes one row of \<open>user_state\<close>, the user's.
  Starting from the existing row, or from the column defaults when there is none, a run
  that finds no score rows of the user leaves that row as it is; a run that finds score
  rows sets each skill column to the \<open>AVG\<close> of its column over the user's score rows,
  keeping the old value where that average is \<open>NULL\<close>, keeps \<open>next_module\<close>, and sets
  \<open>last_update\<close> to the time of the run. Running it twice in a row without new score
  rows gives the result of one run at the time of the second. So the result of the two
  runs is identical to the result of the first exactly when the user has no score rows or
  both runs see the same time; in every case the two results have the same tables and,
  in every row of \<open>user_state\<close>, the same five skill columns and \<open>next_module\<close>.
\<close>

theorem aggregate_idempotent_except_last_update:
  "(let rows = filter (\<lambda>r. sr_user_id r = uid) (scores_table db);
        old = (case user_state db uid of None \<Rightarrow> dflt | Some r \<Rightarrow> r);
        run = (\<lambda>t. if rows = [] then old
           else old\<lparr> us_clarity_avg := coalesce (sql_avg (map sr_clarity rows)) (us_clarity_avg old),
                     us_tradeoff_avg := coalesce (sql_avg (map sr_tradeoffs rows)) (us_tradeoff_avg old),
                     us_adaptability_avg :=
                       coalesce (sql_avg (map sr_adaptability rows)) (us_adaptability_avg old),
                     us_failure_awareness_avg :=
                       coalesce (sql_avg (map sr_failure_awareness rows)) (us_failure_awareness_avg old),
                     us_dsa_predict_skill :=
                       coalesce (sql_avg (map sr_dsa_predict rows)) (us_dsa_predict_skill old),
                     us_last_update := Some t \<rparr>);
        once = aggregate dflt t1 uid db;
        twice = aggregate dflt t2 uid once
    in once = db\<lparr> user_state := (user_state db)(uid \<mapsto> run t1) \<rparr>
       \<and> twice = db\<lparr> user_state := (user_state db)(uid \<mapsto> run t2) \<rparr>
       \<and> twice = aggregate dflt t2 uid db
       \<and> (twice = once) = (rows = [] \<or> t1 = t2)
       \<and> scores_table twice = scores_table once
       \<and> interactions twice = interactions once
       \<and> map_option (\<lambda>r. (skill_columns r, us_next_module r)) (user_state twice u)
           = map_option (\<lambda>r. (skill_columns r, us_next_module r)) (user_state once u))"
proof -
  let ?db1 = "sql_ensure_user_state dflt uid db"
  obtain row where "user_state ?db1 uid = Some row" using ensure_has_row by blast
  then obtain row' where "user_state (sql_update_aggregates t1 uid ?db1) uid = Some row'"
    using update_has_row by blast
  then have e: "sql_ensure_user_state dflt uid (sql_update_aggregates t1 uid ?db1)
      = sql_update_aggregates t1 uid ?db1"
    by (rule ensure_present)
  have tw: "aggregate dflt t2 uid (aggregate dflt t1 uid db) = aggregate dflt t2 uid db"
    by (rule aggregate_twice)
  have cols: "map_option (\<lambda>r. (skill_columns r, us_next_module r))
       (user_state (aggregate dflt t2 uid (aggregate dflt t1 uid db)) u)
     = map_option (\<lambda>r. (skill_columns r, us_next_module r))
       (user_state (aggregate dflt t1 uid db) u)"
    using update_other_columns [of t2 uid t1 ?db1 u] by (simp add: aggregate_eq e)
  have tabs: "scores_table (aggregate dflt t2 uid (aggregate dflt t1 uid db))
        = scores_table (aggregate dflt t1 uid db)"
      "interactions (aggregate dflt t2 uid (aggregate dflt t1 uid db))
        = interactions (aggregate dflt t1 uid db)"
    by (simp_all add: aggregate_eq)
  have same: "(aggregate dflt t2 uid (aggregate dflt t1 uid db) = aggregate dflt t1 uid db)
     = (filter (\<lambda>r. sr_user_id r = uid) (scores_table db) = [] \<or> t1 = t2)"
    unfolding tw by (rule aggregate_same_iff)
  have r1: "aggregate dflt t1 uid db = db\<lparr> user_state := (user_state db)(uid \<mapsto>
       (let rows = filter (\<lambda>r. sr_user_id r = uid) (scores_table db);
            old = (case user_state db uid of None \<Rightarrow> dflt | Some r \<Rightarrow> r)
        in if rows = [] then old
           else old\<lparr> us_clarity_avg := coalesce (sql_avg (map sr_clarity rows)) (us_clarity_avg old),
                     us_tradeoff_avg := coalesce (sql_avg (map sr_tradeoffs rows)) (us_tradeoff_avg old),
                     us_adaptability_avg :=
                       coalesce (sql_avg (map sr_adaptability rows)) (us_adaptability_avg old),
                     us_failure_awareness_avg :=
                       coalesce (sql_avg (map sr_failure_awareness rows)) (us_failure_awareness_avg old),
                     us_dsa_predict_skill :=
                       coalesce (sql_avg (map sr_dsa_predict rows)) (us_dsa_predict_skill old),
                     us_last_update := Some t1 \<rparr>)) \<rparr>"
    by (rule aggregate_row)
  have r2: "aggregate dflt t2 uid (aggregate dflt t1 uid db) = db\<lparr> user_state := (user_state db)(uid \<mapsto>
       (let rows = filter (\<lambda>r. sr_user_id r = uid) (scores_table db);
            old = (case user_state db uid of None \<Rightarrow> dflt | Some r \<Rightarrow> r)
        in if rows = [] then old
           else old\<lparr> us_clarity_avg := coalesce (sql_avg (map sr_clarity rows)) (us_clarity_avg old),
                     us_tradeoff_avg := coalesce (sql_avg (map sr_tradeoffs rows)) (us_tradeoff_avg old),
                     us_adaptability_avg :=
                       coalesce (sql_avg (map sr_adaptability rows)) (us_adaptability_avg old),
                     us_failure_awareness_avg :=
                       coalesce (sql_avg (map sr_failure_awareness rows)) (us_failure_awareness_avg old),
                     us_dsa_predict_skill :=
                       coalesce (sql_avg (map sr_dsa_predict rows)) (us_dsa_predict_skill old),
                     us_last_update := Some t2 \<rparr>)) \<rparr>"
    unfolding tw by (rule aggregate_row)
  show ?thesis
    unfolding Let_def
    using r1 [unfolded Let_def] r2 [unfolded Let_def] tw same cols tabs
    by (intro conjI) assumption+
qed

subsection \<open>Range of the aggregated scores\<close>

lemma foldl_pf_add_finite:
  "foldl pf_add (Finite a) (map Finite xs) = Finite (a + sum_list xs)"
  by (induction xs arbitrary: a) (simp_all add: add.assoc)

text \<open>\<open>AVG\<close> is the arithmetic mean of the entries that are not \<open>NULL\<close>.\<close>

lemma sql_avg_mean:
  assumes "non_null col = map Finite xs"
  shows "sql_avg col = (if xs = [] then None else Some (Finite (sum_list xs / real (length xs))))"
  using assms by (simp add: sql_avg_def Let_def foldl_pf_add_finite)

lemma sum_list_unit_bounds:
  "\<forall>x \<in> set xs. 0 \<le> x \<and> x \<le> (1::real) \<Longrightarrow> 0 \<le> sum_list xs \<and> sum_list xs \<le> real (length xs)"
  by (induction xs) auto

lemma unit_entries_finite:
  assumes "\<forall>v \<in> set col. v = None \<or> in_unit_interval v"
  shows "\<exists>xs. non_null col = map Finite xs \<and> (\<forall>x \<in> set xs. 0 \<le> x \<and> x \<le> 1)"
  using assms
proof (induction col)
  case Nil
  then show ?case by (simp add: non_null_def)
next
  case (Cons v col)
  then obtain xs where xs: "non_null col = map Finite xs" "\<forall>x \<in> set xs. 0 \<le> x \<and> x \<le> 1"
    by auto
  show ?case
  proof (cases v)
    case None
    with xs show ?thesis by (auto simp: non_null_def)
  next
    case (Some f)
    with Cons.prems obtain x where x: "f = Finite x" "0 \<le> x" "x \<le> 1"
      by (cases f) (auto simp: in_unit_interval_def)
    have "non_null (v # col) = map Finite (x # xs)"
      using Some x(1) xs(1) by (simp add: non_null_def)
    with x xs(2) show ?thesis by (metis set_ConsD)
  qed
qed

lemma sql_avg_unit:
  assumes "\<forall>v \<in> set col. v = None \<or> in_unit_interval v"
  shows "sql_avg col = None \<or> in_unit_interval (sql_avg col)"
proof -
  from unit_entries_finite [OF assms] obtain xs where
    xs: "non_null col = map Finite xs" "\<forall>x \<in> set xs. 0 \<le> x \<and> x \<le> 1" by blast
  show ?thesis
  proof (cases "xs = []")
    case True
    with xs(1) show ?thesis by (simp add: sql_avg_mean)
  next
    case False
    then have len: "0 < real (length xs)" by simp
    from sum_list_unit_bounds [OF xs(2)]
    have "0 \<le> sum_list xs / real (length xs) \<and> sum_list xs / real (length xs) \<le> 1"
      using len by (simp add: divide_le_eq)
    with False xs(1) show ?thesis by (simp add: sql_avg_mean in_unit_interval_def)
  qed
qed

lemma coalesce_unit:
  "a = None \<or> in_unit_interval a \<Longrightarrow> in_unit_interval b \<Longrightarrow> in_unit_interval (coalesce a b)"
  by (auto simp: coalesce_def in_unit_interval_def split: option.splits)

text \<open>
  What the aggregator does guarantee: when every stored score of the user that is not
  \<open>NULL\<close> lies in \<open>[0,1]\<close>, and so do the skill columns of the user's row before the run
  (or of the default row, when the run creates it), they lie in \<open>[0,1]\<close> after the run.
\<close>

lemma aggregate_within_unit_interval:
  assumes stored: "\<forall>r \<in> set (scores_table db). sr_user_id r = uid \<longrightarrow>
      (\<forall>v \<in> set [sr_clarity r, sr_tradeoffs r, sr_adaptability r, sr_failure_awareness r,
                   sr_dsa_predict r]. v = None \<or> in_unit_interval v)"
    and before: "list_all in_unit_interval
      (skill_columns (case user_state db uid of None \<Rightarrow> dflt | Some row \<Rightarrow> row))"
  shows "\<exists>row. user_state (aggregate dflt now uid db) uid = Some row
           \<and> list_all in_unit_interval (skill_columns row)"
proof -
  let ?db1 = "sql_ensure_user_state dflt uid db"
  let ?rows = "filter (\<lambda>r. sr_user_id r = uid) (scores_table db)"
  let ?us = "case user_state db uid of None \<Rightarrow> dflt | Some row \<Rightarrow> row"
  have us: "user_state ?db1 uid = Some ?us"
    by (simp add: sql_ensure_user_state_def split: option.splits)
  show ?thesis
  proof (cases "?rows = []")
    case True
    then have "user_state (aggregate dflt now uid db) uid = Some ?us"
      using us by (simp add: aggregate_eq sql_update_aggregates_def)
    with before show ?thesis by simp
  next
    case False
    have col: "\<forall>v \<in> set (map f ?rows). v = None \<or> in_unit_interval v"
      if "f \<in> {sr_clarity, sr_tradeoffs, sr_adaptability, sr_failure_awareness, sr_dsa_predict}"
      for f
      using stored that by auto
    have c1: "in_unit_interval (coalesce (sql_avg (map sr_clarity ?rows)) (us_clarity_avg ?us))"
      using sql_avg_unit [OF col [of sr_clarity]] before
      by (intro coalesce_unit) (simp_all add: skill_columns_def)
    have c2: "in_unit_interval (coalesce (sql_avg (map sr_tradeoffs ?rows)) (us_tradeoff_avg ?us))"
      using sql_avg_unit [OF col [of sr_tradeoffs]] before
      by (intro coalesce_unit) (simp_all add: skill_columns_def)
    have c3: "in_unit_interval (coalesce (sql_avg (map sr_adaptability ?rows)) (us_adaptability_avg ?us))"
      using sql_avg_unit [OF col [of sr_adaptability]] before
      by (intro coalesce_unit) (simp_all add: skill_columns_def)
    have c4: "in_unit_interval
        (coalesce (sql_avg (map sr_failure_awareness ?rows)) (us_failure_awareness_avg ?us))"
      using sql_avg_unit [OF col [of sr_failure_awareness]] before
      by (intro coalesce_unit) (simp_all add: skill_columns_def)
    have c5: "in_unit_interval (coalesce (sql_avg (map sr_dsa_predict ?rows)) (us_dsa_predict_skill ?us))"
      using sql_avg_unit [OF col [of sr_dsa_predict]] before
      by (intro coalesce_unit) (simp_all add: skill_columns_def)
    show ?thesis
      using False us c1 c2 c3 c4 c5
      by (simp add: aggregate_eq sql_update_aggregates_def Let_def skill_columns_def)
  qed
qed

text \<open>
  Claim C1 at a failing input: the scores table holds one evaluation of user \<open>u1\<close> with
  clarity 1.5 (a value the parser lets through). The aggregator succeeds and stores
  \<open>clarity_avg = 1.5\<close>, outside \<open>[0,1]\<close>.
\<close>

theorem aggregate_out_of_range:
  "fst (update_user_state spec_default_row no_faults 10 ''u1'' out_of_range_scores) = Inr True
   \<and> map_option us_clarity_avg
        (user_state (snd (update_user_state spec_default_row no_faults 10 ''u1'' out_of_range_scores))
           ''u1'') = Some (Some (Finite 1.5))
   \<and> \<not> in_unit_interval (Some (Finite 1.5))"
  by (simp add: update_user_state_def update_user_state_body_def no_faults_def
      sql_ensure_user_state_def sql_update_aggregates_def out_of_range_scores_def
      empty_database_def spec_default_row_def sql_avg_def non_null_def coalesce_def
      in_unit_interval_def Let_def)

subsection \<open>The JSON decoder\<close>

text \<open>Every successful scan consumes input, so the bound on the recursion is never what
  makes the decoder fail.\<close>

lemma skip_ws_length: "length (skip_ws s) \<le> length s"
  by (simp add: skip_ws_def length_dropWhile_le)

lemma scan_int_part_shorter: "scan_int_part s = Some (ip, r) \<Longrightarrow> length r < length s"
  by (cases s) (auto simp: scan_int_part_def less_Suc_eq_le length_dropWhile_le split: if_splits)

lemma scan_frac_part_shorter: "scan_frac_part s = Some (fp, r) \<Longrightarrow> length r \<le> length s"
proof -
  assume a: "scan_frac_part s = Some (fp, r)"
  then obtain c d cs where s: "s = c # d # cs" "r = dropWhile is_digit (d # cs)"
    by (auto simp: scan_frac_part_def split: list.splits if_splits)
  have "length (dropWhile is_digit (d # cs)) \<le> length (d # cs)" by (rule length_dropWhile_le)
  with s show ?thesis by simp
qed

lemma scan_exp_part_shorter: "scan_exp_part s = Some (e, r) \<Longrightarrow> length r \<le> length s"
proof -
  assume a: "scan_exp_part s = Some (e, r)"
  then obtain c cs where s: "s = c # cs" by (cases s) (auto simp: scan_exp_part_def)
  obtain neg ds where sg: "(case cs of
                                  [] \<Rightarrow> (False, cs)
                                | g # r \<Rightarrow> if g = CHR ''-'' then (True, r)
                                           else if g = CHR ''+'' then (False, r)
                                           else (False, cs)) = (neg, ds)"
    by (cases "(case cs of
                                  [] \<Rightarrow> (False, cs)
                                | g # r \<Rightarrow> if g = CHR ''-'' then (True, r)
                                           else if g = CHR ''+'' then (False, r)
                                           else (False, cs))")
  then have l: "length ds \<le> length cs"
    by (auto split: list.splits if_splits)
  have "r = dropWhile is_digit ds"
    using a s sg unfolding scan_exp_part_def
    by (auto simp: Let_def split: if_splits)
  moreover have "length (dropWhile is_digit ds) \<le> length ds"
    by (rule length_dropWhile_le)
  ultimately show ?thesis using l s by simp
qed

lemma scan_number_shorter:
  assumes "scan_number s = Some (v, r)"
  shows "length r < length s"
proof -
  obtain neg s1 where ns: "(case s of [] \<Rightarrow> (False, s)
                      | c # cs \<Rightarrow> if c = CHR ''-'' then (True, cs) else (False, s)) = (neg, s1)"
    by (cases "(case s of [] \<Rightarrow> (False, s)
                      | c # cs \<Rightarrow> if c = CHR ''-'' then (True, cs) else (False, s))")
  then have l1: "length s1 \<le> length s" by (auto split: list.splits if_splits)
  from assms ns obtain ip s2 where ip: "scan_int_part s1 = Some (ip, s2)"
    by (auto simp: scan_number_def split: option.splits)
  then have l2: "length s2 < length s1" by (rule scan_int_part_shorter)
  define s3 where "s3 = (case scan_frac_part s2 of None \<Rightarrow> s2 | Some (fp, r) \<Rightarrow> r)"
  have l3: "length s3 \<le> length s2"
    unfolding s3_def using scan_frac_part_shorter [of s2] by (auto split: option.splits)
  define s4 where "s4 = (case scan_exp_part s3 of None \<Rightarrow> s3 | Some (e, r) \<Rightarrow> r)"
  have l4: "length s4 \<le> length s3"
    unfolding s4_def using scan_exp_part_shorter [of s3] by (auto split: option.splits)
  have "r = s4"
    using assms ns ip unfolding scan_number_def s4_def s3_def
    by (simp add: Let_def split: if_splits)
  with l1 l2 l3 l4 show ?thesis by simp
qed

lemma scan_string_shorter: "scan_string s acc = Some (str, r) \<Longrightarrow> length r < length s"
proof (induction s acc rule: scan_string.induct)
  case (1 acc)
  then show ?case by simp
next
  case (2 c cs acc)
  show ?case
  proof (cases "c = CHR 0x22")
    case True
    with 2(4) show ?thesis by simp
  next
    case nq: False
    show ?thesis
    proof (cases "c = CHR 0x5C")
      case False
      with nq 2(3) 2(4) show ?thesis by (auto split: if_splits)
    next
      case bs: True
      show ?thesis
      proof (cases cs)
        case Nil
        with nq bs 2(4) show ?thesis by simp
      next
        case (Cons e r0)
        show ?thesis
        proof (cases "e = CHR ''u''")
          case True
          with nq bs Cons 2(4) 2(1) show ?thesis
            by (auto split: list.splits option.splits if_splits) fastforce
        next
          case False
          with nq bs Cons 2(4) 2(2) show ?thesis
            by (auto split: option.splits) fastforce
        qed
      qed
    qed
  qed
qed


lemma starts_with_length: "starts_with p s \<Longrightarrow> length p \<le> length s"
  by (induction p s rule: starts_with.induct) simp_all

lemma parse_shorter:
  "parse_value n s = Some (v, r) \<Longrightarrow> length r < length s"
  "parse_elements n s acc = Some (v, r) \<Longrightarrow> length r < length s"
  "parse_members n s macc = Some (v, r) \<Longrightarrow> length r < length s"
proof (induction n s and n s acc and n s macc arbitrary: v r and v r and v r
    rule: parse_value_parse_elements_parse_members.induct)
  case (1 s)
  then show ?case by simp
next
  case (2 n s)
  from 2(3) obtain c cs where s: "s = c # cs" by (cases s) auto
  have sk: "length (skip_ws cs) \<le> length cs" by (rule skip_ws_length)
  consider (str) "c = CHR 0x22" | (obj) "c \<noteq> CHR 0x22" "c = CHR ''{''"
    | (arr) "c \<noteq> CHR 0x22" "c \<noteq> CHR ''{''" "c = CHR ''[''"
    | (other) "c \<noteq> CHR 0x22" "c \<noteq> CHR ''{''" "c \<noteq> CHR ''[''" by blast
  then show ?case
  proof cases
    case str
    with 2(3) s obtain st where "scan_string cs [] = Some (st, r)"
      by (auto split: option.splits)
    then have "length r < length cs" by (rule scan_string_shorter)
    with s show ?thesis by simp
  next
    case obj
    show ?thesis
    proof (cases "skip_ws cs")
      case Nil
      with 2(3) s obj show ?thesis by simp
    next
      case (Cons d r0)
      show ?thesis
      proof (cases "d = CHR ''}''")
        case True
        with 2(3) s obj Cons have "r = r0" by simp
        with sk Cons s show ?thesis by simp
      next
        case False
        with 2(3) s obj Cons have "parse_members n (d # r0) [] = Some (v, r)" by simp
        with 2(1) [OF s] obj Cons False have "length r < length (d # r0)" by simp
        with sk Cons s show ?thesis by simp
      qed
    qed
  next
    case arr
    show ?thesis
    proof (cases "skip_ws cs")
      case Nil
      with 2(3) s arr show ?thesis by simp
    next
      case (Cons d r0)
      show ?thesis
      proof (cases "d = CHR '']''")
        case True
        with 2(3) s arr Cons have "r = r0" by simp
        with sk Cons s show ?thesis by simp
      next
        case False
        with 2(3) s arr Cons have "parse_elements n (d # r0) [] = Some (v, r)" by simp
        with 2(2) [OF s] arr Cons False have "length r < length (d # r0)" by simp
        with sk Cons s show ?thesis by simp
      qed
    qed
  next
    case other
    have d: "0 < k \<Longrightarrow> length (drop k s) < length s" for k using s by simp
    from 2(3) s other show ?thesis
      using scan_number_shorter [of s v r] d [of 4] d [of 5] d [of 3] d [of 8] d [of 9]
      by (auto simp del: starts_with.simps drop_Suc_Cons split: if_splits option.splits)
  qed
next
  case (3 s acc)
  then show ?case by simp
next
  case (4 n s acc)
  from 4(3) obtain v0 rest where pv: "parse_value n s = Some (v0, rest)"
    by (auto split: option.splits)
  then have l1: "length rest < length s" by (rule 4(1))
  have sk: "length (skip_ws rest) \<le> length rest" by (rule skip_ws_length)
  from 4(3) pv obtain d r0 where d: "skip_ws rest = d # r0"
    by (auto split: list.splits)
  show ?case
  proof (cases "d = CHR '']''")
    case True
    with 4(3) pv d have "r = r0" by simp
    with l1 sk d show ?thesis by simp
  next
    case False
    with 4(3) pv d have comma: "d = CHR '',''" and rec: "parse_elements n (skip_ws r0) (v0 # acc) = Some (v, r)"
      by (auto split: if_splits)
    from 4(2) [OF pv refl d False comma rec] have "length r < length (skip_ws r0)" .
    with skip_ws_length [of r0] l1 sk d show ?thesis by simp
  qed
next
  case (5 s macc)
  then show ?case by simp
next
  case (6 n s macc)
  from 6(3) obtain q cs where s: "s = q # cs" "q = CHR 0x22" by (cases s) (auto split: if_splits)
  from 6(3) s obtain key rest where ss: "scan_string cs [] = Some (key, rest)"
    by (auto split: option.splits)
  then have l1: "length rest < length cs" by (rule scan_string_shorter)
  from 6(3) s ss obtain colon r1 where c: "skip_ws rest = colon # r1" "colon = CHR '':''"
    by (auto split: list.splits if_splits)
  from 6(3) s ss c obtain v0 rest' where pv: "parse_value n (skip_ws r1) = Some (v0, rest')"
    by (auto split: option.splits)
  have nq: "\<not> q \<noteq> CHR 0x22" using s by simp
  have nc: "\<not> colon \<noteq> CHR '':''" using c by simp
  from 6(1) [OF s(1) nq ss refl c(1) nc pv] have l2: "length rest' < length (skip_ws r1)" .
  from 6(3) s ss c pv obtain d r2 where d: "skip_ws rest' = d # r2"
    by (auto split: list.splits)
  have chain: "length r2 < length s"
    using l1 l2 skip_ws_length [of rest] skip_ws_length [of r1] skip_ws_length [of rest'] c d s
    by simp
  show ?case
  proof (cases "d = CHR ''}''")
    case True
    with 6(3) s ss c pv d have "r = r2" by simp
    with chain show ?thesis by simp
  next
    case False
    with 6(3) s ss c pv d have comma: "d = CHR '',''"
      and rec: "parse_members n (skip_ws r2) ((key, v0) # macc) = Some (v, r)"
      by (auto split: if_splits)
    from 6(2) [OF s(1) nq ss refl c(1) nc pv refl d False comma rec]
    have "length r < length (skip_ws r2)" .
    with skip_ws_length [of r2] chain show ?thesis by simp
  qed
qed


lemma parse_fuel:
  "2 * length s < n \<Longrightarrow> n \<le> m \<Longrightarrow> parse_value m s = parse_value n s"
  "2 * length s + 1 < n \<Longrightarrow> n \<le> m \<Longrightarrow> parse_elements m s acc = parse_elements n s acc"
  "2 * length s + 1 < n \<Longrightarrow> n \<le> m \<Longrightarrow> parse_members m s macc = parse_members n s macc"
proof (induction n s and n s acc and n s macc arbitrary: m and m and m
    rule: parse_value_parse_elements_parse_members.induct)
  case (1 s)
  then show ?case by simp
next
  case (2 n s)
  from 2(4) obtain j where m: "m = Suc j" "n \<le> j" by (cases m) auto
  show ?case
  proof (cases s)
    case Nil
    with m show ?thesis by simp
  next
    case (Cons c cs)
    have sk: "length (skip_ws cs) \<le> length cs" by (rule skip_ws_length)
    consider (obj) "c \<noteq> CHR 0x22" "c = CHR ''{''"
      | (arr) "c \<noteq> CHR 0x22" "c \<noteq> CHR ''{''" "c = CHR ''[''"
      | (other) "c = CHR 0x22 \<or> (c \<noteq> CHR ''{'' \<and> c \<noteq> CHR ''['')" by blast
    then show ?thesis
    proof cases
      case obj
      show ?thesis
      proof (cases "skip_ws cs")
        case Nil
        with Cons obj m show ?thesis by simp
      next
        case inner: (Cons d r0)
        show ?thesis
        proof (cases "d = CHR ''}''")
          case True
          with Cons obj m inner show ?thesis by simp
        next
          case False
          have b: "2 * length (d # r0) + 1 < n" using sk inner Cons 2(3) by simp
          have "parse_members j (d # r0) [] = parse_members n (d # r0) []"
            by (rule 2(1) [OF Cons obj(1) obj(2) inner False b m(2)])
          with Cons obj m inner False show ?thesis by simp
        qed
      qed
    next
      case arr
      show ?thesis
      proof (cases "skip_ws cs")
        case Nil
        with Cons arr m show ?thesis by simp
      next
        case inner: (Cons d r0)
        show ?thesis
        proof (cases "d = CHR '']''")
          case True
          with Cons arr m inner show ?thesis by simp
        next
          case False
          have b: "2 * length (d # r0) + 1 < n" using sk inner Cons 2(3) by simp
          have "parse_elements j (d # r0) [] = parse_elements n (d # r0) []"
            by (rule 2(2) [OF Cons arr(1) arr(2) arr(3) inner False b m(2)])
          with Cons arr m inner False show ?thesis by simp
        qed
      qed
    next
      case other
      with Cons m show ?thesis by (auto simp del: starts_with.simps)
    qed
  qed
next
  case (3 s acc)
  then show ?case by simp
next
  case (4 n s acc)
  from 4(4) obtain j where m: "m = Suc j" "n \<le> j" by (cases m) auto
  have pv: "parse_value j s = parse_value n s"
    using 4(3) m(2) by (intro 4(1)) simp_all
  show ?case
  proof (cases "parse_value n s")
    case None
    with pv m show ?thesis by simp
  next
    case (Some p)
    obtain v0 rest where p: "p = (v0, rest)" by (cases p)
    have l1: "length rest < length s" using Some p parse_shorter(1) by blast
    show ?thesis
    proof (cases "skip_ws rest")
      case Nil
      with pv m Some p show ?thesis by simp
    next
      case (Cons d r0)
      show ?thesis
      proof (cases "d \<noteq> CHR '']'' \<and> d = CHR '',''")
        case False
        with pv m Some p Cons show ?thesis by auto
      next
        case True
        have "length (skip_ws r0) \<le> length r0" by (rule skip_ws_length)
        moreover have "length (skip_ws rest) \<le> length rest" by (rule skip_ws_length)
        ultimately have b: "2 * length (skip_ws r0) + 1 < n" using l1 Cons 4(3) by simp
        from True have nb: "d \<noteq> CHR '']''" and comma: "d = CHR '',''" by simp_all
        have "parse_elements j (skip_ws r0) (v0 # acc) = parse_elements n (skip_ws r0) (v0 # acc)"
          using Some p by (intro 4(2) [OF _ refl Cons nb comma b m(2)]) simp
        with pv m Some p Cons True show ?thesis by simp
      qed
    qed
  qed
next
  case (5 s macc)
  then show ?case by simp
next
  case (6 n s macc)
  from 6(4) obtain j where m: "m = Suc j" "n \<le> j" by (cases m) auto
  show ?case
  proof (cases s)
    case Nil
    with m show ?thesis by simp
  next
    case (Cons q cs)
    show ?thesis
    proof (cases "q = CHR 0x22")
      case False
      with Cons m show ?thesis by simp
    next
      case q: True
      then have nq: "\<not> q \<noteq> CHR 0x22" by simp
      show ?thesis
      proof (cases "scan_string cs []")
        case None
        with Cons q m show ?thesis by simp
      next
        case (Some p)
        obtain key rest where p: "p = (key, rest)" by (cases p)
        have ss: "scan_string cs [] = Some (key, rest)" using Some p by simp
        then have l1: "length rest < length cs" by (rule scan_string_shorter)
        show ?thesis
        proof (cases "skip_ws rest")
          case Nil
          with Cons q m ss show ?thesis by simp
        next
          case c: (Cons colon r1)
          show ?thesis
          proof (cases "colon = CHR '':''")
            case False
            with Cons q m ss c show ?thesis by simp
          next
            case col: True
            then have nc: "\<not> colon \<noteq> CHR '':''" by simp
            have l2: "length (skip_ws r1) < length cs"
              using l1 skip_ws_length [of rest] skip_ws_length [of r1] c by simp
            have bv: "2 * length (skip_ws r1) < n" using l2 Cons 6(3) by simp
            have pv: "parse_value j (skip_ws r1) = parse_value n (skip_ws r1)"
              by (rule 6(1) [OF Cons nq ss refl c nc bv m(2)])
            show ?thesis
            proof (cases "parse_value n (skip_ws r1)")
              case None
              with Cons q m ss c col pv show ?thesis by simp
            next
              case sv: (Some p2)
              obtain v0 rest' where p2: "p2 = (v0, rest')" by (cases p2)
              have pvn: "parse_value n (skip_ws r1) = Some (v0, rest')" using sv p2 by simp
              then have l3: "length rest' < length (skip_ws r1)" by (rule parse_shorter(1))
              show ?thesis
              proof (cases "skip_ws rest'")
                case Nil
                with Cons q m ss c col pv pvn show ?thesis by simp
              next
                case d: (Cons d r2)
                show ?thesis
                proof (cases "d \<noteq> CHR ''}'' \<and> d = CHR '',''")
                  case False
                  with Cons q m ss c col pv pvn d show ?thesis by auto
                next
                  case True
                  then have nb: "d \<noteq> CHR ''}''" and comma: "d = CHR '',''" by simp_all
                  have b: "2 * length (skip_ws r2) + 1 < n"
                    using l2 l3 skip_ws_length [of rest'] skip_ws_length [of r2] d Cons 6(3)
                    by simp
                  have "parse_members j (skip_ws r2) ((key, v0) # macc)
                      = parse_members n (skip_ws r2) ((key, v0) # macc)"
                    by (rule 6(2) [OF Cons nq ss refl c nc pvn refl d nb comma b m(2)])
                  with Cons q m ss c col pv pvn d True show ?thesis by simp
                qed
              qed
            qed
          qed
        qed
      qed
    qed
  qed
qed

text \<open>More fuel than twice the length never changes the result of the decoder.\<close>

lemma json_loads_fuel:
  assumes "2 * length s < n"
  shows "json_loads s = (case parse_value n (skip_ws s) of
       None \<Rightarrow> None
     | Some (v, rest) \<Rightarrow> if skip_ws rest = [] then Some v else None)"
proof -
  have l: "length (skip_ws s) \<le> length s" by (rule skip_ws_length)
  have "parse_value n (skip_ws s) = parse_value (Suc (2 * length s)) (skip_ws s)"
  proof (cases "n \<le> Suc (2 * length s)")
    case True
    with assms have "n = Suc (2 * length s)" by simp
    then show ?thesis by simp
  next
    case False
    then show ?thesis using l by (intro parse_fuel(1)) simp_all
  qed
  then show ?thesis by (simp add: json_loads_def)
qed

subsection \<open>The score parser\<close>

lemma dict_set_keys [simp]: "map fst (dict_set d k v) = map fst d"
  by (induction d) (auto simp: dict_set_def)

lemma map_of_dict_set_other: "f \<noteq> k \<Longrightarrow> map_of (dict_set d k v) f = map_of d f"
  by (induction d) (simp_all add: dict_set_def split: prod.splits)

lemma map_of_dict_set_same:
  "map_of (dict_set d k v) k = (if k \<in> fst ` set d then Some v else None)"
  by (induction d) (simp_all add: dict_set_def split: prod.splits)

lemma map_of_dict_set:
  "map_of (dict_set d k v) f = (if f = k \<and> k \<in> fst ` set d then Some v else map_of d f)"
proof (cases "f = k")
  case True
  have "k \<notin> fst ` set d \<Longrightarrow> map_of d k = None" by (simp add: map_of_eq_None_iff)
  with True show ?thesis
    using map_of_dict_set_same [of d k v] by simp
next
  case False
  then show ?thesis by (simp add: map_of_dict_set_other)
qed

lemma fill_scores_keys:
  "fill_scores data fs sc = Inr sc' \<Longrightarrow> map fst sc' = map fst sc"
  "fill_scores data fs sc = Inl (e, sc') \<Longrightarrow> map fst sc' = map fst sc"
  by (induction data fs sc rule: fill_scores.induct;
      fastforce split: sum.splits if_splits)+

lemma try_parse_keys:
  "try_parse text sc = Inr sc' \<Longrightarrow> map fst sc' = map fst sc"
  "try_parse text sc = Inl (e, sc') \<Longrightarrow> map fst sc' = map fst sc"
  by (auto simp: try_parse_def fill_scores_keys split: option.splits)

text \<open>Whenever the parser returns, the result has exactly the five keys, in order.\<close>

lemma parse_scores_keys:
  assumes "parse_scores content = Inr sc"
  shows "map fst sc = SCORE_FIELDS"
proof -
  have n: "map fst null_scores = SCORE_FIELDS"
    by (simp add: null_scores_def comp_def)
  show ?thesis
  proof (cases "try_parse (strip content) null_scores")
    case (Inr sc1)
    with assms have "sc = sc1" by (simp add: parse_scores_def)
    with Inr n show ?thesis using try_parse_keys(1) by metis
  next
    case (Inl p)
    obtain e sc1 where p: "p = (e, sc1)" by (cases p)
    have k1: "map fst sc1 = SCORE_FIELDS"
      using Inl p n try_parse_keys(2) by metis
    show ?thesis
    proof (cases "extract_json_block content")
      case None
      with assms Inl p have "sc = sc1"
        by (simp add: parse_scores_def split: if_splits)
      with k1 show ?thesis by simp
    next
      case (Some block)
      show ?thesis
      proof (cases "try_parse block sc1")
        case (Inr sc2)
        with assms Inl p Some have "sc = sc2"
          by (simp add: parse_scores_def split: if_splits)
        with Inr k1 show ?thesis using try_parse_keys(1) by metis
      next
        case (Inl q)
        obtain e2 sc2 where q: "q = (e2, sc2)" by (cases q)
        with assms \<open>try_parse (strip content) null_scores = Inl p\<close> p Some Inl
        have "sc = sc2" by (simp add: parse_scores_def split: if_splits)
        with Inl q k1 show ?thesis using try_parse_keys(2) by metis
      qed
    qed
  qed
qed

lemma fill_scores_numbers:
  assumes "\<forall>f \<in> set fs. absent_null_or_number (obj_get kvs f)"
  shows "\<exists>sc'. fill_scores (JObj kvs) fs sc = Inr sc'
     \<and> (\<forall>f. map_of sc' f =
           (if f \<in> set fs \<and> f \<in> fst ` set sc \<and> number_value (obj_get kvs f) \<noteq> None
            then Some (number_value (obj_get kvs f)) else map_of sc f))"
  using assms
proof (induction fs arbitrary: sc)
  case Nil
  then show ?case by simp
next
  case (Cons g fs)
  have rest: "\<forall>f \<in> set fs. absent_null_or_number (obj_get kvs f)" using Cons.prems by simp
  have g: "absent_null_or_number (obj_get kvs g)" using Cons.prems by simp
  show ?case
  proof (cases "number_value (obj_get kvs g)")
    case None
    with g have skip: "fill_scores (JObj kvs) (g # fs) sc = fill_scores (JObj kvs) fs sc"
      by (auto simp: py_contains_def py_getitem_def absent_null_or_number_def number_value_def
          split: option.splits json.splits)
    from Cons.IH [OF rest, of sc] None show ?thesis unfolding skip by auto
  next
    case (Some x)
    with g have step: "fill_scores (JObj kvs) (g # fs) sc
        = fill_scores (JObj kvs) fs (dict_set sc g (Some x))"
      by (auto simp: py_contains_def py_getitem_def py_float_of_def number_value_def
          absent_null_or_number_def split: option.splits json.splits)
    from Cons.IH [OF rest, of "dict_set sc g (Some x)"] obtain sc' where
      sc': "fill_scores (JObj kvs) fs (dict_set sc g (Some x)) = Inr sc'"
      "\<forall>f. map_of sc' f =
           (if f \<in> set fs \<and> f \<in> fst ` set (dict_set sc g (Some x))
               \<and> number_value (obj_get kvs f) \<noteq> None
            then Some (number_value (obj_get kvs f)) else map_of (dict_set sc g (Some x)) f)"
      by blast
    have keys: "fst ` set (dict_set sc g (Some x)) = fst ` set sc"
      using dict_set_keys [of sc g "Some x"] by (metis list.set_map)
    show ?thesis
      unfolding step using sc' Some by (auto simp: keys map_of_dict_set)
  qed
qed

text \<open>
  The reply the prompt asks for: when the stripped text decodes to an object in which each
  of the five dimensions is absent, \<open>null\<close> or a number that has a double, the parser
  returns the five keys with exactly those numbers as floats, whatever their size, and
  \<open>None\<close> for the rest.
\<close>

lemma parse_scores_passes_numbers:
  assumes "json_loads (strip content) = Some (JObj kvs)"
    and "\<forall>f \<in> set SCORE_FIELDS. absent_null_or_number (obj_get kvs f)"
  shows "\<exists>sc. parse_scores content = Inr sc \<and> map fst sc = SCORE_FIELDS
     \<and> (\<forall>f \<in> set SCORE_FIELDS. map_of sc f = Some (number_value (obj_get kvs f)))"
proof -
  from fill_scores_numbers [OF assms(2), of null_scores] obtain sc where
    sc: "fill_scores (JObj kvs) SCORE_FIELDS null_scores = Inr sc"
    "\<forall>f. map_of sc f =
           (if f \<in> set SCORE_FIELDS \<and> f \<in> fst ` set null_scores
               \<and> number_value (obj_get kvs f) \<noteq> None
            then Some (number_value (obj_get kvs f)) else map_of null_scores f)"
    by blast
  have p: "parse_scores content = Inr sc"
    using assms(1) sc(1) by (simp add: parse_scores_def try_parse_def)
  have keys: "fst ` set null_scores = set SCORE_FIELDS"
    by (simp add: null_scores_def image_image)
  have nulls: "f \<in> set SCORE_FIELDS \<Longrightarrow> map_of null_scores f = Some None" for f
    by (simp add: null_scores_def map_of_map_restrict)
  have "\<forall>f \<in> set SCORE_FIELDS. map_of sc f = Some (number_value (obj_get kvs f))"
    using sc(2) keys nulls by auto
  with p parse_scores_keys [OF p] show ?thesis by blast
qed

text \<open>An integer too large for a double makes \<open>float()\<close> raise, and the parser with it:
  \<open>OverflowError\<close> is not among the exceptions it catches.\<close>

lemma py_float_of_overflow:
  "py_float_of (JInt (2 ^ 1024)) = Inl OverflowError \<and> \<not> caught OverflowError"
  by (simp add: py_float_of_def overflows_def caught_def)

text \<open>Scores of 1.5 and -2 are returned as they are.\<close>

lemma parse_scores_out_of_range:
  "parse_scores out_of_range_reply =
     Inr [(''clarity'', Some (Finite 1.5)), (''tradeoffs'', Some (Finite (- 2))),
          (''adaptability'', None), (''failure_awareness'', None), (''dsa_predict'', None)]"
  by code_simp

text \<open>
  Claim C10 at a failing input: the reply \<open>5\<close> decodes to a number, \<open>field in data\<close> raises
  \<open>TypeError\<close>, which \<open>except (json.JSONDecodeError, ValueError)\<close> does not catch, and the
  parser raises instead of returning the five-key mapping.
\<close>

theorem parse_scores_scalar_raises:
  "json_loads (strip scalar_reply) = Some (JInt 5) \<and> parse_scores scalar_reply = Inl TypeError"
  by code_simp

text \<open>
  End to end: one call of the endpoint on an empty database, with a provider that answers
  \<open>{"clarity": 1.5, "tradeoffs": -2}\<close>, leaves \<open>clarity_avg = 1.5\<close> and
  \<open>tradeoff_avg = -2\<close> in the user's row.
\<close>

lemma evaluate_stores_out_of_range:
  "map_option (\<lambda>r. (us_clarity_avg r, us_tradeoff_avg r))
      (user_state (snd (evaluate healthy_env request_u1 empty_database)) ''u1'')
     = Some (Some (Finite 1.5), Some (Finite (- 2)))"
proof -
  have sc: "score (groq_outcome healthy_env) (openrouter_outcome healthy_env) =
     Inr [(''clarity'', Some (Finite 1.5)), (''tradeoffs'', Some (Finite (- 2))),
          (''adaptability'', None), (''failure_awareness'', None), (''dsa_predict'', None)]"
    by (simp add: score_def call_llm_def healthy_env_def parse_scores_out_of_range)
  have rest: "pool_available healthy_env" "interaction_acquire healthy_env = Succeeds"
    "interaction_insert healthy_env = Succeeds" "scores_acquire healthy_env = Succeeds"
    "scores_insert healthy_env = Succeeds" "aggregator healthy_env = no_faults"
    "clock healthy_env = 10" "default_row healthy_env = spec_default_row"
    by (simp_all add: healthy_env_def)
  show ?thesis
    using rest
    by (simp add: evaluate_def sc save_interaction_def save_scores_def update_user_state_def
        update_user_state_body_def no_faults_def sql_ensure_user_state_def
        sql_update_aggregates_def request_u1_def empty_database_def spec_default_row_def
        sql_avg_def non_null_def coalesce_def dict_get_def Let_def)
qed

end
